(* ===== verification/Prelude.thy ===== *)
theory Prelude
  imports Main "HOL-Library.Word"
begin

text \<open>
  Vocabulary shared by every component: the errors of the Go code as values, the result of a Go
  function that may fail or panic, the read of a JSON file, Go's randomly ordered iteration over a
  map, and the few string functions of the standard library that the code uses.
\<close>

named_theorems model_defs \<open>definitions of the operations, to be unfolded by the component proofs\<close>
named_theorems run_splits \<open>case splits on results, options and pairs\<close>

section \<open>Errors and results\<close>

text \<open>
  The gRPC status codes that the shim answers with; \<open>Unknown\<close> is what a client reads off an error
  that is not a status.
\<close>

datatype code = InvalidArgument | NotFound | AlreadyExists | FailedPrecondition | Unimplemented | Unknown

text \<open>
  An error value. Messages are kept as the format string and its arguments, not rendered, so that
  two errors are equal when the code built them from the same text and operands. \<open>New\<close> is
  \<open>errors.New\<close> (text, operands appended), \<open>Wrapf\<close> is \<open>fmt.Errorf\<close> with a wrapped error,
  \<open>StatusErr\<close> is \<open>status.Errorf\<close>, \<open>Ext\<close> an error of code outside the repository.
\<close>

datatype err =
    ErrNotSupported
  | New string "string list"
  | Wrapf string "string list" err
  | StatusErr code string "string list"
  | Ext string

fun status_Code :: "err \<Rightarrow> code" where
  "status_Code (StatusErr c f as) = c"
| "status_Code ErrNotSupported = Unknown"
| "status_Code (New f as) = Unknown"
| "status_Code (Wrapf f as e) = Unknown"
| "status_Code (Ext m) = Unknown"

text \<open>The value of a call that returns \<open>(T, error)\<close>, or does not return because it panics.\<close>

datatype 'a res = Ok 'a | Err err | Panic

fun is_ok :: "'a res \<Rightarrow> bool" where
  "is_ok (Ok x) = True"
| "is_ok (Err e) = False"
| "is_ok Panic = False"

lemma is_ok_iff: "is_ok r \<longleftrightarrow> (\<exists>x. r = Ok x)"
  by (cases r) auto

lemma res_eq_Panic_iff: "r \<noteq> Panic \<longleftrightarrow> (\<exists>x. r = Ok x) \<or> (\<exists>e. r = Err e)"
  by (cases r) auto

lemmas result_splits [run_splits] = res.splits option.splits prod.splits if_splits

text \<open>Go on unless there was an error.\<close>

definition andThen :: "err option \<times> 'g \<Rightarrow> ('g \<Rightarrow> err option \<times> 'g) \<Rightarrow> err option \<times> 'g" where
  "andThen q k = (case q of (None, g) \<Rightarrow> k g | (Some e, g) \<Rightarrow> (Some e, g))"

section \<open>Files that hold JSON\<close>

text \<open>What reading and unmarshalling a JSON file can yield.\<close>

datatype 'a json_file = NotExist | ReadErr err | Malformed err | Parsed 'a

section \<open>Running commands\<close>

text \<open>
  The outcome of \<open>Run\<close> in \<open>os/exec\<close>: success, an \<open>ExitError\<close> with its code, or any other error.
\<close>

datatype run_result = RunOk | RunExit int | RunError err

text \<open>
  A loop that runs commands until one fails: the index of the failing command with its error, if any,
  and the state after the last command that was run.
\<close>

fun run_until ::
  "(string list \<Rightarrow> 'g \<Rightarrow> err option \<times> 'g) \<Rightarrow> string list list \<Rightarrow> 'g \<Rightarrow> (string list \<times> err) option \<times> 'g"
where
  "run_until run [] g = (None, g)"
| "run_until run (c # cs) g =
     (case run c g of
        (None, g') \<Rightarrow> run_until run cs g'
      | (Some e, g') \<Rightarrow> (Some (c, e), g'))"

text \<open>With a runner that logs its commands, the log shows how far the loop came.\<close>

definition logged ::
  "(string list list \<Rightarrow> string list \<Rightarrow> err option) \<Rightarrow> string list \<Rightarrow> string list list \<Rightarrow> err option \<times> string list list"
where
  "logged out c l = (out l c, l @ [c])"

lemma logged_simps:
  "run_until (logged out) (c # cs) l =
     (case out l c of None \<Rightarrow> run_until (logged out) cs (l @ [c]) | Some e \<Rightarrow> (Some (c, e), l @ [c]))"
  by (simp add: logged_def split: option.split)

lemma run_until_all:
  "run_until (logged out) cs l = (None, l') \<Longrightarrow>
   l' = l @ cs \<and> (\<forall>j < length cs. out (l @ take j cs) (cs ! j) = None)"
proof (induction cs arbitrary: l)
  case (Cons c cs)
  then have c: "out l c = None" and r: "run_until (logged out) cs (l @ [c]) = (None, l')"
    by (auto simp: logged_simps simp del: run_until.simps split: option.splits)
  show ?case using Cons.IH [OF r] c by (auto simp: less_Suc_eq_0_disj)
qed simp

lemma run_until_fail:
  "run_until (logged out) cs l = (Some (c, e), l') \<Longrightarrow>
   \<exists>k < length cs. c = cs ! k \<and> l' = l @ take (Suc k) cs \<and> out (l @ take k cs) c = Some e \<and>
     (\<forall>j < k. out (l @ take j cs) (cs ! j) = None)"
proof (induction cs arbitrary: l)
  case (Cons x xs)
  show ?case
  proof (cases "out l x")
    case None
    then have "run_until (logged out) xs (l @ [x]) = (Some (c, e), l')"
      using Cons.prems by (simp add: logged_simps del: run_until.simps)
    from Cons.IH [OF this] obtain k where "k < length xs" "c = xs ! k" "l' = (l @ [x]) @ take (Suc k) xs"
      "out ((l @ [x]) @ take k xs) c = Some e" "\<forall>j < k. out ((l @ [x]) @ take j xs) (xs ! j) = None"
      by blast
    with None show ?thesis by (intro exI [of _ "Suc k"]) (auto simp: less_Suc_eq_0_disj)
  next
    case (Some e')
    then show ?thesis using Cons.prems by (auto simp: logged_simps simp del: run_until.simps)
  qed
qed simp

section \<open>Ranging over a map\<close>

text \<open>
  Go ranges over a map in an unspecified order. A loop over a map takes that order as an argument:
  a list of the keys, each once.
\<close>

definition range_order :: "('k \<rightharpoonup> 'v) \<Rightarrow> 'k list \<Rightarrow> bool" where
  "range_order m ks \<longleftrightarrow> distinct ks \<and> set ks = dom m"

fun range_vals :: "('k \<rightharpoonup> 'v) \<Rightarrow> 'k list \<Rightarrow> 'v list" where
  "range_vals m [] = []"
| "range_vals m (k # ks) = (case m k of None \<Rightarrow> range_vals m ks | Some v \<Rightarrow> v # range_vals m ks)"

lemma set_range_vals: "set (range_vals m ks) = {v. \<exists>k \<in> set ks. m k = Some v}"
  by (induction ks) (auto split: option.splits)

lemma set_range_vals_order: "range_order m ks \<Longrightarrow> set (range_vals m ks) = ran m"
  by (auto simp: set_range_vals range_order_def ran_def dom_def)

lemma length_range_vals: "set ks \<subseteq> dom m \<Longrightarrow> length (range_vals m ks) = length ks"
  by (induction ks) auto

lemma range_order_empty [simp]: "range_order Map.empty ks \<longleftrightarrow> ks = []"
  by (auto simp: range_order_def)

lemma range_order_length: "range_order m ks \<Longrightarrow> length (range_vals m ks) = card (dom m)"
  using length_range_vals [of ks m] distinct_card [of ks] by (simp add: range_order_def)

section \<open>Strings\<close>

text \<open>\<open>strings.HasPrefix\<close>, \<open>strings.TrimPrefix\<close> and \<open>strings.CutPrefix\<close>.\<close>

fun HasPrefix :: "string \<Rightarrow> string \<Rightarrow> bool" where
  "HasPrefix s [] = True"
| "HasPrefix [] (p # ps) = False"
| "HasPrefix (c # s) (p # ps) = (c = p \<and> HasPrefix s ps)"

definition TrimPrefix :: "string \<Rightarrow> string \<Rightarrow> string" where
  "TrimPrefix s p = (if HasPrefix s p then drop (length p) s else s)"

lemma HasPrefix_iff: "HasPrefix s p \<longleftrightarrow> (\<exists>t. s = p @ t)"
  by (induction s p rule: HasPrefix.induct) auto

lemma HasPrefix_append [simp]: "HasPrefix (p @ t) p"
  by (simp add: HasPrefix_iff)

lemma TrimPrefix_append [simp]: "TrimPrefix (p @ t) p = t"
  by (simp add: TrimPrefix_def)

text \<open>\<open>strconv.Itoa\<close>: decimal digits, a minus sign for a negative number.\<close>

definition digit :: "nat \<Rightarrow> char" where
  "digit n = char_of (48 + n)"

fun utoa :: "nat \<Rightarrow> string" where
  "utoa n = (if n < 10 then [digit n] else utoa (n div 10) @ [digit (n mod 10)])"

declare utoa.simps [simp del]

definition Itoa :: "int \<Rightarrow> string" where
  "Itoa i = (if i < 0 then ''-'' @ utoa (nat (- i)) else utoa (nat i))"

fun atou :: "nat \<Rightarrow> string \<Rightarrow> nat" where
  "atou acc [] = acc"
| "atou acc (c # s) = atou (acc * 10 + (of_char c - 48)) s"

lemma of_char_digit: "n < 10 \<Longrightarrow> of_char (digit n) = 48 + n"
  by (simp add: digit_def)

lemma atou_append: "atou acc (s @ t) = atou (atou acc s) t"
  by (induction s arbitrary: acc) auto

lemma atou_utoa: "atou 0 (utoa n) = n"
proof (induction n rule: utoa.induct)
  case (1 n)
  show ?case
  proof (cases "n < 10")
    case True
    then show ?thesis by (simp add: utoa.simps [of n] of_char_digit)
  next
    case False
    with 1 have "atou 0 (utoa (n div 10)) = n div 10" by simp
    with False show ?thesis
      by (simp add: utoa.simps [of n] atou_append of_char_digit)
  qed
qed

lemma utoa_inject [simp]: "utoa m = utoa n \<longleftrightarrow> m = n"
  using atou_utoa by metis

definition is_digit :: "char \<Rightarrow> bool" where
  "is_digit c \<longleftrightarrow> c \<in> set ''0123456789''"

lemma digit_set: "n < 10 \<Longrightarrow> digit n \<in> set ''0123456789''"
proof -
  assume "n < 10"
  then have "n \<in> {0, 1, 2, 3, 4, 5, 6, 7, 8, 9}" by auto
  then show ?thesis by (elim insertE) (simp_all add: digit_def char_of_def bit_iff_odd)
qed

lemma utoa_set: "set (utoa n) \<subseteq> set ''0123456789''"
proof (induction n rule: utoa.induct)
  case (1 n)
  then show ?case using digit_set [of n] digit_set [of "n mod 10"] by (subst utoa.simps) auto
qed

lemma utoa_not_Nil [simp]: "utoa n \<noteq> []"
  by (subst utoa.simps) simp

section \<open>Counting in a list\<close>

text \<open>How many elements satisfy \<open>P\<close> after one element was replaced.\<close>

lemma count_update:
  "i < length ts \<Longrightarrow>
   length (filter P (ts[i := t])) + (if P (ts ! i) then 1 else 0) =
   length (filter P ts) + (if P t then 1 else 0)"
proof (induction ts arbitrary: i)
  case (Cons x xs)
  show ?case
  proof (cases i)
    case (Suc j)
    with Cons.prems Cons.IH [of j] show ?thesis by auto
  qed simp
qed simp

end
