(* ===== verification/Filepath.thy ===== *)
theory Filepath
  imports Prelude
begin

text \<open>
  \<open>Clean\<close>, \<open>Join\<close> and \<open>Dir\<close> of Go's \<open>path/filepath\<close> on Unix, which the code uses for every path it
  builds, with the lemma that matters for extraction: a cleaned name without a leading \<open>..\<close> joined
  to a directory stays lexically below it.
\<close>

section \<open>Components\<close>

fun splitSlash :: "string \<Rightarrow> string list" where
  "splitSlash [] = [[]]"
| "splitSlash (c # cs) =
     (if c = CHR ''/'' then [] # splitSlash cs
      else (case splitSlash cs of [] \<Rightarrow> [[c]] | x # xs \<Rightarrow> (c # x) # xs))"

fun joinSlash :: "string list \<Rightarrow> string" where
  "joinSlash [] = []"
| "joinSlash [x] = x"
| "joinSlash (x # y # ys) = x @ ''/'' @ joinSlash (y # ys)"

lemma splitSlash_nonempty [simp]: "splitSlash s \<noteq> []"
  by (induction s) (auto split: list.splits)

lemma splitSlash_append: "splitSlash (a @ CHR ''/'' # b) = splitSlash a @ splitSlash b"
  by (induction a) (auto split: list.splits)

lemma splitSlash_plain: "CHR ''/'' \<notin> set x \<Longrightarrow> splitSlash x = [x]"
  by (induction x) auto

lemma splitSlash_comp: "x \<in> set (splitSlash s) \<Longrightarrow> CHR ''/'' \<notin> set x"
  by (induction s arbitrary: x) (auto split: list.splits if_splits)

lemma splitSlash_join:
  "xs \<noteq> [] \<Longrightarrow> \<forall>x \<in> set xs. CHR ''/'' \<notin> set x \<Longrightarrow> splitSlash (joinSlash xs) = xs"
  by (induction xs rule: joinSlash.induct) (auto simp: splitSlash_plain splitSlash_append)

lemma joinSlash_append:
  "xs \<noteq> [] \<Longrightarrow> ys \<noteq> [] \<Longrightarrow> joinSlash (xs @ ys) = joinSlash xs @ ''/'' @ joinSlash ys"
  by (induction xs rule: joinSlash.induct) (auto simp: neq_Nil_conv)

section \<open>Clean\<close>

text \<open>
  One component of a path, against the stack of the components kept so far (innermost first): empty
  and \<open>.\<close> are dropped; \<open>..\<close> drops the component before it, is dropped at the root, and is kept at the
  start of a relative path.
\<close>

definition cleanStep :: "bool \<Rightarrow> string list \<Rightarrow> string \<Rightarrow> string list" where
  "cleanStep rooted st x =
     (if x = [] \<or> x = ''.'' then st
      else if x = ''..'' then
        (case st of
           [] \<Rightarrow> if rooted then [] else [''..'']
         | up # rest \<Rightarrow> if up = ''..'' then ''..'' # st else rest)
      else x # st)"

definition cleanComps :: "bool \<Rightarrow> string list \<Rightarrow> string list" where
  "cleanComps rooted xs = rev (foldl (cleanStep rooted) [] xs)"

definition isAbs :: "string \<Rightarrow> bool" where
  "isAbs p = HasPrefix p ''/''"

definition Clean :: "string \<Rightarrow> string" where
  "Clean p =
     (let rooted = isAbs p; body = joinSlash (cleanComps rooted (splitSlash p))
      in if rooted then ''/'' @ body else if body = [] then ''.'' else body)"

text \<open>\<open>Join\<close>: from the first non-empty element on, joined with slashes and cleaned.\<close>

fun Join :: "string list \<Rightarrow> string" where
  "Join [] = []"
| "Join (e # es) = (if e \<noteq> [] then Clean (joinSlash (e # es)) else Join es)"

declare Join.simps [simp del]

text \<open>\<open>Dir\<close>: everything up to the last slash, cleaned.\<close>

definition Dir :: "string \<Rightarrow> string" where
  "Dir p = Clean (joinSlash (butlast (splitSlash p)) @
     (if length (splitSlash p) > 1 then ''/'' else []))"

section \<open>What a cleaned path looks like\<close>

definition name_comp :: "string \<Rightarrow> bool" where
  "name_comp x \<longleftrightarrow> x \<noteq> [] \<and> x \<noteq> ''.'' \<and> x \<noteq> ''..'' \<and> CHR ''/'' \<notin> set x"

lemma name_compD:
  "name_comp x \<Longrightarrow> x \<noteq> []" "name_comp x \<Longrightarrow> x \<noteq> ''.''" "name_comp x \<Longrightarrow> x \<noteq> ''..''"
  "name_comp x \<Longrightarrow> CHR ''/'' \<notin> set x"
  by (simp_all add: name_comp_def)

lemma cleanStep_name [simp]: "name_comp x \<Longrightarrow> cleanStep rooted st x = x # st"
  by (simp add: cleanStep_def name_comp_def)

lemma cleanStep_drop [simp]: "cleanStep rooted st [] = st" "cleanStep rooted st ''.'' = st"
  by (simp_all add: cleanStep_def)

lemma foldl_cleanStep_names:
  "\<forall>x \<in> set xs. name_comp x \<Longrightarrow> foldl (cleanStep rooted) st xs = rev xs @ st"
  by (induction xs arbitrary: st) auto

text \<open>The stack is always a run of names above a run of \<open>..\<close>, and rooted paths keep no \<open>..\<close>.\<close>

definition stack_ok :: "bool \<Rightarrow> string list \<Rightarrow> bool" where
  "stack_ok rooted st \<longleftrightarrow>
     (\<exists>names k. st = names @ replicate k ''..'' \<and> (\<forall>x \<in> set names. name_comp x) \<and>
        (rooted \<longrightarrow> k = 0))"

lemma stack_ok_Nil [simp]: "stack_ok rooted []"
  by (auto simp: stack_ok_def intro: exI [of _ 0])

lemma stack_ok_push:
  assumes "stack_ok rooted st" "name_comp x"
  shows "stack_ok rooted (x # st)"
proof -
  from assms(1) obtain names k where "st = names @ replicate k ''..''"
    "\<forall>x \<in> set names. name_comp x" "rooted \<longrightarrow> k = 0" by (auto simp: stack_ok_def)
  with assms(2) show ?thesis
    unfolding stack_ok_def by (intro exI [of _ "x # names"] exI [of _ k]) simp
qed

lemma stack_ok_up:
  assumes "stack_ok rooted st"
  shows "stack_ok rooted (cleanStep rooted st ''..'')"
proof -
  from assms obtain names k where st: "st = names @ replicate k ''..''"
    "\<forall>x \<in> set names. name_comp x" "rooted \<longrightarrow> k = 0" by (auto simp: stack_ok_def)
  show ?thesis
  proof (cases names)
    case Nil
    have "cleanStep rooted st ''..'' = replicate (if rooted then 0 else Suc k) ''..''"
      using Nil st by (cases k) (auto simp: cleanStep_def)
    then show ?thesis unfolding stack_ok_def by (intro exI [of _ "[]"]) auto
  next
    case (Cons n ns)
    then have "cleanStep rooted st ''..'' = ns @ replicate k ''..''"
      using st name_compD(3) by (auto simp: cleanStep_def)
    then show ?thesis using st Cons by (auto simp: stack_ok_def)
  qed
qed

lemma stack_ok_step:
  assumes "stack_ok rooted st" "CHR ''/'' \<notin> set x"
  shows "stack_ok rooted (cleanStep rooted st x)"
proof -
  consider "x = [] \<or> x = ''.''" | "x = ''..''" | "name_comp x"
    using assms(2) by (auto simp: name_comp_def)
  then show ?thesis using assms(1) by cases (auto intro: stack_ok_push stack_ok_up)
qed

lemma stack_ok_foldl:
  "stack_ok rooted st \<Longrightarrow> \<forall>x \<in> set xs. CHR ''/'' \<notin> set x \<Longrightarrow>
   stack_ok rooted (foldl (cleanStep rooted) st xs)"
  by (induction xs arbitrary: st) (auto intro: stack_ok_step)

lemma cleanComps_shape:
  obtains names k where "cleanComps (isAbs p) (splitSlash p) = replicate k ''..'' @ names"
    "\<forall>x \<in> set names. name_comp x" "isAbs p \<longrightarrow> k = 0"
proof -
  have "stack_ok (isAbs p) (foldl (cleanStep (isAbs p)) [] (splitSlash p))"
    by (rule stack_ok_foldl) (auto dest: splitSlash_comp)
  then obtain names k where
    "foldl (cleanStep (isAbs p)) [] (splitSlash p) = names @ replicate k ''..''"
    "\<forall>x \<in> set names. name_comp x" "isAbs p \<longrightarrow> k = 0"
    unfolding stack_ok_def by blast
  then show thesis using that [of k "rev names"] by (simp add: cleanComps_def)
qed

text \<open>
  So a cleaned path that does not begin with \<open>..\<close> is the root, \<open>.\<close>, or names joined by slashes, after
  a slash when the path is absolute.
\<close>

lemma Clean_no_dotdot:
  assumes "\<not> HasPrefix (Clean p) ''..''"
  obtains names where "\<forall>x \<in> set names. name_comp x"
    "Clean p = (if isAbs p then ''/'' else []) @ joinSlash names \<or> (names = [] \<and> Clean p = ''.'')"
proof -
  obtain names k where c: "cleanComps (isAbs p) (splitSlash p) = replicate k ''..'' @ names"
    "\<forall>x \<in> set names. name_comp x" "isAbs p \<longrightarrow> k = 0" by (rule cleanComps_shape)
  have "k = 0"
  proof (cases k)
    case (Suc j)
    then have "\<not> isAbs p" using c(3) by simp
    moreover obtain t where "joinSlash (replicate k ''..'' @ names) = ''..'' @ t"
      using Suc by (cases "replicate j ''..'' @ names") auto
    ultimately have "HasPrefix (Clean p) ''..''" using c(1) by (simp add: Clean_def)
    with assms show ?thesis by simp
  qed simp
  have "names = []" if "joinSlash names = []"
    using that c(2) by (cases names rule: joinSlash.cases) (auto dest: name_compD)
  with \<open>k = 0\<close> c show thesis
    by (intro that [of names]) (auto simp: Clean_def Let_def)
qed

section \<open>Joining below a directory\<close>

text \<open>
  \<open>within d t\<close>: the path \<open>t\<close> is \<open>d\<close> or lies below it. \<open>clean_abs d\<close>: \<open>d\<close> is an absolute path in
  cleaned form other than the root, which is what \<open>MkdirTemp\<close> and \<open>Join\<close> with it yield.
\<close>

definition within :: "string \<Rightarrow> string \<Rightarrow> bool" where
  "within d t \<longleftrightarrow> t = d \<or> HasPrefix t (d @ ''/'')"

definition clean_abs :: "string \<Rightarrow> bool" where
  "clean_abs d \<longleftrightarrow> isAbs d \<and> Clean d = d \<and> d \<noteq> ''/''"

lemma clean_abs_names:
  assumes "clean_abs d"
  obtains ns where "ns \<noteq> []" "\<forall>x \<in> set ns. name_comp x" "d = ''/'' @ joinSlash ns"
proof -
  obtain names k where c: "cleanComps (isAbs d) (splitSlash d) = replicate k ''..'' @ names"
    "\<forall>x \<in> set names. name_comp x" "isAbs d \<longrightarrow> k = 0" by (rule cleanComps_shape)
  have "isAbs d" "Clean d = d" using assms by (simp_all add: clean_abs_def)
  with c have d: "d = ''/'' @ joinSlash names" by (simp add: Clean_def)
  moreover have "names \<noteq> []" using d assms by (auto simp: clean_abs_def)
  ultimately show thesis using that c(2) by blast
qed

lemma not_name_comp [simp]: "\<not> name_comp []" "\<not> name_comp ''.''"
  by (simp_all add: name_comp_def)

lemma foldl_cleanStep_mixed:
  "\<forall>x \<in> set xs. x = [] \<or> x = ''.'' \<or> name_comp x \<Longrightarrow>
   foldl (cleanStep rooted) st xs = rev (filter name_comp xs) @ st"
proof (induction xs arbitrary: st)
  case (Cons x xs)
  then consider "x = []" | "x = ''.''" | "name_comp x" by auto
  then show ?case using Cons by cases simp_all
qed simp

lemma Clean_abs_names:
  assumes "\<forall>x \<in> set ns. name_comp x" and "splitSlash p = [] # ns @ rest" "isAbs p"
    and "\<forall>x \<in> set rest. x = [] \<or> x = ''.'' \<or> name_comp x"
  shows "Clean p = ''/'' @ joinSlash (ns @ filter name_comp rest)"
proof -
  have "cleanComps True (splitSlash p) = ns @ filter name_comp rest"
    using assms(1,2,4) by (simp add: cleanComps_def foldl_cleanStep_names foldl_cleanStep_mixed)
  with assms(3) show ?thesis by (simp add: Clean_def)
qed

lemma Join_shape:
  assumes d: "clean_abs d" and nodd: "\<not> HasPrefix (Clean p) ''..''"
  obtains ys where "\<forall>y \<in> set ys. name_comp y"
    "Join [d, Clean p] = (if ys = [] then d else d @ ''/'' @ joinSlash ys)"
proof -
  obtain ns where ns: "ns \<noteq> []" "\<forall>x \<in> set ns. name_comp x" "d = ''/'' @ joinSlash ns"
    using d by (rule clean_abs_names)
  obtain names where nm: "\<forall>x \<in> set names. name_comp x"
    "Clean p = (if isAbs p then ''/'' else []) @ joinSlash names \<or> (names = [] \<and> Clean p = ''.'')"
    using nodd by (rule Clean_no_dotdot)
  have sd: "splitSlash d = [] # ns"
    using ns splitSlash_append [of "[]" "joinSlash ns"] by (simp add: splitSlash_join name_compD)
  have sc: "set (splitSlash (Clean p)) \<subseteq> set names \<union> {[], ''.''}"
  proof (cases "names = []")
    case True
    then show ?thesis using nm(2) splitSlash_append [of "[]" "[]"]
      by (auto simp: splitSlash_plain split: if_splits)
  next
    case False
    then have "splitSlash (joinSlash names) = names"
      using nm(1) by (simp add: splitSlash_join name_compD)
    then show ?thesis using False nm(2) splitSlash_append [of "[]" "joinSlash names"]
      by (auto split: if_splits)
  qed
  let ?q = "d @ ''/'' @ Clean p"
  have q: "splitSlash ?q = [] # ns @ splitSlash (Clean p)" "isAbs ?q"
    using sd splitSlash_append [of d "Clean p"] ns(3) by (simp_all add: isAbs_def)
  have "Clean ?q = ''/'' @ joinSlash (ns @ filter name_comp (splitSlash (Clean p)))"
    using ns(2) q nm(1) sc by (intro Clean_abs_names) auto
  moreover have "Join [d, Clean p] = Clean ?q" using ns by (simp add: Join.simps)
  ultimately show thesis
    using ns joinSlash_append [OF ns(1), of "filter name_comp (splitSlash (Clean p))"]
    by (intro that [of "filter name_comp (splitSlash (Clean p))"]) auto
qed

lemma Join_within:
  assumes "clean_abs d" "\<not> HasPrefix (Clean p) ''..''"
  shows "within d (Join [d, Clean p])"
  using assms by (rule Join_shape) (auto simp: within_def HasPrefix_iff split: if_splits)

text \<open>Joining plain names to a clean absolute path is concatenation.\<close>

lemma Clean_below:
  assumes "clean_abs d" "ys \<noteq> []" "\<forall>y \<in> set ys. name_comp y" "p = d @ ''/'' @ joinSlash ys"
  shows "Clean p = p" "clean_abs p" "within d p"
proof -
  obtain ns where ns: "ns \<noteq> []" "\<forall>y \<in> set ns. name_comp y" "d = ''/'' @ joinSlash ns"
    using assms(1) by (rule clean_abs_names)
  have p: "p = ''/'' @ joinSlash (ns @ ys)" using ns assms joinSlash_append [OF ns(1) assms(2)] by simp
  have "splitSlash (joinSlash (ns @ ys)) = ns @ ys"
    using ns assms(2,3) name_compD(4) by (intro splitSlash_join) auto
  then have "splitSlash p = [] # ns @ ys"
    unfolding p using splitSlash_append [of "[]" "joinSlash (ns @ ys)"] by simp
  then have "Clean p = ''/'' @ joinSlash (ns @ filter name_comp ys)"
    using ns assms(3) p by (intro Clean_abs_names) (auto simp: isAbs_def)
  then show c: "Clean p = p" using assms(3) p by (simp add: filter_id_conv)
  show "within d p" by (auto simp: assms(4) within_def HasPrefix_iff)
  have "p \<noteq> ''/''" using ns assms(4) by (cases ns rule: joinSlash.cases) (auto dest: name_compD)
  with c show "clean_abs p" by (simp add: clean_abs_def isAbs_def assms(4) ns(3))
qed

lemma Join_below:
  assumes "clean_abs d" "ys \<noteq> []" "\<forall>y \<in> set ys. name_comp y"
  shows "Join (d # ys) = d @ ''/'' @ joinSlash ys" "Join [d, joinSlash ys] = d @ ''/'' @ joinSlash ys"
    "clean_abs (d @ ''/'' @ joinSlash ys)" "within d (d @ ''/'' @ joinSlash ys)"
proof -
  note c = Clean_below [OF assms refl]
  have "d \<noteq> []" using assms(1) by (auto simp: clean_abs_def isAbs_def)
  moreover have "joinSlash (d # ys) = d @ ''/'' @ joinSlash ys" using assms(2) by (cases ys) auto
  ultimately show "Join (d # ys) = d @ ''/'' @ joinSlash ys" "Join [d, joinSlash ys] = d @ ''/'' @ joinSlash ys"
    using c(1) by (simp_all add: Join.simps)
qed (use Clean_below [OF assms refl] in auto)

text \<open>The directory of a path below a clean absolute path is that path or below it.\<close>

lemma Dir_below:
  assumes "clean_abs d" "ys \<noteq> []" "\<forall>y \<in> set ys. name_comp y"
  shows "within d (Dir (d @ ''/'' @ joinSlash ys))"
proof -
  obtain ns where ns: "ns \<noteq> []" "\<forall>y \<in> set ns. name_comp y" "d = ''/'' @ joinSlash ns"
    using assms(1) by (rule clean_abs_names)
  define bs where "bs = butlast ys"
  have bs: "\<forall>y \<in> set bs. name_comp y" using assms(3) by (auto simp: bs_def dest: in_set_butlastD)
  have p: "d @ ''/'' @ joinSlash ys = ''/'' @ joinSlash (ns @ ys)"
    using ns joinSlash_append [OF ns(1) assms(2)] by simp
  have split: "splitSlash (''/'' @ joinSlash xs) = [] # xs" if "xs \<noteq> []" "\<forall>x \<in> set xs. name_comp x" for xs
    using that splitSlash_append [of "[]" "joinSlash xs"] by (simp add: splitSlash_join name_compD)
  have all: "\<forall>x \<in> set (ns @ ys). name_comp x" "\<forall>x \<in> set (ns @ bs). name_comp x" using ns(2) assms(3) bs by auto
  have "butlast (splitSlash (d @ ''/'' @ joinSlash ys)) = [] # ns @ bs"
    unfolding p using split [OF _ all(1)] ns(1) assms(2) by (simp add: butlast_append bs_def)
  moreover have "joinSlash ([] # ns @ bs) = ''/'' @ joinSlash (ns @ bs)"
    using ns(1) by (cases "ns @ bs") auto
  moreover have "length (splitSlash (d @ ''/'' @ joinSlash ys)) > 1"
    unfolding p using split [OF _ all(1)] ns(1) by simp
  ultimately have D: "Dir (d @ ''/'' @ joinSlash ys) = Clean (''/'' @ joinSlash (ns @ bs) @ ''/'')"
    by (simp add: Dir_def)
  have "splitSlash (''/'' @ joinSlash (ns @ bs) @ ''/'') = [] # ns @ bs @ [[]]"
    using splitSlash_append [of "''/'' @ joinSlash (ns @ bs)" "[]"] split [OF _ all(2)] ns(1) by simp
  then have "Clean (''/'' @ joinSlash (ns @ bs) @ ''/'') = ''/'' @ joinSlash (ns @ filter name_comp (bs @ [[]]))"
    using ns bs by (intro Clean_abs_names) (auto simp: isAbs_def)
  then have "Dir (d @ ''/'' @ joinSlash ys) = ''/'' @ joinSlash (ns @ bs)" using D bs by (simp add: filter_id_conv)
  then show ?thesis
    using ns joinSlash_append [OF ns(1), of bs] by (cases "bs = []") (auto simp: within_def HasPrefix_iff)
qed

end
