(* ===== verification/Agent.thy ===== *)
theory Agent
  imports Filepath
begin

text \<open>
  The host-guest protocol, \<open>pkg/agent\<close>: its messages (\<open>proto.go\<close>), the network plan of the guest
  (\<open>net.go\<close>), the server in the guest (\<open>server.go\<close>) and the client on the host (\<open>client.go\<close>). The
  guest's operating system is a parameter, a record of the calls that the server makes on a guest
  state \<open>'g\<close>; what a stream delivers is a parameter of the client.
\<close>

section \<open>Messages\<close>

type_synonym Op = string

definition OpPing :: Op where "OpPing = ''ping''"
definition OpExec :: Op where "OpExec = ''exec''"
definition OpWriteFile :: Op where "OpWriteFile = ''write_file''"
definition OpReadFile :: Op where "OpReadFile = ''read_file''"
definition OpConfigureNet :: Op where "OpConfigureNet = ''configure_net''"

lemmas op_defs = OpPing_def OpExec_def OpWriteFile_def OpReadFile_def OpConfigureNet_def

record NetConfig =
  nc_Device :: string
  nc_IP :: string
  nc_Gateway :: string
  nc_MTU :: int

record Request =
  rq_ID :: string
  rq_Op :: Op
  rq_Cmd :: "string list"
  rq_Env :: "string list"
  rq_Path :: string
  rq_Data :: string
  rq_Mode :: "32 word"
  rq_Net :: "NetConfig option"

record Response =
  rs_ID :: string
  rs_Err :: string
  rs_ExitCode :: int
  rs_Stdout :: string
  rs_Stderr :: string
  rs_Data :: string

definition zero_Request :: "Op \<Rightarrow> Request" where
  "zero_Request op = \<lparr>rq_ID = [], rq_Op = op, rq_Cmd = [], rq_Env = [], rq_Path = [], rq_Data = [],
     rq_Mode = 0, rq_Net = None\<rparr>"

section \<open>The network plan\<close>

definition netCommands :: "NetConfig option \<Rightarrow> err + string list list" where
  "netCommands cfg =
     (case cfg of
        None \<Rightarrow> Inl (New ''configure_net: missing net config'' [])
      | Some c \<Rightarrow>
          if nc_Device c = [] \<or> nc_IP c = [] then Inl (New ''configure_net: device and ip are required'' [])
          else Inr (
            [[''ip'', ''addr'', ''add'', nc_IP c, ''dev'', nc_Device c],
             [''ip'', ''link'', ''set'', nc_Device c, ''up'']]
            @ (if nc_MTU c > 0 then [[''ip'', ''link'', ''set'', nc_Device c, ''mtu'', Itoa (nc_MTU c)]] else [])
            @ (if nc_Gateway c \<noteq> [] then
                 [[''ip'', ''route'', ''add'', ''default'', ''via'', nc_Gateway c, ''dev'', nc_Device c]] else [])))"

text \<open>\<open>run\<close> is \<open>exec.Command(...).CombinedOutput()\<close>, of which only the error matters here.\<close>

definition configureNet ::
  "(string list \<Rightarrow> 'g \<Rightarrow> err option \<times> 'g) \<Rightarrow> NetConfig option \<Rightarrow> 'g \<Rightarrow> err option \<times> 'g" where
  "configureNet run cfg g =
     (case netCommands cfg of
        Inl e \<Rightarrow> (Some e, g)
      | Inr cmds \<Rightarrow>
          (case run_until run cmds g of
             (None, g') \<Rightarrow> (None, g')
           | (Some (cmd, e), g') \<Rightarrow> (Some (Wrapf ''configure_net %v: %w'' cmd e), g')))"

section \<open>The server\<close>

text \<open>\<open>g_text\<close> is \<open>err.Error()\<close>. Writing to the serial console does not change the guest state.\<close>

record 'g guest_os =
  g_MkdirAll :: "string \<Rightarrow> 'g \<Rightarrow> err option \<times> 'g"
  g_WriteFile :: "string \<Rightarrow> string \<Rightarrow> 32 word \<Rightarrow> 'g \<Rightarrow> err option \<times> 'g"
  g_ReadFile :: "string \<Rightarrow> 'g \<Rightarrow> err + string"
  g_Run :: "string list \<Rightarrow> string list \<Rightarrow> 'g \<Rightarrow> (run_result \<times> string \<times> string) \<times> 'g"
  g_Output :: "string list \<Rightarrow> 'g \<Rightarrow> err option \<times> 'g"
  g_Environ :: "string list"
  g_text :: "err \<Rightarrow> string"

definition reply_to :: "Request \<Rightarrow> Response" where
  "reply_to req = \<lparr>rs_ID = rq_ID req, rs_Err = [], rs_ExitCode = 0, rs_Stdout = [], rs_Stderr = [],
     rs_Data = []\<rparr>"

definition execCmd :: "'g guest_os \<Rightarrow> Request \<Rightarrow> Response \<Rightarrow> 'g \<Rightarrow> Response \<times> 'g" where
  "execCmd os req resp g =
     (if length (rq_Cmd req) = 0 then (resp\<lparr>rs_Err := ''empty cmd''\<rparr>, g)
      else case g_Run os (rq_Cmd req) (g_Environ os @ rq_Env req) g of
             ((err, out, errout), g') \<Rightarrow>
               (let resp' = resp\<lparr>rs_Stdout := out, rs_Stderr := errout\<rparr>
                in case err of
                     RunOk \<Rightarrow> (resp'\<lparr>rs_ExitCode := 0\<rparr>, g')
                   | RunExit c \<Rightarrow> (resp'\<lparr>rs_ExitCode := c\<rparr>, g')
                   | RunError e \<Rightarrow> (resp'\<lparr>rs_Err := g_text os e\<rparr>, g')))"

definition set_err :: "'g guest_os \<Rightarrow> err option \<Rightarrow> Response \<Rightarrow> Response" where
  "set_err os e resp = (case e of None \<Rightarrow> resp | Some e \<Rightarrow> resp\<lparr>rs_Err := g_text os e\<rparr>)"

text \<open>The mode \<open>0o644\<close>.\<close>

definition default_mode :: "32 word" where
  "default_mode = 6 * 64 + 4 * 8 + 4"

definition handle :: "'g guest_os \<Rightarrow> Request \<Rightarrow> 'g \<Rightarrow> Response \<times> 'g" where
  "handle os req g =
     (let resp = reply_to req; op = rq_Op req
      in if op = OpPing then (resp, g)
         else if op = OpExec then execCmd os req resp g
         else if op = OpWriteFile then
           (let mode = (if rq_Mode req = 0 then default_mode else rq_Mode req)
            in case g_MkdirAll os (Dir (rq_Path req)) g of
                 (Some e, g1) \<Rightarrow> (set_err os (Some e) resp, g1)
               | (None, g1) \<Rightarrow>
                   (case g_WriteFile os (rq_Path req) (rq_Data req) mode g1 of
                      (e, g2) \<Rightarrow> (set_err os e resp, g2)))
         else if op = OpReadFile then
           (case g_ReadFile os (rq_Path req) g of
              Inl e \<Rightarrow> (set_err os (Some e) resp, g)
            | Inr data \<Rightarrow> (resp\<lparr>rs_Data := data\<rparr>, g))
         else if op = OpConfigureNet then
           (case configureNet (g_Output os) (rq_Net req) g of (e, g') \<Rightarrow> (set_err os e resp, g'))
         else (resp\<lparr>rs_Err := ''unknown op: '' @ op\<rparr>, g))"

text \<open>
  One connection: frames are decoded one by one (\<open>None\<close> is EOF or a bad frame), each is handled and
  answered; the first frame that cannot be decoded, or answer that cannot be sent, ends it.
\<close>

fun handleConn ::
  "'g guest_os \<Rightarrow> Request option list \<Rightarrow> (Response \<Rightarrow> bool) \<Rightarrow> 'g \<Rightarrow> Response list \<times> 'g" where
  "handleConn os [] sends g = ([], g)"
| "handleConn os (None # fs) sends g = ([], g)"
| "handleConn os (Some req # fs) sends g =
     (case handle os req g of
        (resp, g1) \<Rightarrow>
          if sends resp then (case handleConn os fs sends g1 of (rs, g2) \<Rightarrow> (resp # rs, g2))
          else ([], g1))"

section \<open>The client\<close>

text \<open>
  What a round on the connection yields. A client is its sequence counter; \<open>roundTrip\<close> stamps the
  request with the next identifier, sends it, and checks the answer.
\<close>

datatype wire = SendFails err | RecvFails err | Got Response

type_synonym 'g conn = "Request \<Rightarrow> 'g \<Rightarrow> wire \<times> 'g"

definition request_id :: "64 word \<Rightarrow> string" where
  "request_id n = ''r'' @ utoa (unat n)"

definition roundTrip :: "'g conn \<Rightarrow> Request \<Rightarrow> 64 word \<Rightarrow> 'g \<Rightarrow> Response res \<times> 64 word \<times> 'g" where
  "roundTrip conn req seq g =
     (let seq' = seq + 1; req' = req\<lparr>rq_ID := request_id seq'\<rparr>
      in case conn req' g of
           (SendFails e, g') \<Rightarrow> (Err (Wrapf ''agent send: %w'' [] e), seq', g')
         | (RecvFails e, g') \<Rightarrow> (Err (Wrapf ''agent recv: %w'' [] e), seq', g')
         | (Got resp, g') \<Rightarrow>
             if rs_ID resp \<noteq> rq_ID req' then
               (Err (New ''agent: response id %s != request id %s'' [rs_ID resp, rq_ID req']), seq', g')
             else if rs_Err resp \<noteq> [] then (Err (New (rs_Err resp) []), seq', g')
             else (Ok resp, seq', g'))"

definition on_ok :: "('a \<Rightarrow> 'b) \<Rightarrow> 'a res \<times> 's \<Rightarrow> 'b res \<times> 's" where
  "on_ok f r = (case r of (Ok x, s) \<Rightarrow> (Ok (f x), s) | (Err e, s) \<Rightarrow> (Err e, s) | (Panic, s) \<Rightarrow> (Panic, s))"

definition agent_Ping :: "'g conn \<Rightarrow> 64 word \<Rightarrow> 'g \<Rightarrow> unit res \<times> 64 word \<times> 'g" where
  "agent_Ping conn seq g = on_ok (\<lambda>_. ()) (roundTrip conn (zero_Request OpPing) seq g)"

definition agent_Exec ::
  "'g conn \<Rightarrow> string list \<Rightarrow> string list \<Rightarrow> 64 word \<Rightarrow> 'g \<Rightarrow> (int \<times> string \<times> string) res \<times> 64 word \<times> 'g"
where
  "agent_Exec conn cmd env seq g =
     on_ok (\<lambda>resp. (rs_ExitCode resp, rs_Stdout resp, rs_Stderr resp))
       (roundTrip conn ((zero_Request OpExec)\<lparr>rq_Cmd := cmd, rq_Env := env\<rparr>) seq g)"

definition agent_WriteFile ::
  "'g conn \<Rightarrow> string \<Rightarrow> string \<Rightarrow> 32 word \<Rightarrow> 64 word \<Rightarrow> 'g \<Rightarrow> unit res \<times> 64 word \<times> 'g" where
  "agent_WriteFile conn path data mode seq g =
     on_ok (\<lambda>_. ()) (roundTrip conn
       ((zero_Request OpWriteFile)\<lparr>rq_Path := path, rq_Data := data, rq_Mode := mode\<rparr>) seq g)"

definition agent_ReadFile :: "'g conn \<Rightarrow> string \<Rightarrow> 64 word \<Rightarrow> 'g \<Rightarrow> string res \<times> 64 word \<times> 'g" where
  "agent_ReadFile conn path seq g =
     on_ok rs_Data (roundTrip conn ((zero_Request OpReadFile)\<lparr>rq_Path := path\<rparr>) seq g)"

definition agent_ConfigureNet ::
  "'g conn \<Rightarrow> NetConfig option \<Rightarrow> 64 word \<Rightarrow> 'g \<Rightarrow> unit res \<times> 64 word \<times> 'g" where
  "agent_ConfigureNet conn cfg seq g =
     on_ok (\<lambda>_. ()) (roundTrip conn ((zero_Request OpConfigureNet)\<lparr>rq_Net := cfg\<rparr>) seq g)"

lemmas agent_defs [model_defs] =
  agent_Ping_def agent_Exec_def agent_WriteFile_def agent_ReadFile_def agent_ConfigureNet_def
  on_ok_def

text \<open>The connection whose other end is the server, on a stream that neither loses nor alters frames.\<close>

definition served :: "'g guest_os \<Rightarrow> 'g conn" where
  "served os req g = (case handle os req g of (resp, g') \<Rightarrow> (Got resp, g'))"

section \<open>Properties\<close>

lemma handle_ID: "handle os req g = (resp, g') \<Longrightarrow> rs_ID resp = rq_ID req"
  by (auto simp: handle_def reply_to_def execCmd_def set_err_def Let_def
      split: if_splits prod.splits option.splits sum.splits run_result.splits)

lemma roundTrip_served:
  "roundTrip (served os) req seq g =
     (case handle os (req\<lparr>rq_ID := request_id (seq + 1)\<rparr>) g of (resp, g') \<Rightarrow>
        (if rs_Err resp \<noteq> [] then Err (New (rs_Err resp) []) else Ok resp, seq + 1, g'))"
  using handle_ID [of os "req\<lparr>rq_ID := request_id (seq + 1)\<rparr>" g]
  by (auto simp: roundTrip_def served_def Let_def split: prod.splits)

lemma request_id_inject: "request_id m = request_id n \<longleftrightarrow> m = n"
  by (auto simp: request_id_def intro: unsigned_word_eqI)

text \<open>
  A client on the server's connection sees exactly what the guest did: \<open>Exec\<close> returns the exit
  code (zero or not) and both outputs of the one run of the command in the guest's environment, an
  error only if the command could not be run or is empty; the guest state is that of the run.
\<close>

theorem client_exec:
  assumes "\<And>e. g_text os e \<noteq> []"
  shows "agent_Exec (served os) cmd env seq g =
     (if cmd = [] then (Err (New ''empty cmd'' []), seq + 1, g)
      else case g_Run os cmd (g_Environ os @ env) g of
             ((RunOk, out, errout), g') \<Rightarrow> (Ok (0, out, errout), seq + 1, g')
           | ((RunExit c, out, errout), g') \<Rightarrow> (Ok (c, out, errout), seq + 1, g')
           | ((RunError e, out, errout), g') \<Rightarrow> (Err (New (g_text os e) []), seq + 1, g'))"
  using assms
  by (auto simp: agent_Exec_def roundTrip_served handle_def execCmd_def reply_to_def zero_Request_def
      on_ok_def op_defs Let_def split: prod.splits run_result.splits)

text \<open>
  C33. A file that the client wrote reads back unchanged, provided the guest's file system keeps what
  is written; and two requests of one client never carry the same identifier before the 64-bit
  counter wraps, so an answer is never taken for another request's.
\<close>

theorem client_write_read:
  assumes "agent_WriteFile (served os) path data mode seq g = (Ok (), seq', g')"
    and "\<And>p d m h h'. g_WriteFile os p d m h = (None, h') \<Longrightarrow> g_ReadFile os p h' = Inr d"
    and "\<And>e. g_text os e \<noteq> []"
  shows "agent_ReadFile (served os) path seq' g' = (Ok data, seq + 2, g') \<and>
     (request_id m = request_id n \<longleftrightarrow> m = n)"
proof -
  obtain g1 mode' where "g_WriteFile os path data mode' g1 = (None, g')" "seq' = seq + 1"
    using assms(1,3)
    by (auto simp: agent_WriteFile_def roundTrip_served handle_def reply_to_def zero_Request_def
        on_ok_def op_defs set_err_def Let_def split: prod.splits option.splits if_splits)
  with assms(2) have "g_ReadFile os path g' = Inr data" "seq' = seq + 1" by blast+
  then show ?thesis
    by (simp add: agent_ReadFile_def roundTrip_served handle_def reply_to_def zero_Request_def
        on_ok_def op_defs request_id_inject Let_def)
qed

text \<open>
  The guest's network is configured by the plan in its order - address, link up, MTU if positive,
  default route if there is a gateway - and no command runs after the first that fails, whose error
  is reported; a plan without device or address runs nothing.
\<close>

theorem configureNet_prefix:
  assumes "configureNet (logged out) cfg [] = (r, log)"
  shows "(case netCommands cfg of
       Inl e \<Rightarrow> r = Some e \<and> log = []
     | Inr cmds \<Rightarrow>
         (r = None \<and> log = cmds) \<or>
         (\<exists>k < length cmds. \<exists>e. r = Some (Wrapf ''configure_net %v: %w'' (cmds ! k) e) \<and>
            log = take (Suc k) cmds \<and> out (take k cmds) (cmds ! k) = Some e)) \<and>
     (\<forall>c. cfg = Some c \<longrightarrow> r = None \<longrightarrow>
        length log = 2 + (if nc_MTU c > 0 then 1 else 0) + (if nc_Gateway c \<noteq> [] then 1 else 0) \<and>
        log ! 0 = [''ip'', ''addr'', ''add'', nc_IP c, ''dev'', nc_Device c] \<and>
        log ! 1 = [''ip'', ''link'', ''set'', nc_Device c, ''up''])"
proof (cases "netCommands cfg")
  case (Inl e)
  with assms show ?thesis by (auto simp: configureNet_def netCommands_def split: option.splits if_splits)
next
  case (Inr cmds)
  obtain q l where q: "run_until (logged out) cmds [] = (q, l)" by fastforce
  show ?thesis
  proof (cases q)
    case None
    then have "r = None" "log = cmds"
      using assms Inr q run_until_all [of out cmds "[]" l] by (auto simp: configureNet_def)
    then show ?thesis using Inr by (auto simp: netCommands_def split: option.splits if_splits)
  next
    case (Some x)
    obtain c e where x: "x = (c, e)" by fastforce
    from run_until_fail [of out cmds "[]" c e l] q Some x assms Inr show ?thesis
      by (fastforce simp: configureNet_def)
  qed
qed

text \<open>A guest whose file system is a map, and whose commands all succeed.\<close>

definition map_guest :: "(string \<rightharpoonup> string) guest_os" where
  "map_guest = \<lparr>g_MkdirAll = (\<lambda>d m. (None, m)), g_WriteFile = (\<lambda>p d md m. (None, m(p \<mapsto> d))),
     g_ReadFile = (\<lambda>p m. case m p of None \<Rightarrow> Inl (Ext ''not found'') | Some d \<Rightarrow> Inr d),
     g_Run = (\<lambda>c e m. ((RunExit 3, ''out'', []), m)), g_Output = (\<lambda>c m. (None, m)), g_Environ = [],
     g_text = (\<lambda>e. ''error'')\<rparr>"

theorem client_exec_witness:
  "agent_Exec (served map_guest) [''false''] [] 0 Map.empty = (Ok (3, ''out'', []), 1, Map.empty)"
  using client_exec [of map_guest "[''false'']" "[]" 0 Map.empty] by (simp add: map_guest_def)

theorem client_write_read_witness:
  "agent_ReadFile (served map_guest) ''/f'' 1 [''/f'' \<mapsto> ''data''] = (Ok ''data'', 2, [''/f'' \<mapsto> ''data''])"
  using client_write_read [of map_guest "''/f''" "''data''" 0 0 Map.empty 1 "[''/f'' \<mapsto> ''data'']" 0 0]
  by (simp add: map_guest_def agent_WriteFile_def roundTrip_served handle_def reply_to_def
      zero_Request_def on_ok_def op_defs set_err_def Let_def)

definition eth0_cfg :: NetConfig where
  "eth0_cfg = \<lparr>nc_Device = ''eth0'', nc_IP = ''10.0.0.2/16'', nc_Gateway = [], nc_MTU = 0\<rparr>"

theorem configureNet_prefix_witness:
  "length (snd (configureNet (logged (\<lambda>_ _. None)) (Some eth0_cfg) [])) = 2"
  using configureNet_prefix [of "\<lambda>_ _. None" "Some eth0_cfg"]
  by (simp add: configureNet_def netCommands_def eth0_cfg_def logged_def)

end
