(* ===== verification/Vmnet.thy ===== *)
theory Vmnet
  imports Prelude
begin

text \<open>
  The bridge between a pod's network namespace and a microVM, \<open>pkg/vmnet\<close>: \<open>iproute2\<close> commands run in
  the namespace (\<open>vmnet.go\<close>), and the TAP file descriptor that is opened inside it
  (\<open>tapfd_linux.go\<close>). What a command, a system call or a JSON decoder answers is a parameter.
\<close>

section \<open>Commands in a namespace\<close>

record VmnetConfig =
  net_IP :: string
  net_Gateway :: string
  net_MAC :: string
  net_MTU :: int

record NS =
  ns_Prefix :: "string list"

definition EnterNS :: "string \<Rightarrow> NS" where
  "EnterNS netnsPath = \<lparr>ns_Prefix = [''nsenter'', ''--net='' @ netnsPath]\<rparr>"

text \<open>\<open>exec\<close> runs a full command line: its error, or its output.\<close>

type_synonym 'g runner = "string list \<Rightarrow> 'g \<Rightarrow> (err + string) \<times> 'g"

definition ns_run :: "'g runner \<Rightarrow> NS \<Rightarrow> string list \<Rightarrow> 'g \<Rightarrow> (err + string) \<times> 'g" where
  "ns_run exec ns args g =
     (case exec (ns_Prefix ns @ args) g of
        (Inl e, g') \<Rightarrow> (Inl (Wrapf ''%v: %w'' args e), g')
      | (Inr out, g') \<Rightarrow> (Inr out, g'))"

text \<open>
  The decoders of the three outputs (\<open>None\<close>: \<open>Unmarshal\<close> failed): the links with address and MTU, the
  addresses of each interface with their prefix lengths, and the gateways of the routes.
\<close>

record net_json =
  nj_links :: "string \<Rightarrow> (string \<times> int) list option"
  nj_addrs :: "string \<Rightarrow> (string \<times> int) list list option"
  nj_routes :: "string \<Rightarrow> string list option"

definition first_addr :: "(string \<times> int) list list \<Rightarrow> string" where
  "first_addr addrs =
     (case addrs of
        [] \<Rightarrow> []
      | info # _ \<Rightarrow> (case info of [] \<Rightarrow> [] | (ip, len) # _ \<Rightarrow> ip @ ''/'' @ Itoa len))"

definition ReadConfig :: "'g runner \<Rightarrow> net_json \<Rightarrow> NS \<Rightarrow> string \<Rightarrow> 'g \<Rightarrow> VmnetConfig res \<times> 'g" where
  "ReadConfig exec js ns dev g =
     (case ns_run exec ns [''ip'', ''-j'', ''link'', ''show'', dev] g of
        (Inl e, g1) \<Rightarrow> (Err e, g1)
      | (Inr linkJSON, g1) \<Rightarrow>
          (case nj_links js linkJSON of
             None \<Rightarrow> (Err (New ''parse link %s: %v'' [dev]), g1)
           | Some [] \<Rightarrow> (Err (New ''parse link %s: %v'' [dev]), g1)
           | Some ((mac, mtu) # _) \<Rightarrow>
               (case ns_run exec ns [''ip'', ''-j'', ''-4'', ''addr'', ''show'', dev] g1 of
                  (Inl e, g2) \<Rightarrow> (Err e, g2)
                | (Inr addrJSON, g2) \<Rightarrow>
                    (case nj_addrs js addrJSON of
                       None \<Rightarrow> (Err (New ''parse addr %s: %v'' [dev]), g2)
                     | Some addrs \<Rightarrow>
                         (case ns_run exec ns [''ip'', ''-j'', ''route'', ''show'', ''default''] g2 of
                            (rt, g3) \<Rightarrow>
                              (Ok \<lparr>net_IP = first_addr addrs,
                                   net_Gateway =
                                     (case rt of
                                        Inl _ \<Rightarrow> []
                                      | Inr routeJSON \<Rightarrow>
                                          (case nj_routes js routeJSON of Some (gw # _) \<Rightarrow> gw | _ \<Rightarrow> [])),
                                   net_MAC = mac, net_MTU = mtu\<rparr>, g3))))))"

section \<open>The TAP and its mirror\<close>

definition tap_steps :: "string \<Rightarrow> string \<Rightarrow> string list list" where
  "tap_steps src tap =
     [[''ip'', ''tuntap'', ''add'', tap, ''mode'', ''tap''],
      [''ip'', ''link'', ''set'', tap, ''up''],
      [''tc'', ''qdisc'', ''add'', ''dev'', src, ''ingress''],
      [''tc'', ''filter'', ''add'', ''dev'', src, ''ingress'', ''protocol'', ''all'',
       ''u32'', ''match'', ''u8'', ''0'', ''0'', ''action'', ''mirred'', ''egress'', ''redirect'', ''dev'', tap],
      [''tc'', ''qdisc'', ''add'', ''dev'', tap, ''ingress''],
      [''tc'', ''filter'', ''add'', ''dev'', tap, ''ingress'', ''protocol'', ''all'',
       ''u32'', ''match'', ''u8'', ''0'', ''0'', ''action'', ''mirred'', ''egress'', ''redirect'', ''dev'', src]]"

definition ns_err :: "'g runner \<Rightarrow> NS \<Rightarrow> string list \<Rightarrow> 'g \<Rightarrow> err option \<times> 'g" where
  "ns_err exec ns args g =
     (case ns_run exec ns args g of (Inl e, g') \<Rightarrow> (Some e, g') | (Inr _, g') \<Rightarrow> (None, g'))"

definition TeardownTap :: "'g runner \<Rightarrow> NS \<Rightarrow> string \<Rightarrow> 'g \<Rightarrow> err option \<times> 'g" where
  "TeardownTap exec ns tap g = ns_err exec ns [''ip'', ''link'', ''del'', tap] g"

definition SetupTap :: "'g runner \<Rightarrow> NS \<Rightarrow> string \<Rightarrow> string \<Rightarrow> 'g \<Rightarrow> err option \<times> 'g" where
  "SetupTap exec ns src tap g =
     (case run_until (ns_err exec ns) (tap_steps src tap) g of
        (None, g') \<Rightarrow> (None, g')
      | (Some (s, e), g') \<Rightarrow> (case TeardownTap exec ns tap g' of (_, g'') \<Rightarrow> (Some e, g'')))"

text \<open>A machine that logs the full command lines; \<open>out\<close> gives the outcome of each.\<close>

definition log_exec :: "(string list list \<Rightarrow> string list \<Rightarrow> err option) \<Rightarrow> string list list runner" where
  "log_exec out args log = ((case out log args of Some e \<Rightarrow> Inl e | None \<Rightarrow> Inr []), log @ [args])"

lemma ns_err_log:
  "ns_err (log_exec out) ns args log =
     (map_option (Wrapf ''%v: %w'' args) (out log (ns_Prefix ns @ args)), log @ [ns_Prefix ns @ args])"
  by (simp add: ns_err_def ns_run_def log_exec_def split: option.split)

lemma ns_steps:
  "run_until (ns_err (log_exec out) ns) (c # cs) log =
     (case out log (ns_Prefix ns @ c) of
        None \<Rightarrow> run_until (ns_err (log_exec out) ns) cs (log @ [ns_Prefix ns @ c])
      | Some e \<Rightarrow> (Some (c, Wrapf ''%v: %w'' c e), log @ [ns_Prefix ns @ c]))"
  by (simp add: ns_err_log split: option.split)

text \<open>The loop over the commands, prefix included.\<close>

lemma run_steps_log:
  "run_until (ns_err (log_exec out) ns) cs log =
     (case run_until (logged out) (map ((@) (ns_Prefix ns)) cs) log of
        (None, log') \<Rightarrow> (None, log')
      | (Some (c, e), log') \<Rightarrow>
          (Some (drop (length (ns_Prefix ns)) c, Wrapf ''%v: %w'' (drop (length (ns_Prefix ns)) c) e), log'))"
proof (induction cs arbitrary: log)
  case (Cons c cs)
  show ?case
    by (cases "out log (ns_Prefix ns @ c)")
      (simp_all add: ns_steps logged_simps Cons.IH del: run_until.simps)
qed simp

text \<open>
  C34. Setting up the mirror runs its six commands in order, each inside the namespace, and succeeds
  only if all of them do. When one fails the later ones are not run; the TAP is deleted instead, and
  the error of the failing command, not of the rollback, is returned.
\<close>

theorem SetupTap_rollback:
  assumes "SetupTap (log_exec out) ns src tap [] = (r, log)"
  shows "(r = None \<and> log = map ((@) (ns_Prefix ns)) (tap_steps src tap)) \<or>
     (\<exists>k < 6. \<exists>e. r = Some (Wrapf ''%v: %w'' (tap_steps src tap ! k) e) \<and>
        log = map ((@) (ns_Prefix ns)) (take (Suc k) (tap_steps src tap) @ [[''ip'', ''link'', ''del'', tap]]) \<and>
        out (take k log) (log ! k) = Some e \<and> (\<forall>j < k. out (take j log) (log ! j) = None))"
proof -
  let ?p = "(@) (ns_Prefix ns)" and ?st = "tap_steps src tap"
  have len: "length ?st = 6" by (simp add: tap_steps_def)
  obtain q l where q: "run_until (logged out) (map ?p ?st) [] = (q, l)" by fastforce
  show ?thesis
  proof (cases q)
    case None
    with q assms run_until_all [of out "map ?p ?st" "[]" l] show ?thesis
      by (auto simp: SetupTap_def run_steps_log)
  next
    case (Some x)
    obtain c e where x: "x = (c, e)" by fastforce
    from run_until_fail [of out "map ?p ?st" "[]" c e l] q Some x obtain k where
      k: "k < 6" "c = map ?p ?st ! k" "l = take (Suc k) (map ?p ?st)" "out (take k (map ?p ?st)) c = Some e"
      "\<forall>j < k. out (take j (map ?p ?st)) (map ?p ?st ! j) = None"
      using len by auto
    let ?log = "map ?p (take (Suc k) ?st @ [[''ip'', ''link'', ''del'', tap]])"
    have log: "r = Some (Wrapf ''%v: %w'' (?st ! k) e)" "log = ?log"
      using assms q Some x k(1-3) len
      by (auto simp: SetupTap_def run_steps_log TeardownTap_def ns_err_log take_map split: option.splits)
    have pre: "take j ?log = take j (map ?p ?st)" "?log ! j = map ?p ?st ! j" if "j \<le> k" for j
      using that k(1) len by (simp_all add: take_map nth_append)
    show ?thesis
    proof (rule disjI2, intro exI conjI)
      show "out (take k log) (log ! k) = Some e" using log(2) pre [of k] k(2,4) by simp
      show "\<forall>j < k. out (take j log) (log ! j) = None" using log(2) pre k(5) by simp
    qed (use k(1) log in auto)
  qed
qed

theorem SetupTap_rollback_witness:
  "snd (SetupTap (log_exec (\<lambda>l c. if length l = 0 then Some (Ext ''busy'') else None)) (EnterNS ''/ns'') ''eth0'' ''vtap0'' []) =
     [[''nsenter'', ''--net=/ns'', ''ip'', ''tuntap'', ''add'', ''vtap0'', ''mode'', ''tap''],
      [''nsenter'', ''--net=/ns'', ''ip'', ''link'', ''del'', ''vtap0'']]"
proof -
  let ?out = "\<lambda>l c. if length l = 0 then Some (Ext ''busy'') else (None :: err option)"
  obtain r log where s: "SetupTap (log_exec ?out) (EnterNS ''/ns'') ''eth0'' ''vtap0'' [] = (r, log)"
    by fastforce
  then have "r \<noteq> None"
    by (auto simp: SetupTap_def tap_steps_def ns_err_log split: prod.splits)
  with SetupTap_rollback [OF s] obtain k e where "k < 6" "?out (take k log) (log ! k) = Some e"
    and log: "log = map ((@) (ns_Prefix (EnterNS ''/ns'')))
      (take (Suc k) (tap_steps ''eth0'' ''vtap0'') @ [[''ip'', ''link'', ''del'', ''vtap0'']])"
    by blast
  moreover have "length (tap_steps ''eth0'' ''vtap0'') = 6" by (simp add: tap_steps_def)
  then have "length log = Suc (Suc k)" using log \<open>k < 6\<close> by simp
  ultimately have "k = 0" by (simp split: if_splits)
  with s log show ?thesis by (simp add: EnterNS_def tap_steps_def)
qed

section \<open>The TAP file descriptor\<close>

text \<open>
  The system calls on the locked thread: opening a path read-only, \<open>setns\<close>, opening \<open>/dev/net/tun\<close>,
  building the interface request and \<open>TUNSETIFF\<close>. Opens answer an error or a new descriptor.
\<close>

record tap_sys =
  ts_gettid :: int
  ts_open :: "string \<Rightarrow> err + nat"
  ts_setns :: "nat \<Rightarrow> err option"
  ts_tun :: "err + nat"
  ts_ifreq :: "string \<Rightarrow> err option"
  ts_tunsetiff :: "nat \<Rightarrow> string \<Rightarrow> err option"

datatype fd_act = FdOpen nat | FdClose nat | FdShutdown nat

definition currentNetnsFD :: "tap_sys \<Rightarrow> err + nat" where
  "currentNetnsFD sys =
     (case ts_open sys ''/proc/thread-self/ns/net'' of
        Inr f \<Rightarrow> Inr f
      | Inl _ \<Rightarrow>
          (case ts_open sys (''/proc/self/task/'' @ Itoa (ts_gettid sys) @ ''/ns/net'') of
             Inl e \<Rightarrow> Inl (Wrapf ''open current netns: %w'' [] e)
           | Inr f \<Rightarrow> Inr f))"

definition openTapInCurrentNS :: "tap_sys \<Rightarrow> string \<Rightarrow> (err + nat) \<times> fd_act list" where
  "openTapInCurrentNS sys tap =
     (case ts_tun sys of
        Inl e \<Rightarrow> (Inl (Wrapf ''open /dev/net/tun: %w'' [] e), [])
      | Inr fd \<Rightarrow>
          (case ts_ifreq sys tap of
             Some e \<Rightarrow> (Inl e, [FdOpen fd, FdClose fd])
           | None \<Rightarrow>
               (case ts_tunsetiff sys fd tap of
                  Some e \<Rightarrow> (Inl (Wrapf ''TUNSETIFF %s: %w'' [tap] e), [FdOpen fd, FdClose fd])
                | None \<Rightarrow> (Inr fd, [FdOpen fd]))))"

text \<open>The goroutine sends its result and then runs its deferred closes.\<close>

definition OpenTapFD :: "tap_sys \<Rightarrow> string \<Rightarrow> string \<Rightarrow> (err + nat) \<times> fd_act list" where
  "OpenTapFD sys netnsPath tap =
     (case currentNetnsFD sys of
        Inl e \<Rightarrow> (Inl e, [])
      | Inr host \<Rightarrow>
          (case ts_open sys netnsPath of
             Inl e \<Rightarrow> (Inl (Wrapf ''open netns %s: %w'' [netnsPath] e), [FdOpen host, FdClose host])
           | Inr target_fd \<Rightarrow>
               (case ts_setns sys target_fd of
                  Some e \<Rightarrow> (Inl (Wrapf ''setns %s: %w'' [netnsPath] e),
                             [FdOpen host, FdOpen target_fd, FdClose target_fd, FdClose host])
                | None \<Rightarrow>
                    (case openTapInCurrentNS sys tap of
                       (r, acts) \<Rightarrow>
                         (r, [FdOpen host, FdOpen target_fd] @ acts @ [FdClose target_fd, FdClose host])))))"

fun open_fds :: "nat set \<Rightarrow> fd_act list \<Rightarrow> nat set" where
  "open_fds fs [] = fs"
| "open_fds fs (FdOpen f # as) = open_fds (insert f fs) as"
| "open_fds fs (FdClose f # as) = open_fds (fs - {f}) as"
| "open_fds fs (FdShutdown f # as) = open_fds fs as"

text \<open>
  Opening the TAP leaks no descriptor: on every path the two namespace descriptors are closed, on
  an error nothing stays open, and on success exactly the returned descriptor does.
\<close>

theorem OpenTapFD_no_leak:
  assumes "\<And>p f. ts_open sys p = Inr f \<Longrightarrow> f \<notin> fs \<and> ts_tun sys \<noteq> Inr f"
    and "\<And>f. ts_tun sys = Inr f \<Longrightarrow> f \<notin> fs"
    and "OpenTapFD sys netnsPath tap = (r, acts)"
  shows "open_fds fs acts = (case r of Inl e \<Rightarrow> fs | Inr f \<Rightarrow> insert f fs)"
proof -
  note fresh = assms(1) assms(2)
  show ?thesis
  proof (cases "currentNetnsFD sys")
    case (Inr host)
    then have host: "host \<notin> fs" "ts_tun sys \<noteq> Inr host"
      using fresh(1) by (auto simp: currentNetnsFD_def split: sum.splits)
    show ?thesis
    proof (cases "ts_open sys netnsPath")
      case (Inr t)
      then have "t \<notin> fs" "ts_tun sys \<noteq> Inr t" using fresh(1) by blast+
      then show ?thesis
        using assms(3) \<open>currentNetnsFD sys = Inr host\<close> Inr host fresh(2)
        by (auto simp: OpenTapFD_def openTapInCurrentNS_def split: option.splits sum.splits)
    qed (use assms(3) Inr host in \<open>auto simp: OpenTapFD_def\<close>)
  next
    case (Inl e)
    then have "r = Inl e \<and> acts = []" using assms(3) by (simp add: OpenTapFD_def)
    then show ?thesis by simp
  qed
qed

theorem OpenTapFD_no_leak_witness:
  "open_fds {0, 1, 2} (snd (OpenTapFD \<lparr>ts_gettid = 9, ts_open = (\<lambda>p. Inr (if p = ''/ns'' then 4 else 3)),
     ts_setns = (\<lambda>_. None), ts_tun = Inr 5, ts_ifreq = (\<lambda>_. None), ts_tunsetiff = (\<lambda>_ _. None)\<rparr>
     ''/ns'' ''vtap0'')) = {0, 1, 2, 5}"
  using OpenTapFD_no_leak [of "\<lparr>ts_gettid = 9, ts_open = (\<lambda>p. Inr (if p = ''/ns'' then 4 else 3)),
     ts_setns = (\<lambda>_. None), ts_tun = Inr 5, ts_ifreq = (\<lambda>_. None), ts_tunsetiff = (\<lambda>_ _. None)\<rparr>"
     "{0, 1, 2}" "''/ns''" "''vtap0''"]
  by (auto simp: OpenTapFD_def currentNetnsFD_def openTapInCurrentNS_def)

end
