(* ===== verification/Vsock.thy ===== *)
theory Vsock
  imports Agent Vmnet
begin

text \<open>
  The AF_VSOCK transport of the guest agent, \<open>pkg/vsock/vsock_linux.go\<close>, and the accept loop that the
  agent runs on it (\<open>Serve\<close> of \<open>pkg/agent/server.go\<close>). The system calls are parameters; what opens and
  closes descriptors is recorded as in \<open>Vmnet\<close>.
\<close>

section \<open>Addresses and system calls\<close>

record vsock_Addr =
  va_CID :: "32 word"
  va_Port :: "32 word"

definition zero_Addr :: vsock_Addr where
  "zero_Addr = \<lparr>va_CID = 0, va_Port = 0\<rparr>"

text \<open>\<open>VMADDR_CID_ANY\<close> is the largest CID. An address that is not a vsock one is \<open>Inr None\<close>.\<close>

definition CID_ANY :: "32 word" where
  "CID_ANY = - 1"

definition CIDHypervisor :: "32 word" where "CIDHypervisor = 0"
definition CIDLocal :: "32 word" where "CIDLocal = 1"
definition CIDHost :: "32 word" where "CIDHost = 2"

definition Addr_String :: "vsock_Addr \<Rightarrow> string" where
  "Addr_String a = ''vsock('' @ utoa (unat (va_CID a)) @ '':'' @ utoa (unat (va_Port a)) @ '')''"

record vsock_sys =
  vs_socket :: "err + nat"
  vs_connect :: "nat \<Rightarrow> vsock_Addr \<Rightarrow> err option"
  vs_bind :: "nat \<Rightarrow> vsock_Addr \<Rightarrow> err option"
  vs_listen :: "nat \<Rightarrow> nat \<Rightarrow> err option"
  vs_getsockname :: "nat \<Rightarrow> err + vsock_Addr option"
  vs_setnonblock :: "nat \<Rightarrow> err option"
  vs_close :: "nat \<Rightarrow> err option"

record vsock_Conn =
  vc_fd :: nat
  vc_local :: vsock_Addr
  vc_remote :: vsock_Addr

record vsock_Listener =
  vl_fd :: nat
  vl_addr :: vsock_Addr

section \<open>Dial and Listen\<close>

definition localAddr :: "vsock_sys \<Rightarrow> nat \<Rightarrow> vsock_Addr" where
  "localAddr sys fd =
     (case vs_getsockname sys fd of
        Inl e \<Rightarrow> zero_Addr
      | Inr None \<Rightarrow> zero_Addr
      | Inr (Some a) \<Rightarrow> a)"

definition newConn :: "vsock_sys \<Rightarrow> nat \<Rightarrow> vsock_Addr \<Rightarrow> vsock_Addr \<Rightarrow> (err + vsock_Conn) \<times> fd_act list" where
  "newConn sys fd loc remote =
     (case vs_setnonblock sys fd of
        Some e \<Rightarrow> (Inl e, [FdClose fd])
      | None \<Rightarrow> (Inr \<lparr>vc_fd = fd, vc_local = loc, vc_remote = remote\<rparr>, []))"

definition vsock_Dial :: "vsock_sys \<Rightarrow> 32 word \<Rightarrow> 32 word \<Rightarrow> (err + vsock_Conn) \<times> fd_act list" where
  "vsock_Dial sys cid port =
     (case vs_socket sys of
        Inl e \<Rightarrow> (Inl (Wrapf ''vsock socket: %w'' [] e), [])
      | Inr fd \<Rightarrow>
          (case vs_connect sys fd \<lparr>va_CID = cid, va_Port = port\<rparr> of
             Some e \<Rightarrow> (Inl (Wrapf ''vsock connect cid=%d port=%d: %w'' [utoa (unat cid), utoa (unat port)] e),
                        [FdOpen fd, FdClose fd])
           | None \<Rightarrow>
               (case newConn sys fd (localAddr sys fd) \<lparr>va_CID = cid, va_Port = port\<rparr> of
                  (r, acts) \<Rightarrow> (r, FdOpen fd # acts))))"

definition vsock_Listen :: "vsock_sys \<Rightarrow> 32 word \<Rightarrow> (err + vsock_Listener) \<times> fd_act list" where
  "vsock_Listen sys port =
     (case vs_socket sys of
        Inl e \<Rightarrow> (Inl (Wrapf ''vsock socket: %w'' [] e), [])
      | Inr fd \<Rightarrow>
          (case vs_bind sys fd \<lparr>va_CID = CID_ANY, va_Port = port\<rparr> of
             Some e \<Rightarrow> (Inl (Wrapf ''vsock bind port=%d: %w'' [utoa (unat port)] e), [FdOpen fd, FdClose fd])
           | None \<Rightarrow>
               (case vs_listen sys fd 16 of
                  Some e \<Rightarrow> (Inl (Wrapf ''vsock listen: %w'' [] e), [FdOpen fd, FdClose fd])
                | None \<Rightarrow> (Inr \<lparr>vl_fd = fd, vl_addr = localAddr sys fd\<rparr>, [FdOpen fd]))))"

text \<open>The stubs for other systems (\<open>vsock_other.go\<close>).\<close>

definition errUnsupported :: err where
  "errUnsupported = New ''vsock requires Linux'' []"

definition other_Dial :: "32 word \<Rightarrow> 32 word \<Rightarrow> err + vsock_Conn" where
  "other_Dial cid port = Inl errUnsupported"

definition other_Listen :: "32 word \<Rightarrow> err + vsock_Listener" where
  "other_Listen port = Inl errUnsupported"

section \<open>Accept\<close>

text \<open>
  What \<open>accept4\<close> answers, call by call. \<open>Accept\<close> takes answers until one is not \<open>EINTR\<close>; when the
  answers given run out it is still waiting (\<open>None\<close>). \<open>net.OpError\<close> wraps its error.
\<close>

datatype accepted = AcceptIntr | AcceptErr err | AcceptConn nat "vsock_Addr option"

definition OpError_accept :: "err \<Rightarrow> err" where
  "OpError_accept e = Wrapf ''accept vsock: %w'' [] e"

fun vsock_Accept ::
  "vsock_sys \<Rightarrow> vsock_Listener \<Rightarrow> accepted list \<Rightarrow> ((err + vsock_Conn) \<times> fd_act list \<times> accepted list) option" where
  "vsock_Accept sys l [] = None"
| "vsock_Accept sys l (AcceptIntr # as) = vsock_Accept sys l as"
| "vsock_Accept sys l (AcceptErr e # as) = Some (Inl (OpError_accept e), [], as)"
| "vsock_Accept sys l (AcceptConn fd sa # as) =
     (case newConn sys fd (vl_addr l) (case sa of Some a \<Rightarrow> a | None \<Rightarrow> zero_Addr) of
        (r, acts) \<Rightarrow> Some (r, FdOpen fd # acts, as))"

text \<open>
  \<open>Close\<close> shuts the socket down first, which unblocks a pending \<open>Accept\<close>, and answers the error of \<open>close\<close>;
  the descriptor is gone in any case.
\<close>

definition vsock_Close :: "vsock_sys \<Rightarrow> vsock_Listener \<Rightarrow> err option \<times> fd_act list" where
  "vsock_Close sys l = (vs_close sys (vl_fd l), [FdShutdown (vl_fd l), FdClose (vl_fd l)])"

section \<open>The accept loop of the agent\<close>

definition net_ErrClosed :: err where
  "net_ErrClosed = Ext ''use of closed network connection''"

text \<open>\<open>errors.Is\<close> for \<open>net.ErrClosed\<close>: it looks through wrapped errors.\<close>

fun is_closed :: "err \<Rightarrow> bool" where
  "is_closed (Wrapf f as e) = is_closed e"
| "is_closed (Ext m) = (Ext m = net_ErrClosed)"
| "is_closed (New f as) = False"
| "is_closed (StatusErr c f as) = False"
| "is_closed ErrNotSupported = False"

text \<open>
  \<open>Serve\<close> on a listener given by its \<open>Accept\<close>, for as many rounds as \<open>fuel\<close> says (a listener may give
  connections for ever): the connections handed to \<open>handleConn\<close>, what was done to descriptors, and what
  it returned, if it did.
\<close>

fun agent_Serve ::
  "('s \<Rightarrow> ((err + 'c) \<times> fd_act list \<times> 's) option) \<Rightarrow> nat \<Rightarrow> 's \<Rightarrow> 'c list \<times> fd_act list \<times> err option option" where
  "agent_Serve accept 0 s = ([], [], None)"
| "agent_Serve accept (Suc fuel) s =
     (case accept s of
        None \<Rightarrow> ([], [], None)
      | Some (Inl e, acts, s') \<Rightarrow> ([], acts, Some (if is_closed e then None else Some e))
      | Some (Inr c, acts, s') \<Rightarrow>
          (case agent_Serve accept fuel s' of (cs, acts', r) \<Rightarrow> (c # cs, acts @ acts', r)))"

text \<open>
  \<open>ServeConn\<close> handles one connection; when its context ends after \<open>k\<close> frames the connection is closed and
  no further frame is read.
\<close>

definition ServeConn ::
  "'g guest_os \<Rightarrow> Request option list \<Rightarrow> (Response \<Rightarrow> bool) \<Rightarrow> nat option \<Rightarrow> 'g \<Rightarrow> Response list \<times> 'g" where
  "ServeConn os frames sends cancel g =
     handleConn os (case cancel of None \<Rightarrow> frames | Some k \<Rightarrow> take k frames) sends g"

section \<open>Properties\<close>

lemma open_fds_append: "open_fds fs (as @ bs) = open_fds (open_fds fs as) bs"
  by (induction fs as rule: open_fds.induct) simp_all

lemma newConn_fds:
  "newConn sys fd l a = (r, acts) \<Longrightarrow>
   open_fds fs (FdOpen fd # acts) = (case r of Inl e \<Rightarrow> fs - {fd} | Inr c \<Rightarrow> insert (vc_fd c) fs) \<and>
   (\<forall>c. r = Inr c \<longrightarrow> vc_fd c = fd)"
  by (auto simp: newConn_def split: option.splits)

text \<open>
  C37. The vsock transport leaks no descriptor: whatever call fails, \<open>Dial\<close> and \<open>Listen\<close> have closed the
  socket when they return an error, and on success exactly the descriptor of the connection or
  listener stays open; likewise \<open>Accept\<close>, through any number of interrupted calls.
\<close>

theorem vsock_no_fd_leak:
  assumes "\<And>fd. vs_socket sys = Inr fd \<Longrightarrow> fd \<notin> fs" and "\<And>fd a. AcceptConn fd a \<in> set as \<Longrightarrow> fd \<notin> fs"
  shows "open_fds fs (snd (vsock_Dial sys cid port)) =
       (case fst (vsock_Dial sys cid port) of Inl e \<Rightarrow> fs | Inr c \<Rightarrow> insert (vc_fd c) fs) \<and>
     open_fds fs (snd (vsock_Listen sys port)) =
       (case fst (vsock_Listen sys port) of Inl e \<Rightarrow> fs | Inr l \<Rightarrow> insert (vl_fd l) fs) \<and>
     (\<forall>l r acts as'. vsock_Accept sys l as = Some (r, acts, as') \<longrightarrow>
       open_fds fs acts = (case r of Inl e \<Rightarrow> fs | Inr c \<Rightarrow> insert (vc_fd c) fs))"
proof (intro conjI allI impI)
  show "open_fds fs (snd (vsock_Dial sys cid port)) =
       (case fst (vsock_Dial sys cid port) of Inl e \<Rightarrow> fs | Inr c \<Rightarrow> insert (vc_fd c) fs)"
    using assms(1) by (auto simp: vsock_Dial_def newConn_def split: sum.splits option.splits)
  show "open_fds fs (snd (vsock_Listen sys port)) =
       (case fst (vsock_Listen sys port) of Inl e \<Rightarrow> fs | Inr l \<Rightarrow> insert (vl_fd l) fs)"
    using assms(1) by (auto simp: vsock_Listen_def split: sum.splits option.splits)
  show "open_fds fs acts = (case r of Inl e \<Rightarrow> fs | Inr c \<Rightarrow> insert (vc_fd c) fs)"
    if "vsock_Accept sys l as = Some (r, acts, as')" for l r acts as'
  proof -
    have "\<forall>fd a. AcceptConn fd a \<in> set as \<longrightarrow> fd \<notin> fs" using assms(2) by blast
    with that show ?thesis
      by (induction sys l as rule: vsock_Accept.induct) (auto simp: newConn_def split: option.splits)
  qed
qed

definition quiet_vsock :: vsock_sys where
  "quiet_vsock = \<lparr>vs_socket = Inr 3, vs_connect = (\<lambda>_ _. None), vs_bind = (\<lambda>_ _. None), vs_listen = (\<lambda>_ _. None),
     vs_getsockname = (\<lambda>_. Inr (Some \<lparr>va_CID = 3, va_Port = 5000\<rparr>)), vs_setnonblock = (\<lambda>_. None), vs_close = (\<lambda>_. None)\<rparr>"

theorem vsock_no_fd_leak_witness:
  "open_fds {0, 1, 2} (snd (vsock_Listen quiet_vsock 5000)) = {0, 1, 2, 3}"
  using vsock_no_fd_leak [of quiet_vsock "{0, 1, 2}" "[]" 2 5000]
  by (auto simp: quiet_vsock_def vsock_Listen_def)

lemma Accept_append_intr: "vsock_Accept sys l (replicate n AcceptIntr @ as) = vsock_Accept sys l as"
  by (induction n) simp_all

text \<open>
  C39. The agent serves every connection that the transport gives, in order and through interrupted calls,
  until the first other error. When the vsock listener is closed that error is what \<open>accept4\<close> says of the
  descriptor, which is not \<open>net.ErrClosed\<close>: \<open>Serve\<close> returns an error there, where it means to return nil.
\<close>

theorem agent_serves_until_error:
  assumes "\<forall>(n, f, sa) \<in> set cs. vs_setnonblock sys f = None" and "e \<noteq> net_ErrClosed" "e = Ext m"
  shows "agent_Serve (vsock_Accept sys l) (Suc (length cs))
       (concat (map (\<lambda>(n, f, sa). replicate n AcceptIntr @ [AcceptConn f sa]) cs) @ replicate k AcceptIntr @ AcceptErr e # as) =
     (map (\<lambda>(n, f, sa). \<lparr>vc_fd = f, vc_local = vl_addr l, vc_remote = (case sa of Some a \<Rightarrow> a | None \<Rightarrow> zero_Addr)\<rparr>) cs,
      map (\<lambda>(n, f, sa). FdOpen f) cs, Some (Some (OpError_accept e)))"
  using assms
proof (induction cs)
  case Nil
  then show ?case by (simp add: OpError_accept_def Accept_append_intr)
next
  case (Cons c cs)
  then show ?case by (cases c) (simp add: Accept_append_intr newConn_def)
qed

theorem agent_serves_until_error_witness:
  "agent_Serve (vsock_Accept quiet_vsock \<lparr>vl_fd = 3, vl_addr = zero_Addr\<rparr>) 3
     [AcceptIntr, AcceptConn 4 (Some zero_Addr), AcceptConn 5 None, AcceptErr (Ext ''EINVAL'')] =
   ([\<lparr>vc_fd = 4, vc_local = zero_Addr, vc_remote = zero_Addr\<rparr>, \<lparr>vc_fd = 5, vc_local = zero_Addr, vc_remote = zero_Addr\<rparr>],
    [FdOpen 4, FdOpen 5], Some (Some (OpError_accept (Ext ''EINVAL''))))"
  using agent_serves_until_error [of "[(1, 4, Some zero_Addr), (0, 5, None)]" quiet_vsock "Ext ''EINVAL''" "''EINVAL''"
      "\<lparr>vl_fd = 3, vl_addr = zero_Addr\<rparr>" 0 "[]"]
  by (simp add: quiet_vsock_def net_ErrClosed_def numeral_3_eq_3)

end
