(* ===== verification/Sandbox.thy ===== *)
theory Sandbox
  imports Prelude
begin

text \<open>
  The core domain, \<open>pkg/sandbox/sandbox.go\<close>: the lifecycle state, \<open>Spec\<close>, the \<open>Instance\<close>,
  \<open>Driver\<close> and \<open>Restorer\<close> interfaces, and the \<open>Manager\<close> that tracks live sandboxes across drivers.
  A Go interface value is a record of its methods; a method reads and writes the world \<open>'w\<close> that
  the driver lives in. The contract between the Manager and its drivers is the locale
  \<open>sandbox_drivers\<close>; the theories of the drivers interpret it.
\<close>

section \<open>Data\<close>

datatype State = StateCreated | StateRunning | StateStopped | StateSnapshot

record Spec =
  spec_Name :: string
  spec_Rootfs :: string
  spec_Cmd :: "string list"
  spec_Env :: "string \<rightharpoonup> string"
  spec_VCPUs :: int
  spec_MemMiB :: int
  spec_Timeout :: int
  spec_Netns :: string

definition zero_Spec :: Spec where
  "zero_Spec = \<lparr>spec_Name = [], spec_Rootfs = [], spec_Cmd = [], spec_Env = Map.empty,
     spec_VCPUs = 0, spec_MemMiB = 0, spec_Timeout = 0, spec_Netns = []\<rparr>"

record RestoreOpts =
  opts_Netns :: string

text \<open>
  The two interfaces. \<open>inst_Exec\<close> returns the exit code or error, what was written to the stdout and
  stderr writers (also when it fails), and the world. \<open>drv_Restore\<close> is \<open>None\<close> for a driver that
  does not implement \<open>Restorer\<close>, \<open>drv_Close\<close> is \<open>None\<close> for one without a \<open>Close\<close> method: the code
  asks for both with type assertions. A \<open>*Spec\<close> may be nil, hence \<open>Spec option\<close>. \<open>inst_ref\<close> is the
  pointer that the interface value holds: two values with the same pointer are the same sandbox,
  whatever their identifiers.
\<close>

record 'w Instance =
  inst_ref :: nat
  inst_ID :: string
  inst_State :: "'w \<Rightarrow> State"
  inst_Exec :: "string list \<Rightarrow> 'w \<Rightarrow> int res \<times> string \<times> string \<times> 'w"
  inst_Snapshot :: "string \<Rightarrow> 'w \<Rightarrow> unit res \<times> 'w"
  inst_Stop :: "'w \<Rightarrow> unit res \<times> 'w"

record 'w Driver =
  drv_Name :: string
  drv_Create :: "Spec option \<Rightarrow> 'w \<Rightarrow> 'w Instance res \<times> 'w"
  drv_Restore :: "(string \<Rightarrow> RestoreOpts \<Rightarrow> 'w \<Rightarrow> 'w Instance res \<times> 'w) option"
  drv_Close :: "('w \<Rightarrow> 'w) option"

record 'w entry =
  entry_inst :: "'w Instance"
  entry_driver :: "'w Driver"

record 'w Manager =
  drivers :: "string \<rightharpoonup> 'w Driver"
  instances :: "string \<rightharpoonup> 'w entry"

section \<open>The Manager\<close>

definition NewManager :: "'w Manager" where
  "NewManager = \<lparr>drivers = Map.empty, instances = Map.empty\<rparr>"

definition RegisterDriver :: "'w Manager \<Rightarrow> 'w Driver \<Rightarrow> 'w Manager" where
  "RegisterDriver m d = m\<lparr>drivers := (drivers m)(drv_Name d \<mapsto> d)\<rparr>"

text \<open>\<open>Drivers\<close> ranges over the map in the order \<open>ks\<close> and appends each key it finds.\<close>

fun append_keys :: "(string \<rightharpoonup> 'v) \<Rightarrow> string list \<Rightarrow> string list \<Rightarrow> string list" where
  "append_keys ds [] names = names"
| "append_keys ds (k # ks) names =
     (case ds k of None \<Rightarrow> append_keys ds ks names | Some _ \<Rightarrow> append_keys ds ks (names @ [k]))"

definition Drivers :: "'w Manager \<Rightarrow> string list \<Rightarrow> string list" where
  "Drivers m ks = append_keys (drivers m) ks []"

definition track :: "'w Manager \<Rightarrow> 'w Instance \<Rightarrow> 'w Driver \<Rightarrow> 'w Manager" where
  "track m inst d =
     m\<lparr>instances := (instances m)(inst_ID inst \<mapsto> \<lparr>entry_inst = inst, entry_driver = d\<rparr>)\<rparr>"

definition mgr_Create ::
  "'w Manager \<Rightarrow> string \<Rightarrow> Spec option \<Rightarrow> 'w \<Rightarrow> 'w Instance res \<times> 'w Manager \<times> 'w" where
  "mgr_Create m driver spec w =
     (case drivers m driver of
        None \<Rightarrow> (Err (New ''unknown driver: '' [driver]), m, w)
      | Some d \<Rightarrow>
          (case drv_Create d spec w of
             (Ok inst, w') \<Rightarrow> (Ok inst, track m inst d, w')
           | (Err e, w') \<Rightarrow> (Err e, m, w')
           | (Panic, w') \<Rightarrow> (Panic, m, w')))"

definition mgr_Get :: "'w Manager \<Rightarrow> string \<Rightarrow> 'w Instance option" where
  "mgr_Get m sid = map_option entry_inst (instances m sid)"

definition mgr_List :: "'w Manager \<Rightarrow> string list \<Rightarrow> 'w Instance list" where
  "mgr_List m ks = map entry_inst (range_vals (instances m) ks)"

definition mgr_Delete :: "'w Manager \<Rightarrow> string \<Rightarrow> 'w \<Rightarrow> unit res \<times> 'w Manager \<times> 'w" where
  "mgr_Delete m sid w =
     (case instances m sid of
        None \<Rightarrow> (Err (New ''unknown sandbox: '' [sid]), m, w)
      | Some e \<Rightarrow>
          (let m' = m\<lparr>instances := (instances m)(sid := None)\<rparr>;
               (r, w') = inst_Stop (entry_inst e) w
           in (r, m', w')))"

text \<open>
  \<open>Shutdown\<close>: take every tracked instance, empty the table, then stop the instances one by one,
  ignoring errors, and close the drivers that can be closed. \<open>iks\<close> and \<open>dks\<close> are the orders in which
  the two maps are ranged over. A panic of \<open>Stop\<close> would propagate.
\<close>

fun stop_all :: "'w Instance list \<Rightarrow> 'w \<Rightarrow> unit res \<times> 'w" where
  "stop_all [] w = (Ok (), w)"
| "stop_all (i # is) w =
     (case inst_Stop i w of
        (Panic, w') \<Rightarrow> (Panic, w')
      | (_, w') \<Rightarrow> stop_all is w')"

fun close_all :: "'w Driver list \<Rightarrow> 'w \<Rightarrow> 'w" where
  "close_all [] w = w"
| "close_all (d # ds) w =
     (case drv_Close d of None \<Rightarrow> close_all ds w | Some c \<Rightarrow> close_all ds (c w))"

definition mgr_Shutdown ::
  "'w Manager \<Rightarrow> string list \<Rightarrow> string list \<Rightarrow> 'w \<Rightarrow> unit res \<times> 'w Manager \<times> 'w" where
  "mgr_Shutdown m iks dks w =
     (let insts = map entry_inst (range_vals (instances m) iks);
          m' = m\<lparr>instances := Map.empty\<rparr>;
          ds = range_vals (drivers m) dks
      in case stop_all insts w of
           (Panic, w') \<Rightarrow> (Panic, m', w')
         | (_, w') \<Rightarrow> (Ok (), m', close_all ds w'))"

definition mgr_Snapshot :: "'w Manager \<Rightarrow> string \<Rightarrow> string \<Rightarrow> 'w \<Rightarrow> unit res \<times> 'w" where
  "mgr_Snapshot m sid path w =
     (case instances m sid of
        None \<Rightarrow> (Err (New ''unknown sandbox: '' [sid]), w)
      | Some e \<Rightarrow> inst_Snapshot (entry_inst e) path w)"

definition mgr_RestoreFrom ::
  "'w Manager \<Rightarrow> string \<Rightarrow> string \<Rightarrow> RestoreOpts \<Rightarrow> 'w \<Rightarrow> 'w Instance res \<times> 'w Manager \<times> 'w"
where
  "mgr_RestoreFrom m driver path opts w =
     (case drivers m driver of
        None \<Rightarrow> (Err (New ''unknown driver: '' [driver]), m, w)
      | Some d \<Rightarrow>
          (case drv_Restore d of
             None \<Rightarrow> (Err ErrNotSupported, m, w)
           | Some restore \<Rightarrow>
               (case restore path opts w of
                  (Ok inst, w') \<Rightarrow> (Ok inst, track m inst d, w')
                | (Err e, w') \<Rightarrow> (Err e, m, w')
                | (Panic, w') \<Rightarrow> (Panic, m, w'))))"

definition mgr_Fork ::
  "'w Manager \<Rightarrow> string \<Rightarrow> string \<Rightarrow> 'w \<Rightarrow> 'w Instance res \<times> 'w Manager \<times> 'w" where
  "mgr_Fork m sid dir w =
     (case instances m sid of
        None \<Rightarrow> (Err (New ''unknown sandbox: '' [sid]), m, w)
      | Some e \<Rightarrow>
          (case drv_Restore (entry_driver e) of
             None \<Rightarrow> (Err ErrNotSupported, m, w)
           | Some restore \<Rightarrow>
               (case inst_Snapshot (entry_inst e) dir w of
                  (Err err, w1) \<Rightarrow> (Err err, m, w1)
                | (Panic, w1) \<Rightarrow> (Panic, m, w1)
                | (Ok _, w1) \<Rightarrow>
                    (case restore dir \<lparr>opts_Netns = []\<rparr> w1 of
                       (Err err, w2) \<Rightarrow> (Err err, m, w2)
                     | (Panic, w2) \<Rightarrow> (Panic, m, w2)
                     | (Ok clone, w2) \<Rightarrow> (Ok clone, track m clone (entry_driver e), w2)))))"

lemmas mgr_defs [model_defs] =
  mgr_Create_def mgr_Get_def mgr_List_def mgr_Delete_def mgr_Shutdown_def mgr_Snapshot_def
  mgr_RestoreFrom_def mgr_Fork_def track_def

section \<open>Identifiers\<close>

text \<open>\<open>hex.EncodeToString\<close>, and \<open>NewID\<close> on the six bytes that \<open>rand.Read\<close> delivered.\<close>

definition hextable :: string where
  "hextable = ''0123456789abcdef''"

definition hexdigit :: "nat \<Rightarrow> char" where
  "hexdigit n = hextable ! n"

fun hexEncode :: "8 word list \<Rightarrow> string" where
  "hexEncode [] = []"
| "hexEncode (b # bs) = hexdigit (unat b div 16) # hexdigit (unat b mod 16) # hexEncode bs"

definition NewID :: "8 word list \<Rightarrow> string" where
  "NewID b = hexEncode (take 6 b)"

lemma hextable_facts: "distinct hextable" "length hextable = 16"
  by (simp_all add: hextable_def)

lemma hexdigit_inject: "m < 16 \<Longrightarrow> n < 16 \<Longrightarrow> hexdigit m = hexdigit n \<Longrightarrow> m = n"
  by (simp add: hexdigit_def nth_eq_iff_index_eq hextable_facts)

lemma hexdigit_in: "n < 16 \<Longrightarrow> hexdigit n \<in> set hextable"
  by (simp add: hexdigit_def hextable_facts)

lemma byte_nibbles: "unat (b :: 8 word) div 16 < 16" "unat (b :: 8 word) mod 16 < 16"
  using unsigned_less [of b, where 'a = nat] by auto

lemma hexEncode_length [simp]: "length (hexEncode bs) = 2 * length bs"
  by (induction bs) auto

lemma hexEncode_set: "set (hexEncode bs) \<subseteq> set hextable"
  by (induction bs) (auto intro: hexdigit_in byte_nibbles)

lemma hexEncode_inject: "hexEncode as = hexEncode bs \<longleftrightarrow> as = bs"
proof (induction as arbitrary: bs)
  case Nil
  then show ?case by (cases bs) auto
next
  case (Cons a as)
  show ?case
  proof (cases bs)
    case (Cons b bs')
    have "hexdigit (unat a div 16) = hexdigit (unat b div 16) \<Longrightarrow>
          hexdigit (unat a mod 16) = hexdigit (unat b mod 16) \<Longrightarrow> a = b"
      using hexdigit_inject [OF byte_nibbles(1) byte_nibbles(1), of a b]
        hexdigit_inject [OF byte_nibbles(2) byte_nibbles(2), of a b]
      by (metis div_mult_mod_eq unsigned_word_eqI)
    with Cons Cons.IH [of bs'] show ?thesis by auto
  qed simp
qed

lemma NewID_length: "length b = 6 \<Longrightarrow> length (NewID b) = 12"
  by (simp add: NewID_def)

lemma NewID_inject: "length a = 6 \<Longrightarrow> length b = 6 \<Longrightarrow> NewID a = NewID b \<longleftrightarrow> a = b"
  by (simp add: NewID_def hexEncode_inject)

section \<open>The contract between the Manager and its drivers\<close>

text \<open>
  \<open>live w\<close> is the set of sandboxes (by pointer) that hold resources in the world \<open>w\<close>, \<open>handle w i\<close>
  says that \<open>i\<close> was handed out by a driver of \<open>D\<close>. A successful \<open>Create\<close> or \<open>Restore\<close> adds one live,
  running sandbox; a failing one leaves nothing behind; \<open>Stop\<close> frees exactly its own sandbox and
  never panics; \<open>Snapshot\<close> affects at most its own sandbox, \<open>Exec\<close> and \<open>Close\<close> none.
\<close>

locale sandbox_drivers =
  fixes D :: "'w Driver \<Rightarrow> bool"
    and wfw :: "'w \<Rightarrow> bool"
    and live :: "'w \<Rightarrow> nat set"
    and handle :: "'w \<Rightarrow> 'w Instance \<Rightarrow> bool"
  assumes create_ok: "D d \<Longrightarrow> wfw w \<Longrightarrow> drv_Create d spec w = (Ok i, w') \<Longrightarrow>
      wfw w' \<and> handle w' i \<and> handle w \<le> handle w' \<and> inst_ref i \<notin> live w \<and>
      live w' = insert (inst_ref i) (live w) \<and> inst_State i w' = StateRunning"
    and create_fail: "D d \<Longrightarrow> wfw w \<Longrightarrow> drv_Create d spec w = (q, w') \<Longrightarrow> \<not> is_ok q \<Longrightarrow>
      wfw w' \<and> handle w \<le> handle w' \<and> live w' = live w"
    and restore_ok: "D d \<Longrightarrow> wfw w \<Longrightarrow> drv_Restore d = Some f \<Longrightarrow> f path opts w = (Ok i, w') \<Longrightarrow>
      wfw w' \<and> handle w' i \<and> handle w \<le> handle w' \<and> inst_ref i \<notin> live w \<and>
      live w' = insert (inst_ref i) (live w) \<and> inst_State i w' = StateRunning"
    and restore_fail: "D d \<Longrightarrow> wfw w \<Longrightarrow> drv_Restore d = Some f \<Longrightarrow> f path opts w = (q, w') \<Longrightarrow>
      \<not> is_ok q \<Longrightarrow> wfw w' \<and> handle w \<le> handle w' \<and> live w' = live w"
    and stop: "handle w i \<Longrightarrow> wfw w \<Longrightarrow> inst_Stop i w = (r, w') \<Longrightarrow>
      wfw w' \<and> handle w \<le> handle w' \<and> live w' = live w - {inst_ref i} \<and> r \<noteq> Panic \<and>
      inst_State i w' = StateStopped"
    and snapshot: "handle w i \<Longrightarrow> wfw w \<Longrightarrow> inst_Snapshot i path w = (r, w') \<Longrightarrow>
      wfw w' \<and> handle w \<le> handle w' \<and> live w' \<subseteq> insert (inst_ref i) (live w)"
    and exec: "handle w i \<Longrightarrow> wfw w \<Longrightarrow> inst_Exec i cmd w = (code, out, errout, w') \<Longrightarrow>
      wfw w' \<and> handle w \<le> handle w' \<and> live w' \<subseteq> live w"
    and close: "D d \<Longrightarrow> wfw w \<Longrightarrow> drv_Close d = Some c \<Longrightarrow>
      wfw (c w) \<and> handle w \<le> handle (c w) \<and> live (c w) = live w"

text \<open>
  The Manager's invariant: every registered driver is one of \<open>D\<close>; every entry is a handle stored
  under its own identifier; and every live sandbox is tracked, so that \<open>Shutdown\<close> can find it.
\<close>

definition mgr_ok ::
  "('w Driver \<Rightarrow> bool) \<Rightarrow> ('w \<Rightarrow> bool) \<Rightarrow> ('w \<Rightarrow> nat set) \<Rightarrow> ('w \<Rightarrow> 'w Instance \<Rightarrow> bool) \<Rightarrow>
   'w Manager \<Rightarrow> 'w \<Rightarrow> bool" where
  "mgr_ok D wfw live handle m w \<longleftrightarrow>
     wfw w \<and> (\<forall>n d. drivers m n = Some d \<longrightarrow> D d) \<and>
     (\<forall>sid e. instances m sid = Some e \<longrightarrow>
        handle w (entry_inst e) \<and> inst_ID (entry_inst e) = sid \<and> D (entry_driver e)) \<and>
     live w \<subseteq> (\<lambda>e. inst_ref (entry_inst e)) ` ran (instances m)"

text \<open>One operation on the Manager, as a client issues it.\<close>

datatype mgr_op =
    OpCreate string "Spec option"
  | OpRestore string string RestoreOpts
  | OpFork string string
  | OpSnapshot string string
  | OpDelete string

text \<open>The new instance that an operation tracks (if any), and the state after it.\<close>

fun mgr_apply ::
  "mgr_op \<Rightarrow> 'w Manager \<Rightarrow> 'w \<Rightarrow> 'w Instance option \<times> 'w Manager \<times> 'w" where
  "mgr_apply (OpCreate d spec) m w =
     (case mgr_Create m d spec w of (r, m', w') \<Rightarrow>
        ((case r of Ok i \<Rightarrow> Some i | _ \<Rightarrow> None), m', w'))"
| "mgr_apply (OpRestore d p opts) m w =
     (case mgr_RestoreFrom m d p opts w of (r, m', w') \<Rightarrow>
        ((case r of Ok i \<Rightarrow> Some i | _ \<Rightarrow> None), m', w'))"
| "mgr_apply (OpFork sid dir) m w =
     (case mgr_Fork m sid dir w of (r, m', w') \<Rightarrow>
        ((case r of Ok i \<Rightarrow> Some i | _ \<Rightarrow> None), m', w'))"
| "mgr_apply (OpSnapshot sid p) m w = (case mgr_Snapshot m sid p w of (r, w') \<Rightarrow> (None, m, w'))"
| "mgr_apply (OpDelete sid) m w = (case mgr_Delete m sid w of (r, m', w') \<Rightarrow> (None, m', w'))"

text \<open>
  A run of operations, and the condition that no tracked identifier collides: \<open>NewID\<close> draws 48
  random bits, and the Manager overwrites an entry whose identifier is drawn again.
\<close>

fun mgr_run :: "mgr_op list \<Rightarrow> 'w Manager \<Rightarrow> 'w \<Rightarrow> 'w Manager \<times> 'w" where
  "mgr_run [] m w = (m, w)"
| "mgr_run (x # xs) m w = (case mgr_apply x m w of (_, m', w') \<Rightarrow> mgr_run xs m' w')"

fun ids_fresh :: "mgr_op list \<Rightarrow> 'w Manager \<Rightarrow> 'w \<Rightarrow> bool" where
  "ids_fresh [] m w = True"
| "ids_fresh (x # xs) m w =
     (case mgr_apply x m w of (new, m', w') \<Rightarrow>
        (case new of None \<Rightarrow> True | Some i \<Rightarrow> instances m (inst_ID i) = None) \<and> ids_fresh xs m' w')"

text \<open>No operation registers a driver.\<close>

lemma mgr_run_drivers: "mgr_run xs m w = (m', w') \<Longrightarrow> drivers m' = drivers m"
proof (induction xs arbitrary: m w)
  case (Cons x xs)
  obtain new m1 w1 where x: "mgr_apply x m w = (new, m1, w1)" by (metis prod_cases3)
  then have "drivers m1 = drivers m"
    by (cases x) (auto simp: mgr_defs Let_def split: prod.splits option.splits res.splits)
  with Cons x show ?case by auto
qed simp

context sandbox_drivers
begin

lemma mgr_okD:
  assumes "mgr_ok D wfw live handle m w"
  shows "wfw w" "\<And>n d. drivers m n = Some d \<Longrightarrow> D d"
    "\<And>sid e. instances m sid = Some e \<Longrightarrow> handle w (entry_inst e)"
    "\<And>sid e. instances m sid = Some e \<Longrightarrow> inst_ID (entry_inst e) = sid"
    "\<And>sid e. instances m sid = Some e \<Longrightarrow> D (entry_driver e)"
    "\<And>x. x \<in> live w \<Longrightarrow> \<exists>sid e. instances m sid = Some e \<and> inst_ref (entry_inst e) = x"
  using assms by (auto simp: mgr_ok_def ran_def) blast

lemma mgr_okI:
  assumes "wfw w" "\<And>n d. drivers m n = Some d \<Longrightarrow> D d"
    "\<And>sid e. instances m sid = Some e \<Longrightarrow>
       handle w (entry_inst e) \<and> inst_ID (entry_inst e) = sid \<and> D (entry_driver e)"
    "\<And>x. x \<in> live w \<Longrightarrow> \<exists>sid e. instances m sid = Some e \<and> inst_ref (entry_inst e) = x"
  shows "mgr_ok D wfw live handle m w"
  using assms by (fastforce simp: mgr_ok_def ran_def image_iff)

text \<open>A world in which nothing untracked became live and no handle was lost keeps the invariant.\<close>

lemma ok_same:
  assumes "mgr_ok D wfw live handle m w" "wfw w'" "handle w \<le> handle w'"
    and "\<And>x. x \<in> live w' \<Longrightarrow> x \<in> live w \<or> (\<exists>sid e. instances m sid = Some e \<and> inst_ref (entry_inst e) = x)"
  shows "mgr_ok D wfw live handle m w'"
proof (rule mgr_okI)
  show "\<exists>sid e. instances m sid = Some e \<and> inst_ref (entry_inst e) = x" if "x \<in> live w'" for x
    using assms(4) [OF that] mgr_okD(6) [OF assms(1)] by blast
qed (use assms mgr_okD [OF assms(1)] in \<open>auto simp: le_fun_def\<close>)

lemma ok_track:
  assumes ok: "mgr_ok D wfw live handle m w"
    and w': "wfw w'" "handle w' i" "handle w \<le> handle w'" "live w' = insert (inst_ref i) (live w)"
    and d: "D d" and fresh: "instances m (inst_ID i) = None"
  shows "mgr_ok D wfw live handle (track m i d) w'"
proof (rule mgr_okI)
  fix x assume "x \<in> live w'"
  then consider "x = inst_ref i" | "x \<in> live w" using w'(4) by auto
  then show "\<exists>sid e. instances (track m i d) sid = Some e \<and> inst_ref (entry_inst e) = x"
  proof cases
    case 1
    then show ?thesis by (auto simp: track_def)
  next
    case 2
    then obtain sid e where e: "instances m sid = Some e" "inst_ref (entry_inst e) = x"
      using mgr_okD(6) [OF ok] by blast
    then have "sid \<noteq> inst_ID i" using fresh by auto
    with e show ?thesis by (intro exI [of _ sid] exI [of _ e]) (simp add: track_def)
  qed
next
  fix sid e assume e: "instances (track m i d) sid = Some e"
  show "handle w' (entry_inst e) \<and> inst_ID (entry_inst e) = sid \<and> D (entry_driver e)"
    using e w' d mgr_okD(3-5) [OF ok, of sid e]
    by (auto simp: track_def le_fun_def split: if_splits)
qed (use w' mgr_okD [OF ok] in \<open>auto simp: track_def\<close>)

lemma ok_delete:
  assumes ok: "mgr_ok D wfw live handle m w" and "mgr_Delete m sid w = (r, m', w')"
  shows "mgr_ok D wfw live handle m' w'"
proof (cases "instances m sid")
  case None
  with assms show ?thesis by (simp add: mgr_Delete_def)
next
  case (Some e)
  with assms obtain m'': "m' = m\<lparr>instances := (instances m)(sid := None)\<rparr>"
    and st: "inst_Stop (entry_inst e) w = (r, w')"
    by (auto simp: mgr_Delete_def Let_def split: prod.splits)
  note h = mgr_okD(3) [OF ok Some]
  note post = stop [OF h mgr_okD(1) [OF ok] st]
  show ?thesis
  proof (rule mgr_okI)
    fix x assume x: "x \<in> live w'"
    then have "x \<in> live w" "x \<noteq> inst_ref (entry_inst e)" using post by auto
    then obtain sid' e' where "instances m sid' = Some e'" "inst_ref (entry_inst e') = x"
      using mgr_okD(6) [OF ok] by blast
    with Some \<open>x \<noteq> _\<close> show "\<exists>sid e. instances m' sid = Some e \<and> inst_ref (entry_inst e) = x"
      by (intro exI [of _ sid'] exI [of _ e']) (auto simp: m'')
  qed (use post mgr_okD [OF ok] in \<open>auto simp: m'' le_fun_def split: if_splits\<close>)
qed

lemma ok_create:
  assumes ok: "mgr_ok D wfw live handle m w" and c: "mgr_Create m n spec w = (r, m', w')"
    and fresh: "\<And>i. r = Ok i \<Longrightarrow> instances m (inst_ID i) = None"
  shows "mgr_ok D wfw live handle m' w'"
proof (cases "drivers m n")
  case None
  with c ok show ?thesis by (simp add: mgr_Create_def)
next
  case (Some d)
  note d = mgr_okD(2) [OF ok Some]
  obtain q v where q: "drv_Create d spec w = (q, v)" by fastforce
  have same: "mgr_ok D wfw live handle m v" if "\<not> is_ok q"
    using create_fail [OF d mgr_okD(1) [OF ok] q that] by (intro ok_same [OF ok]) auto
  show ?thesis
  proof (cases q)
    case (Ok i)
    then have "m' = track m i d" "w' = v" "r = Ok i"
      using c Some q by (simp_all add: mgr_Create_def)
    with create_ok [OF d mgr_okD(1) [OF ok], of spec i v] q Ok fresh show ?thesis
      by (auto intro!: ok_track [OF ok] d)
  qed (use c Some q same in \<open>auto simp: mgr_Create_def\<close>)
qed

lemma ok_restore:
  assumes ok: "mgr_ok D wfw live handle m w" and c: "mgr_RestoreFrom m n path opts w = (r, m', w')"
    and fresh: "\<And>i. r = Ok i \<Longrightarrow> instances m (inst_ID i) = None"
  shows "mgr_ok D wfw live handle m' w'"
proof (cases "\<exists>d f. drivers m n = Some d \<and> drv_Restore d = Some f")
  case False
  with c ok show ?thesis by (auto simp: mgr_RestoreFrom_def split: option.splits)
next
  case True
  then obtain d f where Some: "drivers m n = Some d" and f: "drv_Restore d = Some f" by blast
  note d = mgr_okD(2) [OF ok Some]
  obtain q v where q: "f path opts w = (q, v)" by fastforce
  have same: "mgr_ok D wfw live handle m v" if "\<not> is_ok q"
    using restore_fail [OF d mgr_okD(1) [OF ok] f q that] by (intro ok_same [OF ok]) auto
  show ?thesis
  proof (cases q)
    case (Ok i)
    then have "m' = track m i d" "w' = v" "r = Ok i"
      using c Some f q by (simp_all add: mgr_RestoreFrom_def)
    with restore_ok [OF d mgr_okD(1) [OF ok] f, of path opts i v] q Ok fresh show ?thesis
      by (auto intro!: ok_track [OF ok] d)
  qed (use c Some f q same in \<open>auto simp: mgr_RestoreFrom_def\<close>)
qed

lemma ok_snapshot:
  assumes ok: "mgr_ok D wfw live handle m w" and c: "mgr_Snapshot m sid path w = (r, w')"
  shows "mgr_ok D wfw live handle m w'"
proof (cases "instances m sid")
  case None
  with c ok show ?thesis by (simp add: mgr_Snapshot_def)
next
  case (Some e)
  with c have "inst_Snapshot (entry_inst e) path w = (r, w')" by (simp add: mgr_Snapshot_def)
  from snapshot [OF mgr_okD(3) [OF ok Some] mgr_okD(1) [OF ok] this] Some show ?thesis
    by (intro ok_same [OF ok]) auto
qed

text \<open>A fork is a snapshot of the source, then a restore by the driver that made the source.\<close>

lemma ok_fork:
  assumes ok: "mgr_ok D wfw live handle m w" and c: "mgr_Fork m sid dir w = (r, m', w')"
    and fresh: "\<And>i. r = Ok i \<Longrightarrow> instances m (inst_ID i) = None"
  shows "mgr_ok D wfw live handle m' w'"
proof (cases "\<exists>e f. instances m sid = Some e \<and> drv_Restore (entry_driver e) = Some f")
  case False
  with c ok show ?thesis by (auto simp: mgr_Fork_def split: option.splits)
next
  case True
  then obtain e f where e: "instances m sid = Some e" and f: "drv_Restore (entry_driver e) = Some f"
    by blast
  obtain q v where q: "inst_Snapshot (entry_inst e) dir w = (q, v)" by fastforce
  then have okv: "mgr_ok D wfw live handle m v"
    using e ok_snapshot [OF ok, of sid dir q v] by (simp add: mgr_Snapshot_def)
  note d = mgr_okD(5) [OF okv e]
  obtain q' v' where q': "f dir \<lparr>opts_Netns = []\<rparr> v = (q', v')" by fastforce
  have same: "mgr_ok D wfw live handle m v'" if "\<not> is_ok q'"
    using restore_fail [OF d mgr_okD(1) [OF okv] f q' that] by (intro ok_same [OF okv]) auto
  show ?thesis
  proof (cases "is_ok q \<and> is_ok q'")
    case True
    then obtain u i where i: "q = Ok u" "q' = Ok i" by (auto simp: is_ok_iff)
    then have "m' = track m i (entry_driver e)" "w' = v'" "r = Ok i"
      using c e f q q' by (simp_all add: mgr_Fork_def)
    with restore_ok [OF d mgr_okD(1) [OF okv] f, of dir "\<lparr>opts_Netns = []\<rparr>" i v'] q' i fresh
    show ?thesis by (auto intro!: ok_track [OF okv] d)
  next
    case False
    then show ?thesis
      using c e f q q' okv same by (cases q; cases q') (auto simp: mgr_Fork_def)
  qed
qed

text \<open>Every operation, and so every run of operations, keeps the invariant.\<close>

lemma ok_apply:
  assumes ok: "mgr_ok D wfw live handle m w" and "mgr_apply x m w = (new, m', w')"
    and "\<And>i. new = Some i \<Longrightarrow> instances m (inst_ID i) = None"
  shows "mgr_ok D wfw live handle m' w'"
  using assms
  by (cases x)
    (auto split: prod.splits res.splits
      intro: ok_create ok_restore ok_fork ok_snapshot ok_delete)

lemma ok_run:
  "mgr_ok D wfw live handle m w \<Longrightarrow> ids_fresh xs m w \<Longrightarrow> mgr_run xs m w = (m', w') \<Longrightarrow>
   mgr_ok D wfw live handle m' w'"
proof (induction xs arbitrary: m w)
  case (Cons x xs)
  obtain new m1 w1 where x: "mgr_apply x m w = (new, m1, w1)" by (metis prod_cases3)
  have "mgr_ok D wfw live handle m1 w1"
    using Cons.prems(2) x by (intro ok_apply [OF Cons.prems(1) x]) auto
  then show ?case using Cons.IH [of m1 w1] Cons.prems x by simp
qed simp

text \<open>\<open>Shutdown\<close>: stopping a list of handles frees each of them and nothing else.\<close>

lemma stop_all_live:
  "wfw w \<Longrightarrow> \<forall>i \<in> set is. handle w i \<Longrightarrow> stop_all is w = (r, w') \<Longrightarrow>
   wfw w' \<and> handle w \<le> handle w' \<and> live w' = live w - inst_ref ` set is \<and> r = Ok ()"
proof (induction "is" arbitrary: w)
  case (Cons i "is")
  obtain q v where q: "inst_Stop i w = (q, v)" by fastforce
  have "handle w i" using Cons.prems(2) by simp
  note post = stop [OF this Cons.prems(1) q]
  with q Cons.prems(3) have rest: "stop_all is v = (r, w')"
    by (cases q) auto
  have "\<forall>i \<in> set is. handle v i" using post Cons.prems(2) by (auto simp: le_fun_def)
  from Cons.IH [OF _ this rest] post show ?case by auto
qed simp

lemma close_all_live:
  "wfw w \<Longrightarrow> \<forall>d \<in> set ds. D d \<Longrightarrow>
   wfw (close_all ds w) \<and> handle w \<le> handle (close_all ds w) \<and> live (close_all ds w) = live w"
proof (induction ds arbitrary: w)
  case (Cons d ds)
  show ?case
  proof (cases "drv_Close d")
    case (Some c)
    have "D d" using Cons.prems by simp
    note post = close [OF this Cons.prems(1) Some]
    then show ?thesis using Cons.IH [of "c w"] Cons.prems Some by auto
  qed (use Cons in auto)
qed simp

lemma shutdown_live:
  assumes ok: "mgr_ok D wfw live handle m w"
    and "range_order (instances m) iks" "range_order (drivers m) dks"
    and "mgr_Shutdown m iks dks w = (r, m', w')"
  shows "r = Ok () \<and> live w' = {} \<and> instances m' = Map.empty \<and> mgr_ok D wfw live handle m' w'"
proof -
  let ?is = "map entry_inst (range_vals (instances m) iks)"
  let ?ds = "range_vals (drivers m) dks"
  have set_is: "set ?is = entry_inst ` ran (instances m)"
    using assms(2) by (simp add: set_range_vals_order)
  have hs: "\<forall>i \<in> set ?is. handle w i"
    unfolding set_is using mgr_okD(3) [OF ok] by (auto simp: ran_def)
  have ds: "\<forall>d \<in> set ?ds. D d"
    using mgr_okD(2) [OF ok] assms(3) by (auto simp: set_range_vals_order ran_def)
  obtain q v where q: "stop_all ?is w = (q, v)" by fastforce
  note post = stop_all_live [OF mgr_okD(1) [OF ok] hs q]
  have "live v = {}"
    using post mgr_okD(6) [OF ok] unfolding set_is by (fastforce simp: ran_def image_iff)
  moreover have "r = Ok ()" "m' = m\<lparr>instances := Map.empty\<rparr>" "w' = close_all ?ds v"
    using assms(4) q post by (auto simp: mgr_Shutdown_def Let_def)
  ultimately show ?thesis
    using close_all_live [of v ?ds] post ds mgr_okD(2) [OF ok] by (auto simp: mgr_ok_def)
qed

end

section \<open>Properties of the Manager\<close>

text \<open>
  Deleting a sandbox removes exactly its own entry, whatever \<open>Stop\<close> answers, and a second delete
  of the same identifier is an error that touches neither the table nor the world.
\<close>

theorem delete_exact:
  assumes "mgr_Delete m sid w = (r, m', w')"
  shows "mgr_Get m' sid = None \<and> (\<forall>k. k \<noteq> sid \<longrightarrow> mgr_Get m' k = mgr_Get m k) \<and>
     drivers m' = drivers m \<and>
     mgr_Delete m' sid w' = (Err (New ''unknown sandbox: '' [sid]), m', w')"
  using assms by (auto simp: mgr_Delete_def mgr_Get_def Let_def split: option.splits prod.splits)

theorem delete_exact_witness:
  "mgr_Get (NewManager :: nat Manager) ''x'' = None"
  using delete_exact [of "NewManager :: nat Manager" "''x''" 0 "Err (New ''unknown sandbox: '' [''x''])"
      NewManager 0]
  by (simp add: mgr_Delete_def NewManager_def)

text \<open>
  A fork needs a known sandbox whose own driver can restore: otherwise it answers the error
  without taking a snapshot, and the table and the world are untouched; and when it fails later the
  table is still untouched, so the source stays tracked and no half-made clone appears.
\<close>

theorem fork_errors:
  assumes "mgr_Fork m sid dir w = (r, m', w')"
  shows "(mgr_Get m sid = None \<longrightarrow> r = Err (New ''unknown sandbox: '' [sid]) \<and> w' = w) \<and>
     (\<forall>e. instances m sid = Some e \<longrightarrow> drv_Restore (entry_driver e) = None \<longrightarrow>
        r = Err ErrNotSupported \<and> w' = w) \<and>
     (\<not> is_ok r \<longrightarrow> m' = m) \<and>
     (\<forall>i. r = Ok i \<longrightarrow> mgr_Get m' (inst_ID i) = Some i \<and>
        (\<forall>k. k \<noteq> inst_ID i \<longrightarrow> mgr_Get m' k = mgr_Get m k))"
  using assms
  by (auto simp: mgr_Fork_def mgr_Get_def track_def split: option.splits res.splits prod.splits)

theorem fork_errors_witness: "mgr_Get (NewManager :: nat Manager) ''x'' = None"
  using fork_errors [of "NewManager :: nat Manager" "''x''" "''/d''" 0
      "Err (New ''unknown sandbox: '' [''x''])" NewManager 0]
  by (simp add: mgr_Fork_def mgr_Get_def NewManager_def)

text \<open>
  An identifier is twelve lower-case hexadecimal digits, and two identifiers are equal only if the
  six random bytes were.
\<close>

theorem NewID_spec:
  assumes "length a = 6" "length b = 6"
  shows "length (NewID a) = 12 \<and> set (NewID a) \<subseteq> set ''0123456789abcdef'' \<and>
     (NewID a = NewID b \<longleftrightarrow> a = b)"
  using assms hexEncode_set [of "take 6 a"]
  by (simp add: NewID_length NewID_inject) (simp add: NewID_def hextable_def)

theorem NewID_spec_witness:
  "NewID [0, 1, 171, 255, 16, 9] = ''0001abff1009'' \<and> length (NewID [0, 1, 171, 255, 16, 9]) = 12"
  using NewID_spec [of "[0, 1, 171, 255, 16, 9]" "replicate 6 0"]
  by (simp add: NewID_def hexdigit_def hextable_def)

end
