(* ===== verification/FakeDriver.thy ===== *)
theory FakeDriver
  imports Sandbox
begin

text \<open>
  The in-memory driver of \<open>pkg/sandbox/testutil.go\<close>, which the unit tests of every package run on.
  Its instances are pointers into a heap; \<open>FakeWorld\<close> holds the heap, the fields of the one
  \<open>FakeDriver\<close>, and the bytes that \<open>rand.Read\<close> will deliver (zeros once they run out: \<open>NewID\<close> ignores
  the error and keeps its zeroed buffer).
\<close>

record FakeInstance =
  fi_id :: string
  fi_spec :: "Spec option"
  fi_state :: State
  fi_restoredFrom :: string
  fi_netns :: string

record FakeWorld =
  ExecOut :: string
  ExecCode :: int
  Snapshots :: "string \<rightharpoonup> string"
  Closed :: bool
  fheap :: "nat \<rightharpoonup> FakeInstance"
  fnext :: nat
  fentropy :: "8 word list list"

definition NewFakeWorld :: "8 word list list \<Rightarrow> FakeWorld" where
  "NewFakeWorld rnd = \<lparr>ExecOut = ''fake-out'', ExecCode = 0, Snapshots = Map.empty, Closed = False,
     fheap = Map.empty, fnext = 0, fentropy = rnd\<rparr>"

fun rand_Read :: "8 word list list \<Rightarrow> 8 word list \<times> 8 word list list" where
  "rand_Read [] = (replicate 6 0, [])"
| "rand_Read (b # bs) = (b, bs)"

section \<open>Methods of FakeInstance\<close>

definition fake_State :: "nat \<Rightarrow> FakeWorld \<Rightarrow> State" where
  "fake_State a w = (case fheap w a of None \<Rightarrow> StateCreated | Some f \<Rightarrow> fi_state f)"

definition fake_Exec :: "string list \<Rightarrow> FakeWorld \<Rightarrow> int res \<times> string \<times> string \<times> FakeWorld" where
  "fake_Exec cmd w = (Ok (ExecCode w), ExecOut w, [], w)"

definition fake_Snapshot :: "nat \<Rightarrow> string \<Rightarrow> FakeWorld \<Rightarrow> unit res \<times> FakeWorld" where
  "fake_Snapshot a path w =
     (case fheap w a of
        None \<Rightarrow> (Panic, w)
      | Some f \<Rightarrow> (Ok (), w\<lparr>Snapshots := (Snapshots w)(path \<mapsto> fi_id f),
                          fheap := (fheap w)(a \<mapsto> f\<lparr>fi_state := StateSnapshot\<rparr>)\<rparr>))"

definition fake_Stop :: "nat \<Rightarrow> FakeWorld \<Rightarrow> unit res \<times> FakeWorld" where
  "fake_Stop a w =
     (case fheap w a of
        None \<Rightarrow> (Panic, w)
      | Some f \<Rightarrow> (Ok (), w\<lparr>fheap := (fheap w)(a \<mapsto> f\<lparr>fi_state := StateStopped\<rparr>)\<rparr>))"

definition fake_instance :: "nat \<Rightarrow> string \<Rightarrow> FakeWorld Instance" where
  "fake_instance a sid = \<lparr>inst_ref = a, inst_ID = sid, inst_State = fake_State a,
     inst_Exec = fake_Exec, inst_Snapshot = fake_Snapshot a, inst_Stop = fake_Stop a\<rparr>"

section \<open>Methods of FakeDriver\<close>

definition fake_alloc :: "FakeInstance \<Rightarrow> FakeWorld \<Rightarrow> FakeWorld Instance res \<times> FakeWorld" where
  "fake_alloc f w =
     (Ok (fake_instance (fnext w) (fi_id f)),
      w\<lparr>fheap := (fheap w)(fnext w \<mapsto> f), fnext := Suc (fnext w)\<rparr>)"

definition fake_Create :: "Spec option \<Rightarrow> FakeWorld \<Rightarrow> FakeWorld Instance res \<times> FakeWorld" where
  "fake_Create spec w =
     (let (b, rest) = rand_Read (fentropy w)
      in fake_alloc \<lparr>fi_id = NewID b, fi_spec = spec, fi_state = StateRunning,
           fi_restoredFrom = [], fi_netns = []\<rparr> (w\<lparr>fentropy := rest\<rparr>))"

definition fake_Restore ::
  "string \<Rightarrow> RestoreOpts \<Rightarrow> FakeWorld \<Rightarrow> FakeWorld Instance res \<times> FakeWorld" where
  "fake_Restore path opts w =
     (case Snapshots w path of
        None \<Rightarrow> (Err ErrNotSupported, w)
      | Some _ \<Rightarrow>
          (let (b, rest) = rand_Read (fentropy w)
           in fake_alloc \<lparr>fi_id = NewID b, fi_spec = None, fi_state = StateRunning,
                fi_restoredFrom = path, fi_netns = opts_Netns opts\<rparr> (w\<lparr>fentropy := rest\<rparr>)))"

definition fake_Driver :: "string \<Rightarrow> FakeWorld Driver" where
  "fake_Driver name = \<lparr>drv_Name = name, drv_Create = fake_Create, drv_Restore = Some fake_Restore,
     drv_Close = Some (\<lambda>w. w\<lparr>Closed := True\<rparr>)\<rparr>"

lemmas fake_defs [model_defs] =
  fake_State_def fake_Exec_def fake_Snapshot_def fake_Stop_def fake_instance_def fake_alloc_def
  fake_Create_def fake_Restore_def fake_Driver_def

section \<open>The driver keeps the contract\<close>

text \<open>
  A fake sandbox is live until it is stopped; a handle points to an allocated cell that carries its
  identifier; cells from \<open>fnext\<close> on are free.
\<close>

definition fake_live :: "FakeWorld \<Rightarrow> nat set" where
  "fake_live w = {a. \<exists>f. fheap w a = Some f \<and> fi_state f \<noteq> StateStopped}"

definition fake_handle :: "FakeWorld \<Rightarrow> FakeWorld Instance \<Rightarrow> bool" where
  "fake_handle w i \<longleftrightarrow>
     (\<exists>a f. fheap w a = Some f \<and> i = fake_instance a (fi_id f))"

definition fake_ok :: "FakeWorld \<Rightarrow> bool" where
  "fake_ok w \<longleftrightarrow> (\<forall>a \<ge> fnext w. fheap w a = None)"

lemma fake_ok_New [simp]: "fake_ok (NewFakeWorld rnd)"
  by (simp add: fake_ok_def NewFakeWorld_def)

lemma fake_live_New [simp]: "fake_live (NewFakeWorld rnd) = {}"
  by (simp add: fake_live_def NewFakeWorld_def)

lemma fake_instance_sel [simp]:
  "inst_ref (fake_instance a s) = a" "inst_ID (fake_instance a s) = s"
  "inst_State (fake_instance a s) = fake_State a" "inst_Stop (fake_instance a s) = fake_Stop a"
  "inst_Snapshot (fake_instance a s) = fake_Snapshot a"
  "inst_Exec (fake_instance a s) = fake_Exec"
  by (simp_all add: fake_instance_def)

text \<open>The two shapes of world change: allocating a running cell, and updating a cell in place.\<close>

lemma fake_alloc_contract:
  assumes "fake_ok w" "fi_state f = StateRunning" "fake_alloc f w = (r, w')"
  shows "\<exists>i. r = Ok i \<and> fake_ok w' \<and> fake_handle w' i \<and> fake_handle w \<le> fake_handle w' \<and>
     inst_ref i \<notin> fake_live w \<and> fake_live w' = insert (inst_ref i) (fake_live w) \<and>
     inst_State i w' = StateRunning"
proof -
  let ?a = "fnext w"
  have none: "fheap w ?a = None" using assms(1) by (simp add: fake_ok_def)
  have w': "r = Ok (fake_instance ?a (fi_id f))"
    "w' = w\<lparr>fheap := (fheap w)(?a \<mapsto> f), fnext := Suc ?a\<rparr>"
    using assms(3) by (simp_all add: fake_alloc_def)
  have "fake_handle w \<le> fake_handle w'"
  proof (rule predicate1I)
    fix i assume "fake_handle w i"
    then obtain a g where "fheap w a = Some g" "i = fake_instance a (fi_id g)"
      by (auto simp: fake_handle_def)
    moreover from this none have "a \<noteq> ?a" by auto
    ultimately show "fake_handle w' i" by (auto simp: fake_handle_def w')
  qed
  moreover have "fake_handle w' (fake_instance ?a (fi_id f))"
    by (auto simp: fake_handle_def w')
  moreover have "fake_live w' = insert ?a (fake_live w)" "?a \<notin> fake_live w"
    using none assms(2) by (auto simp: fake_live_def w')
  ultimately show ?thesis
    using assms(1,2) by (auto simp: w' fake_ok_def fake_State_def)
qed

lemma fake_update_contract:
  assumes "fake_ok w" "fheap w a = Some f" "fi_id g = fi_id f"
    and "fheap w' = (fheap w)(a \<mapsto> g)" "fnext w' = fnext w"
  shows "fake_ok w'" "fake_handle w \<le> fake_handle w'"
    "fake_live w' = (if fi_state g = StateStopped then fake_live w - {a} else insert a (fake_live w))"
proof -
  show "fake_ok w'"
    using assms by (auto simp: fake_ok_def)
  show "fake_handle w \<le> fake_handle w'"
  proof (rule predicate1I)
    fix i assume "fake_handle w i"
    then obtain b h where "fheap w b = Some h" "i = fake_instance b (fi_id h)"
      by (auto simp: fake_handle_def)
    then show "fake_handle w' i"
      using assms(2-4) by (cases "b = a") (auto simp: fake_handle_def)
  qed
  show "fake_live w' = (if fi_state g = StateStopped then fake_live w - {a} else insert a (fake_live w))"
    using assms(4) by (auto simp: fake_live_def split: if_splits)
qed


lemma fake_entropy_sel [simp]:
  "fake_ok (w\<lparr>fentropy := r\<rparr>) = fake_ok w" "fake_live (w\<lparr>fentropy := r\<rparr>) = fake_live w"
  "fake_handle (w\<lparr>fentropy := r\<rparr>) = fake_handle w"
  "fake_ok (w\<lparr>Closed := b\<rparr>) = fake_ok w" "fake_live (w\<lparr>Closed := b\<rparr>) = fake_live w"
  "fake_handle (w\<lparr>Closed := b\<rparr>) = fake_handle w"
  by (simp_all add: fake_ok_def fake_live_def fake_handle_def fun_eq_iff)

lemma fake_Create_contract:
  assumes "fake_ok w" "fake_Create spec w = (r, w')"
  shows "\<exists>i. r = Ok i \<and> fake_ok w' \<and> fake_handle w' i \<and> fake_handle w \<le> fake_handle w' \<and>
     inst_ref i \<notin> fake_live w \<and> fake_live w' = insert (inst_ref i) (fake_live w) \<and>
     inst_State i w' = StateRunning"
proof -
  obtain b rest where "rand_Read (fentropy w) = (b, rest)" by fastforce
  then have "fake_alloc \<lparr>fi_id = NewID b, fi_spec = spec, fi_state = StateRunning,
      fi_restoredFrom = [], fi_netns = []\<rparr> (w\<lparr>fentropy := rest\<rparr>) = (r, w')"
    using assms(2) by (simp add: fake_Create_def)
  from fake_alloc_contract [OF _ _ this] assms(1) show ?thesis by simp
qed

lemma fake_Restore_contract:
  assumes "fake_ok w" "fake_Restore path opts w = (Ok i, w')"
  shows "fake_ok w' \<and> fake_handle w' i \<and> fake_handle w \<le> fake_handle w' \<and>
     inst_ref i \<notin> fake_live w \<and> fake_live w' = insert (inst_ref i) (fake_live w) \<and>
     inst_State i w' = StateRunning"
proof -
  obtain b rest where "rand_Read (fentropy w) = (b, rest)" by fastforce
  then have "fake_alloc \<lparr>fi_id = NewID b, fi_spec = None, fi_state = StateRunning,
      fi_restoredFrom = path, fi_netns = opts_Netns opts\<rparr> (w\<lparr>fentropy := rest\<rparr>) = (Ok i, w')"
    using assms(2) by (auto simp: fake_Restore_def split: option.splits)
  from fake_alloc_contract [OF _ _ this] assms(1) show ?thesis by simp
qed

lemma fake_Restore_fail:
  "fake_Restore path opts w = (r, w') \<Longrightarrow> \<not> is_ok r \<Longrightarrow> w' = w"
  by (auto simp: fake_Restore_def fake_alloc_def Let_def split: option.splits prod.splits)

lemma fake_Stop_contract:
  assumes "fake_handle w i" "fake_ok w" "inst_Stop i w = (r, w')"
  shows "fake_ok w' \<and> fake_handle w \<le> fake_handle w' \<and> fake_live w' = fake_live w - {inst_ref i} \<and>
     r \<noteq> Panic \<and> inst_State i w' = StateStopped"
proof -
  from assms(1) obtain a f where f: "fheap w a = Some f" "i = fake_instance a (fi_id f)"
    by (auto simp: fake_handle_def)
  with assms(3) have "r = Ok ()" and w': "w' = w\<lparr>fheap := (fheap w)(a \<mapsto> f\<lparr>fi_state := StateStopped\<rparr>)\<rparr>"
    by (simp_all add: fake_Stop_def)
  with f show ?thesis
    using fake_update_contract [OF assms(2) f(1), of "f\<lparr>fi_state := StateStopped\<rparr>" w']
    by (simp add: fake_State_def)
qed

lemma fake_Snapshot_contract:
  assumes "fake_handle w i" "fake_ok w" "inst_Snapshot i path w = (r, w')"
  shows "fake_ok w' \<and> fake_handle w \<le> fake_handle w' \<and> fake_live w' \<subseteq> insert (inst_ref i) (fake_live w)"
proof -
  from assms(1) obtain a f where f: "fheap w a = Some f" "i = fake_instance a (fi_id f)"
    by (auto simp: fake_handle_def)
  with assms(3) have "w' = w\<lparr>Snapshots := (Snapshots w)(path \<mapsto> fi_id f),
      fheap := (fheap w)(a \<mapsto> f\<lparr>fi_state := StateSnapshot\<rparr>)\<rparr>"
    by (simp add: fake_Snapshot_def)
  with f show ?thesis
    using fake_update_contract [OF assms(2) f(1), of "f\<lparr>fi_state := StateSnapshot\<rparr>" w'] by simp
qed

lemma fake_Driver_sel [simp]:
  "drv_Name (fake_Driver n) = n" "drv_Create (fake_Driver n) = fake_Create"
  "drv_Restore (fake_Driver n) = Some fake_Restore"
  "drv_Close (fake_Driver n) = Some (\<lambda>w. w\<lparr>Closed := True\<rparr>)"
  by (simp_all add: fake_Driver_def)

interpretation fake: sandbox_drivers
  "\<lambda>d. \<exists>name. d = fake_Driver name" fake_ok fake_live fake_handle
proof
  fix d :: "FakeWorld Driver" and w w' spec q
  assume "\<exists>name. d = fake_Driver name" "fake_ok w" "drv_Create d spec w = (q, w')" "\<not> is_ok q"
  then show "fake_ok w' \<and> fake_handle w \<le> fake_handle w' \<and> fake_live w' = fake_live w"
    using fake_Create_contract [of w spec q w'] by auto
next
  fix d :: "FakeWorld Driver" and w w' f path opts i
  assume "\<exists>name. d = fake_Driver name" "fake_ok w" "drv_Restore d = Some f" "f path opts w = (Ok i, w')"
  then show "fake_ok w' \<and> fake_handle w' i \<and> fake_handle w \<le> fake_handle w' \<and>
     inst_ref i \<notin> fake_live w \<and> fake_live w' = insert (inst_ref i) (fake_live w) \<and>
     inst_State i w' = StateRunning"
    using fake_Restore_contract [of w path opts i w'] by auto
next
  fix d :: "FakeWorld Driver" and w w' f path opts q
  assume "\<exists>name. d = fake_Driver name" "fake_ok w" "drv_Restore d = Some f" "f path opts w = (q, w')"
    "\<not> is_ok q"
  then show "fake_ok w' \<and> fake_handle w \<le> fake_handle w' \<and> fake_live w' = fake_live w"
    using fake_Restore_fail [of path opts w q w'] by auto
next
  fix d :: "FakeWorld Driver" and w c
  assume "\<exists>name. d = fake_Driver name" "fake_ok w" "drv_Close d = Some c"
  then show "fake_ok (c w) \<and> fake_handle w \<le> fake_handle (c w) \<and> fake_live (c w) = fake_live w"
    by auto
next
  fix d :: "FakeWorld Driver" and w w' spec i
  assume "\<exists>name. d = fake_Driver name" "fake_ok w" "drv_Create d spec w = (Ok i, w')"
  then show "fake_ok w' \<and> fake_handle w' i \<and> fake_handle w \<le> fake_handle w' \<and>
     inst_ref i \<notin> fake_live w \<and> fake_live w' = insert (inst_ref i) (fake_live w) \<and>
     inst_State i w' = StateRunning"
    using fake_Create_contract [of w spec "Ok i" w'] by auto
next
  fix w w' :: FakeWorld and i cmd code out errout
  assume "fake_handle w i" "fake_ok w" "inst_Exec i cmd w = (code, out, errout, w')"
  then show "fake_ok w' \<and> fake_handle w \<le> fake_handle w' \<and> fake_live w' \<subseteq> fake_live w"
    by (auto simp: fake_handle_def fake_Exec_def)
qed (rule fake_Stop_contract fake_Snapshot_contract; assumption)+

section \<open>Properties of the Manager on the in-memory driver\<close>

definition fake_manager :: "string \<Rightarrow> FakeWorld Manager" where
  "fake_manager name = RegisterDriver NewManager (fake_Driver name)"

lemma fake_manager_ok:
  "mgr_ok (\<lambda>d. \<exists>name. d = fake_Driver name) fake_ok fake_live fake_handle
     (fake_manager name) (NewFakeWorld rnd)"
  by (auto simp: mgr_ok_def fake_manager_def RegisterDriver_def NewManager_def split: if_splits)

text \<open>
  C6. No sandbox leaks: after any sequence of creates, restores, forks, snapshots and deletes whose
  random identifiers do not collide, every sandbox still alive is tracked, and \<open>Shutdown\<close>, in
  whatever order it ranges over its maps, stops every one of them, never panics and empties the table.
\<close>

theorem manager_no_leak:
  assumes "ids_fresh xs (fake_manager name) (NewFakeWorld rnd)"
    and "mgr_run xs (fake_manager name) (NewFakeWorld rnd) = (m, w)"
    and "range_order (instances m) iks" "range_order (drivers m) dks"
    and "mgr_Shutdown m iks dks w = (r, m', w')"
  shows "fake_live w \<subseteq> {inst_ref (entry_inst e) | e. e \<in> ran (instances m)} \<and>
     r = Ok () \<and> fake_live w' = {} \<and> instances m' = Map.empty"
  using fake.ok_run [OF fake_manager_ok assms(1,2)] fake.shutdown_live [OF _ assms(3-5)]
  by (auto simp: mgr_ok_def)

definition fork_ops :: "mgr_op list" where
  "fork_ops = [OpCreate ''fake'' None, OpFork ''010203040506'' ''/snap'', OpDelete ''010203040506'']"

definition fork_rnd :: "8 word list list" where
  "fork_rnd = [[1, 2, 3, 4, 5, 6], [7, 8, 9, 10, 11, 12]]"

definition forked :: "FakeWorld Manager \<times> FakeWorld" where
  "forked = mgr_run fork_ops (fake_manager ''fake'') (NewFakeWorld fork_rnd)"

lemma example_ids:
  "NewID [1, 2, 3, 4, 5, 6] = ''010203040506''" "NewID [7, 8, 9, 10, 11, 12] = ''0708090a0b0c''"
  "NewID (replicate 6 0) = ''000000000000''"
  by code_simp+

lemmas fork_example_defs =
  forked_def fork_ops_def fork_rnd_def fake_manager_def RegisterDriver_def NewManager_def
  NewFakeWorld_def mgr_defs fake_Snapshot_def fake_Stop_def fake_alloc_def fake_Create_def
  fake_Restore_def example_ids

lemma forked_fresh: "ids_fresh fork_ops (fake_manager ''fake'') (NewFakeWorld fork_rnd)"
  by (simp add: fork_example_defs)

lemma forked_orders:
  "range_order (instances (fst forked)) [''0708090a0b0c'']" "range_order (drivers (fst forked)) [''fake'']"
  by (auto simp: range_order_def fork_example_defs)

theorem manager_no_leak_witness:
  "fake_live (snd (snd (mgr_Shutdown (fst forked) [''0708090a0b0c''] [''fake''] (snd forked)))) = {}"
proof -
  have run: "mgr_run fork_ops (fake_manager ''fake'') (NewFakeWorld fork_rnd) = (fst forked, snd forked)"
    by (simp add: forked_def)
  show ?thesis
    using manager_no_leak [OF forked_fresh run forked_orders prod.collapse [symmetric, THEN trans,
        OF arg_cong2 [where f = Pair, OF refl prod.collapse [symmetric]]]] by blast
qed

text \<open>
  The condition on identifiers is needed: \<open>NewID\<close> ignores the error of \<open>rand.Read\<close>, and two
  sandboxes with the same identifier leave the first one alive and untracked, out of reach of
  \<open>Delete\<close> and of \<open>Shutdown\<close>.
\<close>

theorem duplicate_id_leaks:
  "let (m, w) = mgr_run [OpCreate ''fake'' None, OpCreate ''fake'' None] (fake_manager ''fake'')
         (NewFakeWorld []);
       (r, m', w') = mgr_Shutdown m [''000000000000''] [''fake''] w
   in range_order (instances m) [''000000000000''] \<and> range_order (drivers m) [''fake''] \<and>
      r = Ok () \<and> instances m' = Map.empty \<and> fake_live w' = {0}"
  by (auto simp: fork_example_defs range_order_def fake_live_def)

text \<open>
  A fork of a tracked sandbox snapshots the source before restoring the clone: the source stays
  tracked and ends up in state snapshot, the clone is a new running sandbox recorded as restored from
  the snapshot directory, on no network namespace, tracked under its own identifier.
\<close>

theorem fork_functional:
  assumes "fake_ok w" "instances m sid = Some \<lparr>entry_inst = fake_instance a sid, entry_driver = fake_Driver name\<rparr>"
    and "fheap w a = Some f" "rand_Read (fentropy w) = (b, rest)"
  shows "\<exists>w'. mgr_Fork m sid dir w =
       (Ok (fake_instance (fnext w) (NewID b)), track m (fake_instance (fnext w) (NewID b)) (fake_Driver name), w') \<and>
     fnext w \<noteq> a \<and> fheap w' (fnext w) =
       Some \<lparr>fi_id = NewID b, fi_spec = None, fi_state = StateRunning, fi_restoredFrom = dir, fi_netns = []\<rparr> \<and>
     fheap w' a = Some (f\<lparr>fi_state := StateSnapshot\<rparr>) \<and> Snapshots w' dir = Some (fi_id f)"
proof -
  have "fheap w (fnext w) = None" using assms(1) by (simp add: fake_ok_def)
  then have "fnext w \<noteq> a" using assms(3) by auto
  with assms show ?thesis
    by (simp add: mgr_Fork_def fake_Snapshot_def fake_Restore_def fake_alloc_def)
qed

definition one_fake :: "FakeWorld Manager \<times> FakeWorld" where
  "one_fake = mgr_run [OpCreate ''fake'' None] (fake_manager ''fake'') (NewFakeWorld fork_rnd)"

theorem fork_functional_witness:
  "\<exists>m' w'. mgr_Fork (fst one_fake) ''010203040506'' ''/snap'' (snd one_fake) =
     (Ok (fake_instance 1 (NewID [7, 8, 9, 10, 11, 12])), m', w')"
  using fork_functional [of "snd one_fake" "fst one_fake" "''010203040506''" 0 "''fake''"
      "\<lparr>fi_id = ''010203040506'', fi_spec = None, fi_state = StateRunning, fi_restoredFrom = [],
        fi_netns = []\<rparr>" "[7, 8, 9, 10, 11, 12]" "[]" "''/snap''"]
  by (auto simp: one_fake_def fork_example_defs fake_ok_def)

end
