(* ===== verification/MgrThreads.thy ===== *)
theory MgrThreads
  imports Sandbox "HOL-Library.Multiset"
begin

text \<open>
  The Manager under concurrency. Its lock protects the two maps; drivers and instances are called without
  it. A call is a thread whose program counter names the next region of the method: a section under the
  lock, or a call of a driver or an instance. Any interleaving of regions is possible.
\<close>

section \<open>Threads\<close>

text \<open>A call of the Manager: one of the operations of \<open>mgr_op\<close>, or \<open>Shutdown\<close>.\<close>

datatype mgr_call = CallOp mgr_op | CallStop

datatype 'w mgr_thread =
    M_CreateLook string "Spec option"
  | M_CreateCall "'w Driver" "Spec option"
  | M_RestoreLook string string RestoreOpts
  | M_RestoreCall "'w Driver" string RestoreOpts
  | M_Track "'w Instance" "'w Driver"
  | M_ForkLook string string
  | M_ForkSnapshot "'w entry" string
  | M_ForkRestore "'w Driver" string
  | M_SnapLook string string
  | M_SnapCall "'w Instance" string
  | M_DeleteTake string
  | M_DeleteStop "'w Instance"
  | M_ShutdownTake
  | M_ShutdownStop "'w Instance list" "'w Driver list"
  | M_Done "'w Instance option res"

fun call_thread :: "mgr_call \<Rightarrow> 'w mgr_thread" where
  "call_thread (CallOp (OpCreate driver spec)) = M_CreateLook driver spec"
| "call_thread (CallOp (OpRestore driver path opts)) = M_RestoreLook driver path opts"
| "call_thread (CallOp (OpFork sid dir)) = M_ForkLook sid dir"
| "call_thread (CallOp (OpSnapshot sid path)) = M_SnapLook sid path"
| "call_thread (CallOp (OpDelete sid)) = M_DeleteTake sid"
| "call_thread CallStop = M_ShutdownTake"

text \<open>What a constructor of a driver answers: on success the instance is tracked next.\<close>

fun after_make :: "'w Driver \<Rightarrow> 'w Instance res \<Rightarrow> 'w mgr_thread" where
  "after_make d (Ok i) = M_Track i d"
| "after_make d (Err e) = M_Done (Err e)"
| "after_make d Panic = M_Done Panic"

text \<open>\<open>d.(Restorer)\<close>, then \<open>Restore\<close> is called.\<close>

definition restore_region :: "'w Driver \<Rightarrow> string \<Rightarrow> RestoreOpts \<Rightarrow> 'w \<Rightarrow> 'w mgr_thread \<times> 'w" where
  "restore_region d path opts w =
     (case drv_Restore d of
        None \<Rightarrow> (M_Done (Err ErrNotSupported), w)
      | Some restore \<Rightarrow> (case restore path opts w of (r, w') \<Rightarrow> (after_make d r, w')))"

text \<open>
  One region. \<open>iks\<close> and \<open>dks\<close> are the orders in which \<open>Shutdown\<close> ranges over the two maps. In \<open>Fork\<close> the
  driver is asked for \<open>Restore\<close> before the snapshot is taken.
\<close>

fun mgr_region ::
  "string list \<Rightarrow> string list \<Rightarrow> 'w mgr_thread \<Rightarrow> 'w Manager \<Rightarrow> 'w \<Rightarrow> 'w mgr_thread \<times> 'w Manager \<times> 'w" where
  "mgr_region iks dks (M_CreateLook driver spec) m w =
     (case drivers m driver of
        None \<Rightarrow> (M_Done (Err (New ''unknown driver: '' [driver])), m, w)
      | Some d \<Rightarrow> (M_CreateCall d spec, m, w))"
| "mgr_region iks dks (M_CreateCall d spec) m w =
     (case drv_Create d spec w of (r, w') \<Rightarrow> (after_make d r, m, w'))"
| "mgr_region iks dks (M_RestoreLook driver path opts) m w =
     (case drivers m driver of
        None \<Rightarrow> (M_Done (Err (New ''unknown driver: '' [driver])), m, w)
      | Some d \<Rightarrow> (M_RestoreCall d path opts, m, w))"
| "mgr_region iks dks (M_RestoreCall d path opts) m w =
     (case restore_region d path opts w of (t, w') \<Rightarrow> (t, m, w'))"
| "mgr_region iks dks (M_Track i d) m w = (M_Done (Ok (Some i)), track m i d, w)"
| "mgr_region iks dks (M_ForkLook sid dir) m w =
     (case instances m sid of
        None \<Rightarrow> (M_Done (Err (New ''unknown sandbox: '' [sid])), m, w)
      | Some e \<Rightarrow>
          (case drv_Restore (entry_driver e) of
             None \<Rightarrow> (M_Done (Err ErrNotSupported), m, w)
           | Some _ \<Rightarrow> (M_ForkSnapshot e dir, m, w)))"
| "mgr_region iks dks (M_ForkSnapshot e dir) m w =
     (case inst_Snapshot (entry_inst e) dir w of
        (Ok _, w') \<Rightarrow> (M_ForkRestore (entry_driver e) dir, m, w')
      | (Err err, w') \<Rightarrow> (M_Done (Err err), m, w')
      | (Panic, w') \<Rightarrow> (M_Done Panic, m, w'))"
| "mgr_region iks dks (M_ForkRestore d dir) m w =
     (case restore_region d dir \<lparr>opts_Netns = []\<rparr> w of (t, w') \<Rightarrow> (t, m, w'))"
| "mgr_region iks dks (M_SnapLook sid path) m w =
     (case instances m sid of
        None \<Rightarrow> (M_Done (Err (New ''unknown sandbox: '' [sid])), m, w)
      | Some e \<Rightarrow> (M_SnapCall (entry_inst e) path, m, w))"
| "mgr_region iks dks (M_SnapCall i path) m w =
     (case inst_Snapshot i path w of (r, w') \<Rightarrow> (M_Done (map_res (\<lambda>_. None) r), m, w'))"
| "mgr_region iks dks (M_DeleteTake sid) m w =
     (case instances m sid of
        None \<Rightarrow> (M_Done (Err (New ''unknown sandbox: '' [sid])), m, w)
      | Some e \<Rightarrow> (M_DeleteStop (entry_inst e), m\<lparr>instances := (instances m)(sid := None)\<rparr>, w))"
| "mgr_region iks dks (M_DeleteStop i) m w =
     (case inst_Stop i w of (r, w') \<Rightarrow> (M_Done (map_res (\<lambda>_. None) r), m, w'))"
| "mgr_region iks dks M_ShutdownTake m w =
     (M_ShutdownStop (map entry_inst (range_vals (instances m) iks)) (range_vals (drivers m) dks),
      m\<lparr>instances := Map.empty\<rparr>, w)"
| "mgr_region iks dks (M_ShutdownStop (i # is) ds) m w =
     (case inst_Stop i w of
        (Panic, w') \<Rightarrow> (M_Done Panic, m, w')
      | (_, w') \<Rightarrow> (M_ShutdownStop is ds, m, w'))"
| "mgr_region iks dks (M_ShutdownStop [] (d # ds)) m w =
     (M_ShutdownStop [] ds, m, case drv_Close d of None \<Rightarrow> w | Some c \<Rightarrow> c w)"
| "mgr_region iks dks (M_ShutdownStop [] []) m w = (M_Done (Ok None), m, w)"
| "mgr_region iks dks (M_Done r) m w = (M_Done r, m, w)"

text \<open>
  The system: the Manager, the world, the threads, and, only for the statements, the sandboxes that the
  Manager has asked to stop so far, in order.
\<close>

record 'w MgrSys =
  ms_mgr :: "'w Manager"
  ms_world :: 'w
  ms_threads :: "'w mgr_thread list"
  ms_stopped :: "nat list"

fun stop_log :: "'w mgr_thread \<Rightarrow> nat list" where
  "stop_log (M_DeleteStop i) = [inst_ref i]"
| "stop_log (M_ShutdownStop (i # is) ds) = [inst_ref i]"
| "stop_log _ = []"

datatype mgr_event = Begin mgr_call | RunMgr nat "string list" "string list"

fun mgr_step :: "mgr_event \<Rightarrow> 'w MgrSys \<Rightarrow> 'w MgrSys" where
  "mgr_step (Begin c) s = s\<lparr>ms_threads := ms_threads s @ [call_thread c]\<rparr>"
| "mgr_step (RunMgr i iks dks) s =
     (if i < length (ms_threads s)
      then case mgr_region iks dks (ms_threads s ! i) (ms_mgr s) (ms_world s) of
             (t, m, w) \<Rightarrow> \<lparr>ms_mgr = m, ms_world = w, ms_threads = (ms_threads s)[i := t],
                            ms_stopped = ms_stopped s @ stop_log (ms_threads s ! i)\<rparr>
      else s)"

fun mgr_steps :: "mgr_event list \<Rightarrow> 'w MgrSys \<Rightarrow> 'w MgrSys" where
  "mgr_steps [] s = s"
| "mgr_steps (e # es) s = mgr_steps es (mgr_step e s)"

text \<open>
  The events considered: \<open>Shutdown\<close> ranges over all of both maps, and an instance is tracked under an
  identifier that is not in use (48 random bits).
\<close>

definition mgr_event_ok :: "mgr_event \<Rightarrow> 'w MgrSys \<Rightarrow> bool" where
  "mgr_event_ok e s =
     (case e of
        Begin c \<Rightarrow> True
      | RunMgr i iks dks \<Rightarrow>
          i < length (ms_threads s) \<longrightarrow>
          (case ms_threads s ! i of
             M_Track x d \<Rightarrow> instances (ms_mgr s) (inst_ID x) = None
           | M_ShutdownTake \<Rightarrow> range_order (instances (ms_mgr s)) iks \<and> range_order (drivers (ms_mgr s)) dks
           | _ \<Rightarrow> True))"

definition mgr_sys :: "'w Manager \<Rightarrow> 'w \<Rightarrow> 'w MgrSys" where
  "mgr_sys m w = \<lparr>ms_mgr = m, ms_world = w, ms_threads = [], ms_stopped = []\<rparr>"

inductive mgr_reach :: "'w Manager \<Rightarrow> 'w \<Rightarrow> 'w MgrSys \<Rightarrow> bool" for m w where
  start: "mgr_reach m w (mgr_sys m w)"
| step: "mgr_reach m w s \<Longrightarrow> mgr_event_ok e s \<Longrightarrow> mgr_reach m w (mgr_step e s)"

section \<open>Who owns a sandbox\<close>

text \<open>
  The instances that a thread has taken charge of (it will track or stop them), those it only uses, and the
  drivers it will call.
\<close>

fun thread_owns :: "'w mgr_thread \<Rightarrow> 'w Instance list" where
  "thread_owns (M_Track i d) = [i]"
| "thread_owns (M_DeleteStop i) = [i]"
| "thread_owns (M_ShutdownStop is ds) = is"
| "thread_owns _ = []"

fun thread_uses :: "'w mgr_thread \<Rightarrow> 'w Instance list" where
  "thread_uses (M_ForkSnapshot e dir) = [entry_inst e]"
| "thread_uses (M_SnapCall i path) = [i]"
| "thread_uses t = thread_owns t"

fun thread_drivers :: "'w mgr_thread \<Rightarrow> 'w Driver list" where
  "thread_drivers (M_CreateCall d spec) = [d]"
| "thread_drivers (M_RestoreCall d path opts) = [d]"
| "thread_drivers (M_Track i d) = [d]"
| "thread_drivers (M_ForkSnapshot e dir) = [entry_driver e]"
| "thread_drivers (M_ForkRestore d dir) = [d]"
| "thread_drivers (M_ShutdownStop is ds) = ds"
| "thread_drivers _ = []"

lemma owns_uses: "set (thread_owns t) \<subseteq> set (thread_uses t)"
  by (cases t) auto

definition refs :: "'w Instance list \<Rightarrow> nat multiset" where
  "refs is = image_mset inst_ref (mset is)"

definition in_hand :: "'w mgr_thread list \<Rightarrow> nat multiset" where
  "in_hand ts = refs (concat (map thread_owns ts))"

definition tracked :: "'w Manager \<Rightarrow> nat multiset" where
  "tracked m = image_mset (\<lambda>k. inst_ref (entry_inst (the (instances m k)))) (mset_set (dom (instances m)))"

lemma refs_simps [simp]:
  "refs [] = {#}" "refs (i # is) = add_mset (inst_ref i) (refs is)" "refs (is @ js) = refs is + refs js"
  by (simp_all add: refs_def)

lemma in_hand_simps [simp]: "in_hand [] = {#}" "in_hand (t # ts) = refs (thread_owns t) + in_hand ts" "in_hand (ts @ us) = in_hand ts + in_hand us"
  by (simp_all add: in_hand_def)

lemma in_hand_update: "i < length ts \<Longrightarrow> in_hand (ts[i := t]) + refs (thread_owns (ts ! i)) = in_hand ts + refs (thread_owns t)"
proof (induction ts arbitrary: i)
  case (Cons u us)
  show ?case
  proof (cases i)
    case (Suc j)
    with Cons.prems have "j < length us" by simp
    from Cons.IH [OF this] Suc show ?thesis by (simp add: ac_simps)
  qed (simp add: ac_simps)
qed simp

lemma in_hand_elem: "x \<in># in_hand ts \<longleftrightarrow> (\<exists>t \<in> set ts. \<exists>i \<in> set (thread_owns t). inst_ref i = x)"
  by (induction ts) (auto simp: refs_def)

lemma in_hand_nth: "i < length ts \<Longrightarrow> refs (thread_owns (ts ! i)) \<subseteq># in_hand ts"
proof (induction ts arbitrary: i)
  case (Cons u us)
  then show ?case by (cases i) (auto intro: subset_mset.add_increasing)
qed simp

lemma tracked_elem:
  "finite (dom (instances m)) \<Longrightarrow> x \<in># tracked m \<longleftrightarrow> (\<exists>k e. instances m k = Some e \<and> inst_ref (entry_inst e) = x)"
  by (force simp: tracked_def)

lemma tracked_track:
  assumes "finite (dom (instances m))" "instances m (inst_ID i) = None"
  shows "tracked (track m i d) = add_mset (inst_ref i) (tracked m)"
proof -
  have "inst_ID i \<notin> dom (instances m)" using assms(2) by auto
  moreover from this have "image_mset (\<lambda>k. inst_ref (entry_inst (the (instances (track m i d) k)))) (mset_set (dom (instances m))) = tracked m"
    unfolding tracked_def by (intro image_mset_cong) (auto simp: track_def assms(1))
  ultimately show ?thesis by (simp add: tracked_def track_def assms(1))
qed

lemma tracked_delete:
  assumes "finite (dom (instances m))" "instances m sid = Some e"
  shows "tracked m = add_mset (inst_ref (entry_inst e)) (tracked (m\<lparr>instances := (instances m)(sid := None)\<rparr>))"
proof -
  have "image_mset (\<lambda>k. inst_ref (entry_inst (the (instances m k)))) (mset_set (dom (instances m) - {sid})) =
      tracked (m\<lparr>instances := (instances m)(sid := None)\<rparr>)"
    unfolding tracked_def using assms(1) by (auto intro!: image_mset_cong)
  moreover have "mset_set (dom (instances m)) = add_mset sid (mset_set (dom (instances m) - {sid}))"
    using assms by (intro mset_set.remove) auto
  ultimately show ?thesis by (simp add: tracked_def assms(2))
qed

lemma refs_range:
  "set ks \<subseteq> dom v \<Longrightarrow> refs (map entry_inst (range_vals v ks)) = image_mset (\<lambda>k. inst_ref (entry_inst (the (v k)))) (mset ks)"
  by (induction ks) auto

lemma tracked_range: "range_order (instances m) ks \<Longrightarrow> tracked m = refs (map entry_inst (range_vals (instances m) ks))"
  by (simp add: refs_range range_order_def tracked_def mset_set_set [symmetric])

lemma tracked_none [simp]: "tracked (m\<lparr>instances := Map.empty\<rparr>) = {#}" "instances m = Map.empty \<Longrightarrow> tracked m = {#}"
  by (simp_all add: tracked_def)

text \<open>
  What else a driver has to promise: pointers are never reused, and a snapshot leaves alive what was alive
  (and nothing more).
\<close>

locale owned_drivers = sandbox_drivers +
  assumes create_new: "D d \<Longrightarrow> wfw w \<Longrightarrow> drv_Create d spec w = (Ok i, w') \<Longrightarrow> handle w j \<Longrightarrow> inst_ref j \<noteq> inst_ref i"
    and restore_new: "D d \<Longrightarrow> wfw w \<Longrightarrow> drv_Restore d = Some f \<Longrightarrow> f path opts w = (Ok i, w') \<Longrightarrow> handle w j \<Longrightarrow>
      inst_ref j \<noteq> inst_ref i"
    and snapshot_live: "handle w i \<Longrightarrow> wfw w \<Longrightarrow> inst_Snapshot i path w = (r, w') \<Longrightarrow> live w' = live w"

text \<open>
  The invariant. Every live sandbox has exactly one owner: the table or a thread that will track or stop it;
  and neither owns one that was stopped before.
\<close>

definition mgr_wf ::
  "('w Driver \<Rightarrow> bool) \<Rightarrow> ('w \<Rightarrow> bool) \<Rightarrow> ('w \<Rightarrow> 'w Instance \<Rightarrow> bool) \<Rightarrow> 'w Manager \<Rightarrow> 'w \<Rightarrow> bool" where
  "mgr_wf D wfw handle m w \<longleftrightarrow>
     wfw w \<and> finite (dom (instances m)) \<and> (\<forall>n d. drivers m n = Some d \<longrightarrow> D d) \<and>
     (\<forall>sid e. instances m sid = Some e \<longrightarrow>
        handle w (entry_inst e) \<and> inst_ID (entry_inst e) = sid \<and> D (entry_driver e))"

definition thread_wf ::
  "('w Driver \<Rightarrow> bool) \<Rightarrow> ('w \<Rightarrow> 'w Instance \<Rightarrow> bool) \<Rightarrow> 'w \<Rightarrow> 'w mgr_thread \<Rightarrow> bool" where
  "thread_wf D handle w t \<longleftrightarrow>
     (\<forall>i \<in> set (thread_uses t). handle w i) \<and> (\<forall>d \<in> set (thread_drivers t). D d)"

definition conc_inv ::
  "('w Driver \<Rightarrow> bool) \<Rightarrow> ('w \<Rightarrow> bool) \<Rightarrow> ('w \<Rightarrow> nat set) \<Rightarrow> ('w \<Rightarrow> 'w Instance \<Rightarrow> bool) \<Rightarrow> 'w MgrSys \<Rightarrow> bool" where
  "conc_inv D wfw live handle s \<longleftrightarrow>
     mgr_wf D wfw handle (ms_mgr s) (ms_world s) \<and>
     (\<forall>t \<in> set (ms_threads s). thread_wf D handle (ms_world s) t) \<and>
     live (ms_world s) = set_mset (tracked (ms_mgr s) + in_hand (ms_threads s)) \<and>
     (\<forall>x. count (tracked (ms_mgr s) + in_hand (ms_threads s) + mset (ms_stopped s)) x \<le> 1) \<and>
     (\<forall>x \<in> set (ms_stopped s). \<exists>i. handle (ms_world s) i \<and> inst_ref i = x)"

text \<open>
  One region, seen from the thread: it moves what it owns, stops some of it, or adds one new sandbox.
\<close>

definition region_moves ::
  "('w \<Rightarrow> nat set) \<Rightarrow> ('w \<Rightarrow> 'w Instance \<Rightarrow> bool) \<Rightarrow> 'w mgr_thread \<Rightarrow> 'w Manager \<Rightarrow> 'w \<Rightarrow> 'w mgr_thread \<Rightarrow> 'w Manager \<Rightarrow> 'w \<Rightarrow> bool" where
  "region_moves live handle t m w t' m' w' \<longleftrightarrow>
     refs (thread_owns t') + tracked m' + mset (stop_log t) = refs (thread_owns t) + tracked m \<and>
       live w' = live w - set (stop_log t) \<or>
     stop_log t = [] \<and> (\<exists>r. refs (thread_owns t') + tracked m' = add_mset r (refs (thread_owns t) + tracked m) \<and>
       live w' = insert r (live w) \<and> (\<forall>j. handle w j \<longrightarrow> inst_ref j \<noteq> r))"

context owned_drivers
begin

lemma after_make_moves:
  assumes "wfw w" "handle w \<le> handle w'" "D d" "wfw w'"
    and "\<And>i. r = Ok i \<Longrightarrow> handle w' i \<and> live w' = insert (inst_ref i) (live w) \<and> (\<forall>j. handle w j \<longrightarrow> inst_ref j \<noteq> inst_ref i)"
    and "\<not> is_ok r \<Longrightarrow> live w' = live w" and "thread_owns t = []" "stop_log t = []"
  shows "region_moves live handle t m w (after_make d r) m w' \<and>
    thread_wf D handle w' (after_make d r)"
  using assms by (cases r) (auto simp: region_moves_def thread_wf_def)

lemma restore_region_moves:
  assumes ok: "wfw w" "D d" and r: "restore_region d path opts w = (t', w')"
    and t: "thread_owns t = []" "stop_log t = []"
  shows "wfw w' \<and> handle w \<le> handle w' \<and> region_moves live handle t m w t' m w' \<and>
    thread_wf D handle w' t'"
proof (cases "drv_Restore d")
  case None
  then show ?thesis using assms by (auto simp: restore_region_def region_moves_def thread_wf_def)
next
  case (Some f)
  obtain q v where q: "f path opts w = (q, v)" by fastforce
  then have t': "t' = after_make d q" "w' = v" using r Some by (simp_all add: restore_region_def)
  show ?thesis
  proof (cases "is_ok q")
    case True
    then obtain i where i: "q = Ok i" by (auto simp: is_ok_iff)
    note post = restore_ok [OF ok(2,1) Some q [unfolded i]]
    have "\<forall>j. handle w j \<longrightarrow> inst_ref j \<noteq> inst_ref i" using restore_new [OF ok(2,1) Some q [unfolded i]] by blast
    with after_make_moves [OF ok(1) _ ok(2), of v q t m] post t show ?thesis by (simp add: t' i)
  next
    case False
    note post = restore_fail [OF ok(2,1) Some q False]
    then show ?thesis using ok t False by (cases q) (auto simp: t' region_moves_def thread_wf_def)
  qed
qed

text \<open>What holds before a region holds after it, of everything that the world's growth keeps.\<close>

lemma wf_mono:
  assumes "mgr_wf D wfw handle m w" "wfw w'" "handle w \<le> handle w'"
  shows "mgr_wf D wfw handle m w'"
  using assms by (auto simp: mgr_wf_def le_fun_def)

lemma thread_wf_mono: "thread_wf D handle w t \<Longrightarrow> handle w \<le> handle w' \<Longrightarrow> thread_wf D handle w' t"
  by (auto simp: thread_wf_def le_fun_def)

lemma wf_entry:
  assumes "mgr_wf D wfw handle m w" "instances m sid = Some e"
  shows "handle w (entry_inst e)" "D (entry_driver e)" "inst_ID (entry_inst e) = sid"
  using assms by (auto simp: mgr_wf_def)

lemma wf_driver: "mgr_wf D wfw handle m w \<Longrightarrow> drivers m n = Some d \<Longrightarrow> D d"
  by (auto simp: mgr_wf_def)

lemma wf_range:
  assumes "mgr_wf D wfw handle m w"
  shows "\<forall>e \<in> set (range_vals (instances m) ks). handle w (entry_inst e)" "\<forall>d \<in> set (range_vals (drivers m) ks). D d"
  using assms by (auto simp: mgr_wf_def set_range_vals)

definition region_result ::
  "'a mgr_thread \<Rightarrow> 'a Manager \<Rightarrow> 'a \<Rightarrow> 'a mgr_thread \<times> 'a Manager \<times> 'a \<Rightarrow> bool" where
  "region_result t m w q = (case q of (t', m', w') \<Rightarrow>
     mgr_wf D wfw handle m' w' \<and> handle w \<le> handle w' \<and> thread_wf D handle w' t' \<and> region_moves live handle t m w t' m' w')"

lemma region_keeps:
  assumes "mgr_wf D wfw handle m w" "thread_wf D handle w t'" "thread_owns t' = thread_owns t" "stop_log t = []"
  shows "region_result t m w (t', m, w)"
  using assms by (simp add: region_result_def region_moves_def)

lemma region_stop:
  assumes wf: "mgr_wf D wfw handle m w" and h: "handle w i" and s: "inst_Stop i w = (r, w')"
    and t: "stop_log t = [inst_ref i]" "refs (thread_owns t) = add_mset (inst_ref i) (refs (thread_owns t'))"
    and t': "thread_wf D handle w t'"
  shows "region_result t m w (t', m, w')"
proof -
  have w: "wfw w" using wf by (simp add: mgr_wf_def)
  note post = stop [OF h w s]
  show ?thesis
    using post t wf_mono [OF wf, of w'] thread_wf_mono [OF t', of w'] by (simp add: region_result_def region_moves_def)
qed

lemma region_make:
  assumes wf: "mgr_wf D wfw handle m w" and d: "D d" and c: "drv_Create d spec w = (r, w')"
    and t: "thread_owns t = []" "stop_log t = []"
  shows "region_result t m w (after_make d r, m, w')"
proof -
  have w: "wfw w" using wf by (simp add: mgr_wf_def)
  show ?thesis
  proof (cases r)
    case (Ok i)
    note post = create_ok [OF d w c [unfolded Ok]] and new = create_new [OF d w c [unfolded Ok]]
    then show ?thesis
      using t d wf_mono [OF wf, of w'] by (auto simp: Ok region_result_def region_moves_def thread_wf_def)
  qed (use create_fail [OF d w c] t wf_mono [OF wf, of w'] in \<open>auto simp: region_result_def region_moves_def thread_wf_def\<close>)
qed

lemma region_restore:
  assumes wf: "mgr_wf D wfw handle m w" and d: "D d" and c: "restore_region d path opts w = (t', w')"
    and t: "thread_owns t = []" "stop_log t = []"
  shows "region_result t m w (t', m, w')"
proof -
  have w: "wfw w" using wf by (simp add: mgr_wf_def)
  from restore_region_moves [OF w d c t] show ?thesis
    using wf_mono [OF wf, of w'] by (simp add: region_result_def)
qed

lemma region_snapshot:
  assumes wf: "mgr_wf D wfw handle m w" and h: "handle w i" and c: "inst_Snapshot i path w = (r, w')"
    and t: "thread_owns t = []" "stop_log t = []" "thread_wf D handle w t'" "thread_owns t' = []"
  shows "region_result t m w (t', m, w')"
proof -
  have w: "wfw w" using wf by (simp add: mgr_wf_def)
  from snapshot [OF h w c] snapshot_live [OF h w c] show ?thesis
    using t wf_mono [OF wf, of w'] thread_wf_mono [OF t(3), of w'] by (simp add: region_result_def region_moves_def)
qed

end

text \<open>Every region: the conditions are those of \<open>mgr_event_ok\<close>.\<close>

context owned_drivers
begin

lemma region_track:
  assumes "mgr_wf D wfw handle m w" "thread_wf D handle w (M_Track i d)" "instances m (inst_ID i) = None"
  shows "region_result (M_Track i d) m w (M_Done (Ok (Some i)), track m i d, w)"
  using assms tracked_track [of m i d]
  by (auto simp: region_result_def region_moves_def mgr_wf_def thread_wf_def track_def split: if_splits)

lemma region_take:
  assumes "mgr_wf D wfw handle m w" "instances m sid = Some e"
  shows "region_result (M_DeleteTake sid) m w (M_DeleteStop (entry_inst e), m\<lparr>instances := (instances m)(sid := None)\<rparr>, w)"
  using assms tracked_delete [of m sid e]
  by (auto simp: region_result_def region_moves_def mgr_wf_def thread_wf_def split: if_splits)

lemma region_shut:
  assumes wf: "mgr_wf D wfw handle m w" and "range_order (instances m) iks"
  shows "region_result M_ShutdownTake m w
    (M_ShutdownStop (map entry_inst (range_vals (instances m) iks)) (range_vals (drivers m) dks),
     m\<lparr>instances := Map.empty\<rparr>, w)"
  using wf wf_range [OF wf] tracked_range [OF assms(2)]
  by (auto simp: region_result_def region_moves_def mgr_wf_def thread_wf_def)

lemma region_close:
  assumes wf: "mgr_wf D wfw handle m w" and t: "thread_wf D handle w (M_ShutdownStop [] (d # ds))"
  shows "region_result (M_ShutdownStop [] (d # ds)) m w
    (M_ShutdownStop [] ds, m, case drv_Close d of None \<Rightarrow> w | Some c \<Rightarrow> c w)"
proof (cases "drv_Close d")
  case (Some c)
  have "D d" "wfw w" using wf t by (simp_all add: mgr_wf_def thread_wf_def)
  note post = close [OF this Some]
  then show ?thesis
    using t wf_mono [OF wf, of "c w"] by (auto simp: Some region_result_def region_moves_def thread_wf_def)
qed (use wf t in \<open>auto simp: region_result_def region_moves_def thread_wf_def\<close>)

lemma region_ok:
  assumes wf: "mgr_wf D wfw handle m w" and t: "thread_wf D handle w t"
    and "\<And>x d. t = M_Track x d \<Longrightarrow> instances m (inst_ID x) = None"
    and "t = M_ShutdownTake \<Longrightarrow> range_order (instances m) iks"
  shows "region_result t m w (mgr_region iks dks t m w)"
proof (cases t)
  case (M_CreateCall d spec)
  obtain r w' where "drv_Create d spec w = (r, w')" by fastforce
  then show ?thesis using region_make [OF wf] t by (simp add: M_CreateCall thread_wf_def)
next
  case (M_RestoreCall d path opts)
  obtain t' w' where "restore_region d path opts w = (t', w')" by fastforce
  then show ?thesis using region_restore [OF wf] t by (simp add: M_RestoreCall thread_wf_def)
next
  case (M_ForkRestore d dir)
  obtain t' w' where "restore_region d dir \<lparr>opts_Netns = []\<rparr> w = (t', w')" by fastforce
  then show ?thesis using region_restore [OF wf] t by (simp add: M_ForkRestore thread_wf_def)
next
  case (M_ForkSnapshot e dir)
  obtain r w' where r: "inst_Snapshot (entry_inst e) dir w = (r, w')" by fastforce
  have "handle w (entry_inst e)" using t by (simp add: M_ForkSnapshot thread_wf_def)
  from region_snapshot [OF wf this r] r t show ?thesis
    by (cases r) (simp_all add: M_ForkSnapshot thread_wf_def)
next
  case (M_SnapCall i path)
  obtain r w' where r: "inst_Snapshot i path w = (r, w')" by fastforce
  have "handle w i" using t by (simp add: M_SnapCall thread_wf_def)
  from region_snapshot [OF wf this r] r show ?thesis by (simp add: M_SnapCall thread_wf_def)
next
  case (M_DeleteStop i)
  obtain r w' where r: "inst_Stop i w = (r, w')" by fastforce
  have "handle w i" using t by (simp add: M_DeleteStop thread_wf_def)
  from region_stop [OF wf this r] r show ?thesis by (simp add: M_DeleteStop thread_wf_def)
next
  case (M_ShutdownStop "is" ds)
  show ?thesis
  proof (cases "is")
    case Nil
    with M_ShutdownStop show ?thesis
      using region_close [OF wf] region_keeps [OF wf] t by (cases ds) (simp_all add: thread_wf_def)
  next
    case (Cons i js)
    obtain r w' where r: "inst_Stop i w = (r, w')" by fastforce
    have h: "handle w i" and "wfw w" using t wf by (simp_all add: M_ShutdownStop Cons thread_wf_def mgr_wf_def)
    then have "r \<noteq> Panic" using stop [OF h _ r] by simp
    with region_stop [OF wf h r] r t show ?thesis
      by (cases r) (simp_all add: M_ShutdownStop Cons thread_wf_def)
  qed
qed (use assms region_keeps [OF wf] wf_driver [OF wf] wf_entry [OF wf] region_track [OF wf] region_take [OF wf] region_shut [OF wf]
     in \<open>auto simp: thread_wf_def split: option.splits\<close>)

text \<open>Every event keeps the invariant.\<close>

lemma conc_begin: "conc_inv D wfw live handle s \<Longrightarrow> conc_inv D wfw live handle (mgr_step (Begin c) s)"
proof -
  have "thread_uses (call_thread c :: 'a mgr_thread) = []" "thread_owns (call_thread c :: 'a mgr_thread) = []"
    "thread_drivers (call_thread c :: 'a mgr_thread) = []"
    by (cases c rule: call_thread.cases; simp)+
  then show "conc_inv D wfw live handle s \<Longrightarrow> ?thesis" by (simp add: conc_inv_def thread_wf_def)
qed

lemma conc_run:
  assumes inv: "conc_inv D wfw live handle s" and i: "i < length (ms_threads s)"
    and ev: "mgr_event_ok (RunMgr i iks dks) s"
  shows "conc_inv D wfw live handle (mgr_step (RunMgr i iks dks) s)"
proof -
  let ?ts = "ms_threads s" and ?m = "ms_mgr s" and ?w = "ms_world s"
  let ?t = "?ts ! i"
  obtain t' m' w' where r: "mgr_region iks dks ?t ?m ?w = (t', m', w')" by (metis prod_cases3)
  have wf: "mgr_wf D wfw handle ?m ?w" and ts: "\<forall>t \<in> set ?ts. thread_wf D handle ?w t"
    and live: "live ?w = set_mset (tracked ?m + in_hand ?ts)"
    and one: "\<And>x. count (tracked ?m + in_hand ?ts + mset (ms_stopped s)) x \<le> 1"
    and old: "\<forall>x \<in> set (ms_stopped s). \<exists>i. handle ?w i \<and> inst_ref i = x"
    using inv by (auto simp: conc_inv_def)
  have "region_result ?t ?m ?w (mgr_region iks dks ?t ?m ?w)"
    using ev i ts by (intro region_ok [OF wf]) (auto simp: mgr_event_ok_def)
  then have post: "mgr_wf D wfw handle m' w'" "handle ?w \<le> handle w'" "thread_wf D handle w' t'"
    "region_moves live handle ?t ?m ?w t' m' w'"
    by (simp_all add: r region_result_def)
  let ?ts' = "?ts[i := t']" and ?log = "stop_log ?t"
  let ?o = "tracked ?m + in_hand ?ts" and ?o' = "tracked m' + in_hand ?ts'"
  have h: "in_hand ?ts' + refs (thread_owns ?t) = in_hand ?ts + refs (thread_owns t')" by (rule in_hand_update [OF i])
  have known: "\<exists>j. handle ?w j \<and> inst_ref j = x" if x: "x \<in># ?o + mset (ms_stopped s)" for x
  proof -
    consider "x \<in># tracked ?m" | "x \<in># in_hand ?ts" | "x \<in> set (ms_stopped s)" using x by auto
    then show ?thesis
    proof cases
      case 1
      then obtain k e where "instances ?m k = Some e" "inst_ref (entry_inst e) = x"
        using wf tracked_elem [of ?m x] by (auto simp: mgr_wf_def)
      then show ?thesis using wf_entry(1) [OF wf] by blast
    next
      case 2
      then obtain t j where t: "t \<in> set ?ts" "j \<in> set (thread_owns t)" "inst_ref j = x" by (auto simp: in_hand_elem)
      then have "j \<in> set (thread_uses t)" using owns_uses by blast
      with t ts show ?thesis by (auto simp: thread_wf_def)
    qed (use old in blast)
  qed
  have goal: "live w' = set_mset ?o' \<and> (\<forall>x. count (?o' + mset (ms_stopped s @ ?log)) x \<le> 1) \<and>
    (\<forall>x \<in> set (ms_stopped s @ ?log). \<exists>j. handle ?w j \<and> inst_ref j = x)"
    using post(4) unfolding region_moves_def
  proof (elim disjE conjE exE)
    assume o: "refs (thread_owns t') + tracked m' + mset ?log = refs (thread_owns ?t) + tracked ?m"
      and l: "live w' = live ?w - set ?log"
    have "(in_hand ?ts' + refs (thread_owns ?t)) + (refs (thread_owns t') + tracked m' + mset ?log) =
        (in_hand ?ts + refs (thread_owns t')) + (refs (thread_owns ?t) + tracked ?m)"
      by (simp only: h o)
    then have eq: "?o = ?o' + mset ?log" by (simp add: ac_simps)
    have "x \<notin># mset ?log" if "x \<in># ?o'" for x
    proof
      assume "x \<in># mset ?log"
      with that have "0 < count (mset ?log) x" "0 < count ?o' x" by (simp_all only: count_greater_zero_iff)
      moreover have "count ?o' x + count (mset ?log) x \<le> 1" using one [of x] unfolding eq by simp
      ultimately show False by linarith
    qed
    then have "live w' = set_mset ?o'" unfolding l live eq by auto
    moreover have more: "?o' + mset (ms_stopped s @ ?log) = ?o + mset (ms_stopped s)" unfolding eq by (simp add: ac_simps)
    have "\<forall>x. count (?o' + mset (ms_stopped s @ ?log)) x \<le> 1" unfolding more using one by blast
    moreover have "set ?log \<subseteq> set_mset ?o" unfolding eq by simp
    then have "\<forall>x \<in> set (ms_stopped s @ ?log). \<exists>j. handle ?w j \<and> inst_ref j = x" using known by auto
    ultimately show ?thesis by blast
  next
    fix q
    assume log: "?log = []" and o: "refs (thread_owns t') + tracked m' = add_mset q (refs (thread_owns ?t) + tracked ?m)"
      and l: "live w' = insert q (live ?w)" and new: "\<forall>j. handle ?w j \<longrightarrow> inst_ref j \<noteq> q"
    have "(in_hand ?ts' + refs (thread_owns ?t)) + (refs (thread_owns t') + tracked m') =
        (in_hand ?ts + refs (thread_owns t')) + add_mset q (refs (thread_owns ?t) + tracked ?m)"
      by (simp only: h o)
    then have eq: "?o' = add_mset q ?o" by (simp add: ac_simps)
    have "q \<notin># ?o + mset (ms_stopped s)" using known new by blast
    then have "count (?o + mset (ms_stopped s)) q = 0" by (simp add: not_in_iff)
    then show ?thesis using one old l live log unfolding eq by auto
  qed
  have "thread_wf D handle w' t" if "t \<in> set ?ts'" for t
    using that post(3) thread_wf_mono [OF _ post(2)] ts set_update_subset_insert [of ?ts i t'] by blast
  moreover have "\<exists>j. handle w' j \<and> inst_ref j = x" if "\<exists>j. handle ?w j \<and> inst_ref j = x" for x
    using that post(2) by (auto simp: le_fun_def)
  ultimately show ?thesis using goal post(1) i r by (simp add: conc_inv_def)
qed

lemma conc_step:
  assumes "conc_inv D wfw live handle s" "mgr_event_ok e s"
  shows "conc_inv D wfw live handle (mgr_step e s)"
proof (cases e)
  case (RunMgr i iks dks)
  with assms conc_run [of s i iks dks] show ?thesis by (cases "i < length (ms_threads s)") auto
qed (use assms conc_begin in simp)

lemma conc_start:
  assumes "mgr_ok D wfw live handle m w" "instances m = Map.empty"
  shows "conc_inv D wfw live handle (mgr_sys m w)"
  using assms by (simp add: mgr_ok_def conc_inv_def mgr_wf_def mgr_sys_def)

lemma conc_reach:
  assumes "mgr_reach m w s" "mgr_ok D wfw live handle m w" "instances m = Map.empty"
  shows "conc_inv D wfw live handle s"
  using assms by induction (auto intro: conc_start conc_step)

end

section \<open>Calls and threads\<close>

text \<open>A thread that runs alone, and what the method of the call answers when nothing runs beside it.\<close>

fun mgr_alone ::
  "nat \<Rightarrow> string list \<Rightarrow> string list \<Rightarrow> 'w mgr_thread \<Rightarrow> 'w Manager \<Rightarrow> 'w \<Rightarrow> 'w mgr_thread \<times> 'w Manager \<times> 'w" where
  "mgr_alone 0 iks dks t m w = (t, m, w)"
| "mgr_alone (Suc n) iks dks t m w =
     (case mgr_region iks dks t m w of (t', m', w') \<Rightarrow> mgr_alone n iks dks t' m' w')"

fun call_result ::
  "string list \<Rightarrow> string list \<Rightarrow> mgr_call \<Rightarrow> 'w Manager \<Rightarrow> 'w \<Rightarrow> 'w Instance option res \<times> 'w Manager \<times> 'w" where
  "call_result iks dks (CallOp (OpCreate d spec)) m w =
     (case mgr_Create m d spec w of (r, m', w') \<Rightarrow> (map_res Some r, m', w'))"
| "call_result iks dks (CallOp (OpRestore d path opts)) m w =
     (case mgr_RestoreFrom m d path opts w of (r, m', w') \<Rightarrow> (map_res Some r, m', w'))"
| "call_result iks dks (CallOp (OpFork sid dir)) m w =
     (case mgr_Fork m sid dir w of (r, m', w') \<Rightarrow> (map_res Some r, m', w'))"
| "call_result iks dks (CallOp (OpSnapshot sid path)) m w =
     (case mgr_Snapshot m sid path w of (r, w') \<Rightarrow> (map_res (\<lambda>_. None) r, m, w'))"
| "call_result iks dks (CallOp (OpDelete sid)) m w =
     (case mgr_Delete m sid w of (r, m', w') \<Rightarrow> (map_res (\<lambda>_. None) r, m', w'))"
| "call_result iks dks CallStop m w =
     (case mgr_Shutdown m iks dks w of (r, m', w') \<Rightarrow> (map_res (\<lambda>_. None) r, m', w'))"

lemma alone_finished [simp]: "mgr_alone n iks dks (M_Done r) m w = (M_Done r, m, w)"
  by (induction n) auto

lemma alone_close:
  "mgr_alone (Suc (length ds)) iks dks (M_ShutdownStop [] ds) m w = (M_Done (Ok None), m, close_all ds w)"
  by (induction ds arbitrary: w) (auto split: option.splits)

lemma alone_stop:
  "mgr_alone (length is + Suc (length ds)) iks dks (M_ShutdownStop is ds) m w =
   (case stop_all is w of
      (Panic, w') \<Rightarrow> (M_Done Panic, m, w')
    | (_, w') \<Rightarrow> (M_Done (Ok None), m, close_all ds w'))"
proof (induction "is" arbitrary: w)
  case Nil
  then show ?case using alone_close [of ds iks dks m w] by simp
next
  case (Cons i "is")
  obtain r w' where "inst_Stop i w = (r, w')" by fastforce
  then show ?case using Cons [of w'] by (cases r) (auto split: prod.splits res.splits)
qed

lemma alone_shutdown:
  "\<exists>n. mgr_alone n iks dks M_ShutdownTake m w =
    (case mgr_Shutdown m iks dks w of (r, m', w') \<Rightarrow> (M_Done (map_res (\<lambda>_. None) r), m', w'))"
proof -
  let ?is = "map entry_inst (range_vals (instances m) iks)" and ?ds = "range_vals (drivers m) dks"
  have "mgr_alone (Suc (length ?is + Suc (length ?ds))) iks dks M_ShutdownTake m w =
      mgr_alone (length ?is + Suc (length ?ds)) iks dks (M_ShutdownStop ?is ?ds) (m\<lparr>instances := Map.empty\<rparr>) w"
    by (simp only: mgr_alone.simps(2) mgr_region.simps prod.case)
  also have "\<dots> = (case mgr_Shutdown m iks dks w of (r, m', w') \<Rightarrow> (M_Done (map_res (\<lambda>_. None) r), m', w'))"
    unfolding alone_stop by (simp add: mgr_Shutdown_def Let_def split: prod.splits res.splits)
  finally show ?thesis by blast
qed

lemma alone_op:
  "mgr_alone 4 iks dks (call_thread (CallOp c)) m w =
   (case call_result iks dks (CallOp c) m w of (r, m', w') \<Rightarrow> (M_Done r, m', w'))"
  by (cases c) (auto simp: numeral_eq_Suc restore_region_def mgr_defs Let_def split: option.splits res.splits prod.splits)

lemma alone_call:
  "\<exists>n. mgr_alone n iks dks (call_thread c) m w =
     (case call_result iks dks c m w of (r, m', w') \<Rightarrow> (M_Done r, m', w'))"
proof (cases c)
  case (CallOp x)
  then show ?thesis using alone_op [of iks dks x m w] by blast
next
  case CallStop
  then show ?thesis using alone_shutdown [of iks dks m w] by (auto split: prod.splits)
qed

section \<open>What the other calls leave alone\<close>

lemma step_threads:
  assumes "i < length (ms_threads s)"
  shows "i < length (ms_threads (mgr_step e s))"
    "(\<And>iks dks. e \<noteq> RunMgr i iks dks) \<Longrightarrow> ms_threads (mgr_step e s) ! i = ms_threads s ! i"
  using assms by (cases e; force simp: nth_append nth_list_update split: prod.splits)+

text \<open>What a thread has not yet tracked it still holds, whatever the others do.\<close>

fun mgr_run_ok :: "mgr_event list \<Rightarrow> 'w MgrSys \<Rightarrow> bool" where
  "mgr_run_ok [] s = True"
| "mgr_run_ok (e # es) s = (mgr_event_ok e s \<and> mgr_run_ok es (mgr_step e s))"

definition runs_thread :: "nat \<Rightarrow> mgr_event \<Rightarrow> bool" where
  "runs_thread i e \<longleftrightarrow> (case e of RunMgr j iks dks \<Rightarrow> j = i | _ \<Rightarrow> False)"

lemma steps_reach: "mgr_reach m w s \<Longrightarrow> mgr_run_ok es s \<Longrightarrow> mgr_reach m w (mgr_steps es s)"
  by (induction es arbitrary: s) (auto intro: mgr_reach.step)

lemma steps_thread:
  assumes "i < length (ms_threads s)" "list_all (\<lambda>e. \<not> runs_thread i e) es"
  shows "i < length (ms_threads (mgr_steps es s)) \<and> ms_threads (mgr_steps es s) ! i = ms_threads s ! i"
  using assms
proof (induction es arbitrary: s)
  case (Cons e es)
  have "\<And>iks dks. e \<noteq> RunMgr i iks dks" using Cons.prems(2) by (auto simp: runs_thread_def)
  with step_threads [OF Cons.prems(1), of e] Cons.IH [of "mgr_step e s"] Cons.prems(2) show ?case by simp
qed simp

context owned_drivers
begin

lemma conc_owner:
  assumes "conc_inv D wfw live handle s" "t \<in> set (ms_threads s)" "x \<in> set (thread_owns t)"
  shows "inst_ref x \<in> live (ms_world s)" "inst_ref x \<notin># tracked (ms_mgr s)" "inst_ref x \<notin> set (ms_stopped s)"
proof -
  have h: "inst_ref x \<in># in_hand (ms_threads s)" using assms(2,3) by (auto simp: in_hand_elem)
  then show "inst_ref x \<in> live (ms_world s)" using assms(1) by (simp add: conc_inv_def)
  have c: "count (tracked (ms_mgr s)) (inst_ref x) + count (in_hand (ms_threads s)) (inst_ref x) +
      count (mset (ms_stopped s)) (inst_ref x) \<le> 1"
    using assms(1) by (simp add: conc_inv_def)
  moreover have "0 < count (in_hand (ms_threads s)) (inst_ref x)" using h by simp
  ultimately have "count (tracked (ms_mgr s)) (inst_ref x) = 0" "count (mset (ms_stopped s)) (inst_ref x) = 0"
    by linarith+
  then show "inst_ref x \<notin># tracked (ms_mgr s)" "inst_ref x \<notin> set (ms_stopped s)"
    by (simp_all only: count_eq_zero_iff not_False_eq_True set_mset_mset)
qed

lemma conc_stopped_once: "conc_inv D wfw live handle s \<Longrightarrow> distinct (ms_stopped s)"
  unfolding distinct_count_atmost_1
proof
  fix x assume inv: "conc_inv D wfw live handle s"
  then have "count (tracked (ms_mgr s) + in_hand (ms_threads s) + mset (ms_stopped s)) x \<le> 1" by (simp only: conc_inv_def)
  then have le: "count (mset (ms_stopped s)) x \<le> 1" unfolding count_union by linarith
  show "count (mset (ms_stopped s)) x = (if x \<in> set (ms_stopped s) then 1 else 0)"
  proof (cases "x \<in> set (ms_stopped s)")
    case True
    then have "0 < count (mset (ms_stopped s)) x" by (simp only: count_greater_zero_iff set_mset_mset)
    with le have "count (mset (ms_stopped s)) x = 1" by linarith
    with True show ?thesis by simp
  qed (simp add: count_eq_zero_iff)
qed

lemma conc_quiet:
  assumes inv: "conc_inv D wfw live handle s" and "in_hand (ms_threads s) = {#}"
  shows "mgr_ok D wfw live handle (ms_mgr s) (ms_world s)"
proof -
  have "live (ms_world s) = set_mset (tracked (ms_mgr s))" and wf: "mgr_wf D wfw handle (ms_mgr s) (ms_world s)"
    using assms by (simp_all add: conc_inv_def)
  then have "live (ms_world s) = (\<lambda>e. inst_ref (entry_inst e)) ` ran (instances (ms_mgr s))"
    by (fastforce simp: tracked_elem mgr_wf_def ran_def image_iff)
  then show ?thesis using wf by (simp add: mgr_ok_def mgr_wf_def)
qed

end

end
