(* ===== verification/ProcessDriver.thy ===== *)
theory ProcessDriver
  imports FakeDriver MgrThreads
begin

text \<open>
  The development driver, \<open>pkg/driver/process/process_linux.go\<close>: a sandbox is only a record, each
  \<open>Exec\<close> runs one command in fresh namespaces. What the kernel does with that command is a
  parameter, \<open>os_run\<close>; the uid, gid, environment and the order in which the environment map is
  ranged over are parameters of the machine too.
\<close>

section \<open>Data\<close>

text \<open>What the driver asks of \<open>os/exec\<close>: \<open>exec.Cmd\<close> with its \<open>SysProcAttr\<close>.\<close>

datatype clone_flag = CLONE_NEWUSER | CLONE_NEWPID | CLONE_NEWNS | CLONE_NEWUTS | CLONE_NEWIPC

record ProcCmd =
  pc_args :: "string list"
  pc_env :: "string list"
  pc_clone :: "clone_flag list"
  pc_uid_map :: "int \<times> int \<times> int"
  pc_gid_map :: "int \<times> int \<times> int"
  pc_chroot :: string

record ProcOS =
  os_environ :: "string list"
  os_uid :: int
  os_gid :: int
  os_range :: "(string \<rightharpoonup> string) \<Rightarrow> string list"
  os_run :: "ProcCmd \<Rightarrow> run_result \<times> string \<times> string"

record proc_inst =
  pi_id :: string
  pi_spec :: "Spec option"
  pi_state :: State

record ProcWorld =
  pheap :: "nat \<rightharpoonup> proc_inst"
  pnext :: nat
  pentropy :: "8 word list list"

definition NewProcWorld :: "8 word list list \<Rightarrow> ProcWorld" where
  "NewProcWorld rnd = \<lparr>pheap = Map.empty, pnext = 0, pentropy = rnd\<rparr>"

section \<open>Operations\<close>

fun env_entries :: "(string \<rightharpoonup> string) \<Rightarrow> string list \<Rightarrow> string list" where
  "env_entries m [] = []"
| "env_entries m (k # ks) =
     (case m k of None \<Rightarrow> env_entries m ks | Some v \<Rightarrow> (k @ ''='' @ v) # env_entries m ks)"

definition envSlice :: "ProcOS \<Rightarrow> (string \<rightharpoonup> string) \<Rightarrow> string list" where
  "envSlice os m = os_environ os @ env_entries m (os_range os m)"

definition proc_State :: "nat \<Rightarrow> ProcWorld \<Rightarrow> State" where
  "proc_State a w = (case pheap w a of None \<Rightarrow> StateCreated | Some i \<Rightarrow> pi_state i)"

text \<open>
  \<open>cmd[0]\<close> panics on an empty command, \<open>i.spec.Env\<close> on a nil spec (which \<open>Create\<close> stored). An empty
  \<open>Chroot\<close> is no chroot, so setting it only for a non-empty rootfs is setting it always.
\<close>

definition proc_cmd :: "ProcOS \<Rightarrow> Spec \<Rightarrow> string list \<Rightarrow> ProcCmd" where
  "proc_cmd os spec cmd =
     \<lparr>pc_args = cmd, pc_env = envSlice os (spec_Env spec),
      pc_clone = [CLONE_NEWUSER, CLONE_NEWPID, CLONE_NEWNS, CLONE_NEWUTS, CLONE_NEWIPC],
      pc_uid_map = (0, os_uid os, 1), pc_gid_map = (0, os_gid os, 1),
      pc_chroot = spec_Rootfs spec\<rparr>"

definition proc_Exec ::
  "ProcOS \<Rightarrow> nat \<Rightarrow> string list \<Rightarrow> ProcWorld \<Rightarrow> int res \<times> string \<times> string \<times> ProcWorld" where
  "proc_Exec os a cmd w =
     (case cmd of
        [] \<Rightarrow> (Panic, [], [], w)
      | c0 # cargs \<Rightarrow>
          (case pheap w a of
             None \<Rightarrow> (Panic, [], [], w)
           | Some i \<Rightarrow>
               (case pi_spec i of
                  None \<Rightarrow> (Panic, [], [], w)
                | Some spec \<Rightarrow>
                    (case os_run os (proc_cmd os spec cmd) of
                       (RunExit c, out, errout) \<Rightarrow> (Ok c, out, errout, w)
                     | (RunError e, out, errout) \<Rightarrow> (Err e, out, errout, w)
                     | (RunOk, out, errout) \<Rightarrow> (Ok 0, out, errout, w)))))"

definition proc_Snapshot :: "string \<Rightarrow> ProcWorld \<Rightarrow> unit res \<times> ProcWorld" where
  "proc_Snapshot path w = (Err ErrNotSupported, w)"

definition proc_Stop :: "nat \<Rightarrow> ProcWorld \<Rightarrow> unit res \<times> ProcWorld" where
  "proc_Stop a w =
     (case pheap w a of
        None \<Rightarrow> (Panic, w)
      | Some i \<Rightarrow> (Ok (), w\<lparr>pheap := (pheap w)(a \<mapsto> i\<lparr>pi_state := StateStopped\<rparr>)\<rparr>))"

definition proc_instance :: "ProcOS \<Rightarrow> nat \<Rightarrow> string \<Rightarrow> ProcWorld Instance" where
  "proc_instance os a sid = \<lparr>inst_ref = a, inst_ID = sid, inst_State = proc_State a,
     inst_Exec = proc_Exec os a, inst_Snapshot = proc_Snapshot, inst_Stop = proc_Stop a\<rparr>"

definition proc_Create ::
  "ProcOS \<Rightarrow> Spec option \<Rightarrow> ProcWorld \<Rightarrow> ProcWorld Instance res \<times> ProcWorld" where
  "proc_Create os spec w =
     (let (b, rest) = rand_Read (pentropy w)
      in (Ok (proc_instance os (pnext w) (NewID b)),
          w\<lparr>pheap := (pheap w)(pnext w \<mapsto> \<lparr>pi_id = NewID b, pi_spec = spec, pi_state = StateRunning\<rparr>),
            pnext := Suc (pnext w), pentropy := rest\<rparr>))"

text \<open>The driver implements neither \<open>Restorer\<close> nor \<open>Close\<close>.\<close>

definition process_Driver :: "ProcOS \<Rightarrow> ProcWorld Driver" where
  "process_Driver os = \<lparr>drv_Name = ''process'', drv_Create = proc_Create os, drv_Restore = None,
     drv_Close = None\<rparr>"

lemmas proc_defs [model_defs] =
  proc_State_def proc_Exec_def proc_Snapshot_def proc_Stop_def proc_instance_def proc_Create_def
  process_Driver_def

section \<open>The driver keeps the contract\<close>

definition proc_live :: "ProcWorld \<Rightarrow> nat set" where
  "proc_live w = {a. \<exists>i. pheap w a = Some i \<and> pi_state i \<noteq> StateStopped}"

definition proc_handle :: "ProcWorld \<Rightarrow> ProcWorld Instance \<Rightarrow> bool" where
  "proc_handle w i \<longleftrightarrow> (\<exists>os a. a \<in> dom (pheap w) \<and> (\<exists>sid. i = proc_instance os a sid))"

definition proc_ok :: "ProcWorld \<Rightarrow> bool" where
  "proc_ok w \<longleftrightarrow> (\<forall>a \<ge> pnext w. pheap w a = None)"

lemma proc_instance_sel [simp]:
  "inst_ref (proc_instance os a s) = a" "inst_ID (proc_instance os a s) = s"
  "inst_State (proc_instance os a s) = proc_State a" "inst_Stop (proc_instance os a s) = proc_Stop a"
  "inst_Snapshot (proc_instance os a s) = proc_Snapshot"
  "inst_Exec (proc_instance os a s) = proc_Exec os a"
  by (simp_all add: proc_instance_def)

lemma process_Driver_sel [simp]:
  "drv_Name (process_Driver os) = ''process''" "drv_Create (process_Driver os) = proc_Create os"
  "drv_Restore (process_Driver os) = None" "drv_Close (process_Driver os) = None"
  by (simp_all add: process_Driver_def)

lemma proc_handle_mono: "dom (pheap w) \<subseteq> dom (pheap w') \<Longrightarrow> proc_handle w \<le> proc_handle w'"
  unfolding proc_handle_def by (rule predicate1I) blast

lemma proc_Create_contract:
  assumes ok: "proc_ok w" and c: "proc_Create os spec w = (r, w')"
  shows "\<exists>i. r = Ok i \<and> proc_ok w' \<and> proc_handle w' i \<and> proc_handle w \<le> proc_handle w' \<and>
     inst_ref i \<notin> proc_live w \<and> proc_live w' = insert (inst_ref i) (proc_live w) \<and>
     inst_State i w' = StateRunning"
proof -
  obtain b rest where b: "rand_Read (pentropy w) = (b, rest)" by fastforce
  have none: "pheap w (pnext w) = None" using ok by (simp add: proc_ok_def)
  have r: "r = Ok (proc_instance os (pnext w) (NewID b))" and
    w': "w' = w\<lparr>pheap := (pheap w)(pnext w \<mapsto> \<lparr>pi_id = NewID b, pi_spec = spec, pi_state = StateRunning\<rparr>),
            pnext := Suc (pnext w), pentropy := rest\<rparr>"
    using c b by (simp_all add: proc_Create_def)
  have "proc_handle w \<le> proc_handle w'" by (rule proc_handle_mono) (auto simp: w')
  moreover have "proc_handle w' (proc_instance os (pnext w) (NewID b))"
    by (auto simp: proc_handle_def w')
  moreover have "proc_live w' = insert (pnext w) (proc_live w)" "pnext w \<notin> proc_live w"
    using none by (auto simp: proc_live_def w')
  ultimately show ?thesis using ok by (auto simp: r proc_ok_def proc_State_def w')
qed

lemma proc_Stop_contract:
  assumes "proc_handle w i" "proc_ok w" "inst_Stop i w = (r, w')"
  shows "proc_ok w' \<and> proc_handle w \<le> proc_handle w' \<and> proc_live w' = proc_live w - {inst_ref i} \<and>
     r \<noteq> Panic \<and> inst_State i w' = StateStopped"
proof -
  from assms(1) obtain os a s p where i: "i = proc_instance os a s" "pheap w a = Some p"
    by (auto simp: proc_handle_def)
  with assms(3) have "r = Ok ()" and
    w': "w' = w\<lparr>pheap := (pheap w)(a \<mapsto> p\<lparr>pi_state := StateStopped\<rparr>)\<rparr>"
    by (simp_all add: proc_Stop_def)
  moreover have "proc_handle w \<le> proc_handle w'" by (rule proc_handle_mono) (auto simp: w')
  ultimately show ?thesis
    using assms(2) i by (auto simp: proc_ok_def proc_live_def proc_State_def split: if_splits)
qed

interpretation proc: sandbox_drivers
  "\<lambda>d. \<exists>os. d = process_Driver os" proc_ok proc_live proc_handle
proof
  fix d :: "ProcWorld Driver" and w w' spec i
  assume "\<exists>os. d = process_Driver os" "proc_ok w" "drv_Create d spec w = (Ok i, w')"
  then show "proc_ok w' \<and> proc_handle w' i \<and> proc_handle w \<le> proc_handle w' \<and>
     inst_ref i \<notin> proc_live w \<and> proc_live w' = insert (inst_ref i) (proc_live w) \<and>
     inst_State i w' = StateRunning"
    by (auto dest: proc_Create_contract)
next
  fix d :: "ProcWorld Driver" and w w' spec q
  assume "\<exists>os. d = process_Driver os" "proc_ok w" "drv_Create d spec w = (q, w')" "\<not> is_ok q"
  then show "proc_ok w' \<and> proc_handle w \<le> proc_handle w' \<and> proc_live w' = proc_live w"
    by (auto dest: proc_Create_contract)
next
  fix w w' :: ProcWorld and i path r
  assume "proc_handle w i" "proc_ok w" "inst_Snapshot i path w = (r, w')"
  then show "proc_ok w' \<and> proc_handle w \<le> proc_handle w' \<and> proc_live w' \<subseteq> insert (inst_ref i) (proc_live w)"
    by (auto simp: proc_handle_def proc_Snapshot_def)
next
  fix w w' :: ProcWorld and i cmd code out errout
  assume "proc_handle w i" "proc_ok w" and x: "inst_Exec i cmd w = (code, out, errout, w')"
  then obtain os a sid where "i = proc_instance os a sid" by (auto simp: proc_handle_def)
  with x have "w' = w" by (auto simp: proc_Exec_def split: list.splits result_splits run_result.splits)
  with \<open>proc_ok w\<close> show "proc_ok w' \<and> proc_handle w \<le> proc_handle w' \<and> proc_live w' \<subseteq> proc_live w"
    by simp
qed (auto dest: proc_Stop_contract)

text \<open>Sandboxes are records at ever new addresses, and a snapshot is refused: the stronger contract holds too.\<close>

interpretation proc_owned: owned_drivers
  "\<lambda>d. \<exists>os. d = process_Driver os" proc_ok proc_live proc_handle
proof
  fix d :: "ProcWorld Driver" and w w' spec i j
  assume "\<exists>os. d = process_Driver os" "proc_ok w" "drv_Create d spec w = (Ok i, w')" "proc_handle w j"
  then show "inst_ref j \<noteq> inst_ref i"
    by (auto simp: proc_Create_def proc_ok_def proc_handle_def split: prod.splits)
next
  fix w w' :: ProcWorld and i path r
  assume "proc_handle w i" "proc_ok w" "inst_Snapshot i path w = (r, w')"
  then show "proc_live w' = proc_live w" by (auto simp: proc_handle_def proc_Snapshot_def)
qed auto

section \<open>Properties of the Manager on the process driver\<close>

definition proc_manager :: "ProcOS \<Rightarrow> ProcWorld Manager" where
  "proc_manager os = RegisterDriver NewManager (process_Driver os)"

lemma proc_manager_ok:
  "mgr_ok (\<lambda>d. \<exists>os. d = process_Driver os) proc_ok proc_live proc_handle
     (proc_manager os) (NewProcWorld rnd)"
  by (auto simp: mgr_ok_def proc_manager_def RegisterDriver_def NewManager_def NewProcWorld_def
      proc_ok_def proc_live_def split: if_splits)

text \<open>
  On the process driver every live sandbox is tracked after any run with distinct identifiers,
  \<open>Shutdown\<close> stops them all, and a fork of a tracked sandbox answers \<open>ErrNotSupported\<close> with the table
  and the world unchanged, as do a snapshot and a restore.
\<close>

theorem process_manager:
  assumes "ids_fresh xs (proc_manager os) (NewProcWorld rnd)"
    and "mgr_run xs (proc_manager os) (NewProcWorld rnd) = (m, w)"
    and "instances m sid = Some e"
    and "range_order (instances m) iks" "range_order (drivers m) dks"
    and "mgr_Shutdown m iks dks w = (r, m', w')"
  shows "r = Ok () \<and> proc_live w' = {} \<and> mgr_Fork m sid dir w = (Err ErrNotSupported, m, w) \<and>
     mgr_Snapshot m sid dir w = (Err ErrNotSupported, w) \<and>
     mgr_RestoreFrom m ''process'' dir opts w = (Err ErrNotSupported, m, w)"
proof -
  note ok = proc.ok_run [OF proc_manager_ok assms(1,2)]
  note inv = proc.mgr_okD [OF ok]
  from inv(3) [OF assms(3)] have "inst_Snapshot (entry_inst e) = proc_Snapshot"
    by (auto simp: proc_handle_def)
  moreover from inv(5) [OF assms(3)] have "drv_Restore (entry_driver e) = None" by auto
  moreover have "drivers m ''process'' = Some (process_Driver os)"
    using mgr_run_drivers [OF assms(2)] by (simp add: proc_manager_def RegisterDriver_def)
  ultimately show ?thesis
    using proc.shutdown_live [OF ok assms(4-6)] assms(3)
    by (simp add: mgr_Fork_def mgr_Snapshot_def mgr_RestoreFrom_def proc_Snapshot_def)
qed

text \<open>A machine whose every command succeeds without output.\<close>

definition quiet_os :: ProcOS where
  "quiet_os = \<lparr>os_environ = [], os_uid = 1000, os_gid = 1000, os_range = (\<lambda>m. []),
     os_run = (\<lambda>c. (RunOk, [], []))\<rparr>"

lemma proc_zero_id: "NewID (replicate 6 0) = ''000000000000''"
  by code_simp

definition one_proc :: "ProcWorld Manager \<times> ProcWorld" where
  "one_proc = mgr_run [OpCreate ''process'' None] (proc_manager quiet_os) (NewProcWorld [])"

lemmas proc_example_defs =
  one_proc_def proc_manager_def RegisterDriver_def NewManager_def NewProcWorld_def mgr_defs
  proc_Create_def proc_zero_id

lemma one_proc_run:
  "ids_fresh [OpCreate ''process'' None] (proc_manager quiet_os) (NewProcWorld [])"
  "mgr_run [OpCreate ''process'' None] (proc_manager quiet_os) (NewProcWorld []) = (fst one_proc, snd one_proc)"
  "instances (fst one_proc) ''000000000000'' = Some \<lparr>entry_inst = proc_instance quiet_os 0 ''000000000000'',
     entry_driver = process_Driver quiet_os\<rparr>"
  "range_order (instances (fst one_proc)) [''000000000000'']"
  "range_order (drivers (fst one_proc)) [''process'']"
  by (auto simp: proc_example_defs range_order_def)

theorem process_manager_witness:
  "mgr_Fork (fst one_proc) ''000000000000'' ''/d'' (snd one_proc) =
     (Err ErrNotSupported, fst one_proc, snd one_proc)"
proof -
  obtain r m' w' where
    "mgr_Shutdown (fst one_proc) [''000000000000''] [''process''] (snd one_proc) = (r, m', w')"
    by (metis prod_cases3)
  from process_manager [OF one_proc_run this] show ?thesis by blast
qed

definition isolated :: "ProcOS \<Rightarrow> string \<Rightarrow> ProcCmd \<Rightarrow> bool" where
  "isolated os root c \<longleftrightarrow>
     set (pc_clone c) = {CLONE_NEWUSER, CLONE_NEWPID, CLONE_NEWNS, CLONE_NEWUTS, CLONE_NEWIPC} \<and>
     pc_uid_map c = (0, os_uid os, 1) \<and> pc_gid_map c = (0, os_gid os, 1) \<and> pc_chroot c = root"

text \<open>
  C32. Everything a process sandbox runs is isolated: \<open>Exec\<close> gives the kernel only commands that ask
  for all five new namespaces, map the caller's uid and gid, one id each, to root, and are confined
  to the rootfs of the spec, so two machines that agree on such commands give the same results. A
  command that exits with a non-zero code is a result, not an error.
\<close>

theorem process_exec_isolated:
  assumes "pheap w a = Some i" "pi_spec i = Some spec" "cmd \<noteq> []"
    and "\<And>c. isolated os (spec_Rootfs spec) c \<Longrightarrow> pc_args c = cmd \<Longrightarrow> run c = os_run os c"
  shows "proc_Exec (os\<lparr>os_run := run\<rparr>) a cmd w = proc_Exec os a cmd w \<and>
     (fst (os_run os (proc_cmd os spec cmd)) = RunExit c \<longrightarrow> fst (proc_Exec os a cmd w) = Ok c)"
proof -
  have "proc_cmd (os\<lparr>os_run := run\<rparr>) spec cmd = proc_cmd os spec cmd"
    by (simp add: proc_cmd_def envSlice_def)
  moreover have "run (proc_cmd os spec cmd) = os_run os (proc_cmd os spec cmd)"
    by (rule assms(4)) (auto simp: isolated_def proc_cmd_def)
  ultimately show ?thesis
    using assms(1-3) by (cases cmd) (auto simp: proc_Exec_def split: prod.splits)
qed

theorem process_exec_isolated_witness:
  "fst (proc_Exec (quiet_os\<lparr>os_run := (\<lambda>c. (RunExit 3, [], []))\<rparr>) 0 [''false'']
     (snd (proc_Create quiet_os (Some zero_Spec) (NewProcWorld [])))) = Ok 3"
  using process_exec_isolated [of "snd (proc_Create quiet_os (Some zero_Spec) (NewProcWorld []))" 0
      "\<lparr>pi_id = NewID (replicate 6 0), pi_spec = Some zero_Spec, pi_state = StateRunning\<rparr>" zero_Spec
      "[''false'']" "quiet_os\<lparr>os_run := (\<lambda>c. (RunExit 3, [], []))\<rparr>"
      "\<lambda>c. (RunExit 3, [], [])" 3]
  by (simp add: proc_Create_def NewProcWorld_def)

section \<open>Other systems\<close>

text \<open>The stub of \<open>process_other.go\<close> creates nothing; it keeps the contract, with no sandbox at all.\<close>

definition other_Create :: "Spec option \<Rightarrow> 'w \<Rightarrow> 'w Instance res \<times> 'w" where
  "other_Create spec w = (Err (New ''process driver requires Linux (namespaces); on macOS run inside a Linux VM'' []), w)"

definition other_Driver :: "'w Driver" where
  "other_Driver = \<lparr>drv_Name = ''process'', drv_Create = other_Create, drv_Restore = None, drv_Close = None\<rparr>"

interpretation other: owned_drivers "\<lambda>d. d = other_Driver" "\<lambda>w. True" "\<lambda>w. {}" "\<lambda>w i. False"
  by unfold_locales (auto simp: other_Driver_def other_Create_def)

end
