(* ===== verification/Json.thy ===== *)
theory Json
  imports Prelude "HOL-Library.Char_ord" "HOL-Library.List_Lexorder"
begin

text \<open>
  The part of \<open>encoding/json\<close> that the code uses to write: values, their compact rendering with Go's
  escapes, omitted empty fields, and maps, whose keys are written in byte order. Strings are byte
  strings, taken to be valid UTF-8; numbers are the integers that the structs of the code hold.
\<close>

section \<open>Values\<close>

datatype json =
    JNull
  | JBool bool
  | JNum int
  | JStr string
  | JArr "json list"
  | JObj "(string \<times> json) list"

text \<open>\<open>appendString\<close> with \<open>escapeHTML\<close>: what one byte becomes.\<close>

definition hex_nibble :: "nat \<Rightarrow> char" where
  "hex_nibble n = ''0123456789abcdef'' ! n"

definition escape_char :: "char \<Rightarrow> string" where
  "escape_char c =
     (let n = of_char c :: nat
      in if c = CHR 0x22 \<or> c = CHR 0x5C then [CHR 0x5C, c]
         else if n = 8 then CHR 0x5C # ''b''
         else if n = 12 then CHR 0x5C # ''f''
         else if n = 10 then CHR 0x5C # ''n''
         else if n = 13 then CHR 0x5C # ''r''
         else if n = 9 then CHR 0x5C # ''t''
         else if n < 32 \<or> c = CHR ''<'' \<or> c = CHR ''>'' \<or> c = CHR ''&'' then
           CHR 0x5C # ''u00'' @ [hex_nibble (n div 16), hex_nibble (n mod 16)]
         else [c])"

definition quote :: "string \<Rightarrow> string" where
  "quote s = CHR 0x22 # concat (map escape_char s) @ [CHR 0x22]"

fun render :: "json \<Rightarrow> string"
  and render_items :: "json list \<Rightarrow> string"
  and render_fields :: "(string \<times> json) list \<Rightarrow> string" where
  "render JNull = ''null''"
| "render (JBool b) = (if b then ''true'' else ''false'')"
| "render (JNum n) = Itoa n"
| "render (JStr s) = quote s"
| "render (JArr xs) = ''['' @ render_items xs @ '']''"
| "render (JObj kvs) = ''{'' @ render_fields kvs @ ''}''"
| "render_items [] = []"
| "render_items (x # xs) = render x @ (if xs = [] then [] else '','' @ render_items xs)"
| "render_fields [] = []"
| "render_fields ((k, v) # kvs) =
     quote k @ '':'' @ render v @ (if kvs = [] then [] else '','' @ render_fields kvs)"

text \<open>A field with the option \<open>omitempty\<close>.\<close>

definition omitempty :: "bool \<Rightarrow> string \<Rightarrow> json \<Rightarrow> (string \<times> json) list" where
  "omitempty zero k v = (if zero then [] else [(k, v)])"

section \<open>Maps\<close>

text \<open>A \<open>map[string]any\<close> is its list of entries in key order, each key once; \<open>m[k] = v\<close> keeps that.\<close>

fun map_put :: "string \<Rightarrow> json \<Rightarrow> (string \<times> json) list \<Rightarrow> (string \<times> json) list" where
  "map_put k v [] = [(k, v)]"
| "map_put k v ((k', v') # kvs) =
     (if k = k' then (k, v) # kvs
      else if k < k' then (k, v) # (k', v') # kvs
      else (k', v') # map_put k v kvs)"

lemma map_of_put [simp]: "map_of (map_put k v kvs) = (map_of kvs)(k \<mapsto> v)"
  by (induction k v kvs rule: map_put.induct) auto

lemma keys_put: "set (map fst (map_put k v kvs)) = insert k (set (map fst kvs))"
  by (induction k v kvs rule: map_put.induct) auto

lemma sorted_put:
  "sorted (map fst kvs) \<Longrightarrow> distinct (map fst kvs) \<Longrightarrow>
   sorted (map fst (map_put k v kvs)) \<and> distinct (map fst (map_put k v kvs))"
proof (induction k v kvs rule: map_put.induct)
  case (2 k v k' v' kvs)
  then show ?case using keys_put [of k v kvs] by (auto simp: less_le)
qed simp

end
