(* ===== verification/ChClient.thy ===== *)
theory ChClient
  imports Filepath Json
begin

text \<open>
  How the Cloud Hypervisor driver talks to its VMM: the REST client over the API socket
  (\<open>client.go\<close>), the hand-framed request that carries file descriptors (\<open>restore_fds.go\<close>) and the
  \<open>CONNECT\<close> handshake of the hybrid vsock (\<open>hvsock.go\<close>). What the sockets answer is a parameter.
\<close>

section \<open>Messages\<close>

record CPUsConfig =
  BootVCPUs :: int
  MaxVCPUs :: int

record MemoryConfig =
  mem_Size :: "64 word"
  mem_Shared :: bool

record PayloadConfig =
  pl_Kernel :: string
  pl_Cmdline :: string

record DiskConfig =
  disk_Path :: string
  disk_Readonly :: bool

record NetDevice =
  nd_Tap :: string
  nd_MAC :: string
  nd_NumFDs :: nat
  nd_ID :: string

record VsockConfig =
  vs_CID :: nat
  vs_Socket :: string

record ConsoleCfg =
  con_Mode :: string
  con_File :: string

record VMConfig =
  vm_CPUs :: CPUsConfig
  vm_Memory :: MemoryConfig
  vm_Payload :: PayloadConfig
  vm_Disks :: "DiskConfig list"
  vm_Net :: "NetDevice list"
  vm_Vsock :: "VsockConfig option"
  vm_Serial :: "ConsoleCfg option"
  vm_Console :: "ConsoleCfg option"

record SnapshotConfig =
  sn_DestinationURL :: string

definition MemoryRestoreCopy :: string where "MemoryRestoreCopy = ''Copy''"
definition MemoryRestoreOnDemand :: string where "MemoryRestoreOnDemand = ''OnDemand''"

record RestoredNetConfig =
  rn_ID :: string
  rn_NumFDs :: nat

record RestoreConfig =
  rc_SourceURL :: string
  rc_MemoryRestoreMode :: string
  rc_Resume :: bool
  rc_NetFDs :: "RestoredNetConfig list"

text \<open>The structs as JSON, field tags and \<open>omitempty\<close> included.\<close>

definition json_CPUs :: "CPUsConfig \<Rightarrow> json" where
  "json_CPUs c = JObj [(''boot_vcpus'', JNum (BootVCPUs c)), (''max_vcpus'', JNum (MaxVCPUs c))]"

definition json_Memory :: "MemoryConfig \<Rightarrow> json" where
  "json_Memory c = JObj ((''size'', JNum (sint (mem_Size c))) #
     omitempty (\<not> mem_Shared c) ''shared'' (JBool (mem_Shared c)))"

definition json_Payload :: "PayloadConfig \<Rightarrow> json" where
  "json_Payload c = JObj ((''kernel'', JStr (pl_Kernel c)) #
     omitempty (pl_Cmdline c = []) ''cmdline'' (JStr (pl_Cmdline c)))"

definition json_Disk :: "DiskConfig \<Rightarrow> json" where
  "json_Disk c = JObj ((''path'', JStr (disk_Path c)) #
     omitempty (\<not> disk_Readonly c) ''readonly'' (JBool (disk_Readonly c)))"

definition json_NetDevice :: "NetDevice \<Rightarrow> json" where
  "json_NetDevice c = JObj (
     omitempty (nd_Tap c = []) ''tap'' (JStr (nd_Tap c)) @
     omitempty (nd_MAC c = []) ''mac'' (JStr (nd_MAC c)) @
     omitempty (nd_NumFDs c = 0) ''num_fds'' (JNum (int (nd_NumFDs c))) @
     omitempty (nd_ID c = []) ''id'' (JStr (nd_ID c)))"

definition json_Vsock :: "VsockConfig \<Rightarrow> json" where
  "json_Vsock c = JObj [(''cid'', JNum (int (vs_CID c))), (''socket'', JStr (vs_Socket c))]"

definition json_Console :: "ConsoleCfg \<Rightarrow> json" where
  "json_Console c = JObj ((''mode'', JStr (con_Mode c)) #
     omitempty (con_File c = []) ''file'' (JStr (con_File c)))"

definition json_opt :: "string \<Rightarrow> ('a \<Rightarrow> json) \<Rightarrow> 'a option \<Rightarrow> (string \<times> json) list" where
  "json_opt k f x = (case x of None \<Rightarrow> [] | Some y \<Rightarrow> [(k, f y)])"

definition json_VMConfig :: "VMConfig \<Rightarrow> json" where
  "json_VMConfig c = JObj (
     [(''cpus'', json_CPUs (vm_CPUs c)), (''memory'', json_Memory (vm_Memory c)),
      (''payload'', json_Payload (vm_Payload c))] @
     omitempty (vm_Disks c = []) ''disks'' (JArr (map json_Disk (vm_Disks c))) @
     omitempty (vm_Net c = []) ''net'' (JArr (map json_NetDevice (vm_Net c))) @
     json_opt ''vsock'' json_Vsock (vm_Vsock c) @
     json_opt ''serial'' json_Console (vm_Serial c) @
     json_opt ''console'' json_Console (vm_Console c))"

definition json_Snapshot :: "SnapshotConfig \<Rightarrow> json" where
  "json_Snapshot c = JObj [(''destination_url'', JStr (sn_DestinationURL c))]"

definition json_RestoredNet :: "RestoredNetConfig \<Rightarrow> json" where
  "json_RestoredNet c = JObj [(''id'', JStr (rn_ID c)), (''num_fds'', JNum (int (rn_NumFDs c)))]"

definition json_Restore :: "RestoreConfig \<Rightarrow> json" where
  "json_Restore c = JObj (
     [(''source_url'', JStr (rc_SourceURL c))] @
     omitempty (rc_MemoryRestoreMode c = []) ''memory_restore_mode'' (JStr (rc_MemoryRestoreMode c)) @
     omitempty (\<not> rc_Resume c) ''resume'' (JBool (rc_Resume c)) @
     omitempty (rc_NetFDs c = []) ''net_fds'' (JArr (map json_RestoredNet (rc_NetFDs c))))"

section \<open>The REST client\<close>

text \<open>
  \<open>http.Client\<close> on the socket of one VMM: a request is a method, a URL and a body with its content
  type; the answer is a transport error, or a status and the data read from the response.
\<close>

record http_request =
  hq_Method :: string
  hq_URL :: string
  hq_Body :: "string option"
  hq_ContentType :: string

datatype http_answer = HttpErr err | HttpStatus int string

type_synonym 'g http = "string \<Rightarrow> http_request \<Rightarrow> 'g \<Rightarrow> http_answer \<times> 'g"

definition is_space :: "char \<Rightarrow> bool" where
  "is_space c \<longleftrightarrow> (of_char c :: nat) \<in> {9, 10, 11, 12, 13, 32}"

definition TrimSpace :: "string \<Rightarrow> string" where
  "TrimSpace s = rev (dropWhile is_space (rev (dropWhile is_space s)))"

definition api_call ::
  "'g http \<Rightarrow> string \<Rightarrow> string \<Rightarrow> string \<Rightarrow> json option \<Rightarrow> 'g \<Rightarrow> (err + string) \<times> 'g" where
  "api_call http sock meth endpoint body g =
     (case http sock \<lparr>hq_Method = meth, hq_URL = ''http://localhost/api/v1/'' @ endpoint,
          hq_Body = map_option render body,
          hq_ContentType = (if body = None then [] else ''application/json'')\<rparr> g of
        (HttpErr e, g') \<Rightarrow> (Inl (Wrapf ''ch %s: %w'' [endpoint] e), g')
      | (HttpStatus code data, g') \<Rightarrow>
          if code < 200 \<or> code > 299 then
            (Inl (New ''ch %s: HTTP %d: %s'' [endpoint, Itoa code, TrimSpace data]), g')
          else (Inr data, g'))"

definition api_err ::
  "'g http \<Rightarrow> string \<Rightarrow> string \<Rightarrow> string \<Rightarrow> json option \<Rightarrow> 'g \<Rightarrow> err option \<times> 'g" where
  "api_err http sock meth endpoint body g =
     (case api_call http sock meth endpoint body g of
        (Inl e, g') \<Rightarrow> (Some e, g')
      | (Inr _, g') \<Rightarrow> (None, g'))"

definition api_Ping :: "'g http \<Rightarrow> string \<Rightarrow> 'g \<Rightarrow> err option \<times> 'g" where
  "api_Ping http sock = api_err http sock ''GET'' ''vmm.ping'' None"

definition CreateVM :: "'g http \<Rightarrow> string \<Rightarrow> VMConfig \<Rightarrow> 'g \<Rightarrow> err option \<times> 'g" where
  "CreateVM http sock cfg = api_err http sock ''PUT'' ''vm.create'' (Some (json_VMConfig cfg))"

definition BootVM :: "'g http \<Rightarrow> string \<Rightarrow> 'g \<Rightarrow> err option \<times> 'g" where
  "BootVM http sock = api_err http sock ''PUT'' ''vm.boot'' None"

definition PauseVM :: "'g http \<Rightarrow> string \<Rightarrow> 'g \<Rightarrow> err option \<times> 'g" where
  "PauseVM http sock = api_err http sock ''PUT'' ''vm.pause'' None"

definition ResumeVM :: "'g http \<Rightarrow> string \<Rightarrow> 'g \<Rightarrow> err option \<times> 'g" where
  "ResumeVM http sock = api_err http sock ''PUT'' ''vm.resume'' None"

definition SnapshotVM :: "'g http \<Rightarrow> string \<Rightarrow> string \<Rightarrow> 'g \<Rightarrow> err option \<times> 'g" where
  "SnapshotVM http sock destURL =
     api_err http sock ''PUT'' ''vm.snapshot'' (Some (json_Snapshot \<lparr>sn_DestinationURL = destURL\<rparr>))"

definition RestoreVM :: "'g http \<Rightarrow> string \<Rightarrow> RestoreConfig \<Rightarrow> 'g \<Rightarrow> err option \<times> 'g" where
  "RestoreVM http sock cfg = api_err http sock ''PUT'' ''vm.restore'' (Some (json_Restore cfg))"

definition ShutdownVM :: "'g http \<Rightarrow> string \<Rightarrow> 'g \<Rightarrow> err option \<times> 'g" where
  "ShutdownVM http sock = api_err http sock ''PUT'' ''vm.shutdown'' None"

definition ShutdownVMM :: "'g http \<Rightarrow> string \<Rightarrow> 'g \<Rightarrow> err option \<times> 'g" where
  "ShutdownVMM http sock = api_err http sock ''PUT'' ''vmm.shutdown'' None"

text \<open>\<open>unmarshal\<close> is the decoder of a JSON object; an empty answer leaves the map nil.\<close>

definition VMInfo ::
  "(string \<Rightarrow> err + (string \<times> json) list) \<Rightarrow> 'g http \<Rightarrow> string \<Rightarrow> 'g \<Rightarrow>
   (err + (string \<times> json) list) \<times> 'g" where
  "VMInfo unmarshal http sock g =
     (case api_call http sock ''GET'' ''vm.info'' None g of
        (Inl e, g') \<Rightarrow> (Inl e, g')
      | (Inr data, g') \<Rightarrow> (if length data > 0 then unmarshal data else Inr [], g'))"

lemmas api_defs [model_defs] =
  api_Ping_def CreateVM_def BootVM_def PauseVM_def ResumeVM_def SnapshotVM_def RestoreVM_def
  ShutdownVM_def ShutdownVMM_def

section \<open>Requests that carry file descriptors\<close>

text \<open>
  The socket as this code uses it: dialling; the first write, with the descriptors attached, which
  may take fewer bytes than it was given; the plain write of the rest; and one read.
\<close>

record fd_sys =
  fs_dial :: "err option"
  fs_send :: "string \<Rightarrow> nat list \<Rightarrow> err + nat"
  fs_write :: "string \<Rightarrow> err option"
  fs_read :: "string \<times> err option"

datatype fd_io = SentFDs string "nat list" | Sent string

definition CRLF :: string where
  "CRLF = [CHR 0x0D, CHR 0x0A]"

definition writeWithFDs :: "fd_sys \<Rightarrow> string \<Rightarrow> nat list \<Rightarrow> err option \<times> fd_io list" where
  "writeWithFDs sys data fds =
     (case fs_send sys data fds of
        Inl e \<Rightarrow> (Some e, [])
      | Inr n \<Rightarrow> (None, [SentFDs (take n data) fds]))"

fun cut :: "string \<Rightarrow> string \<Rightarrow> string" where
  "cut sep [] = []"
| "cut sep (c # cs) = (if HasPrefix (c # cs) sep then [] else c # cut sep cs)"

text \<open>\<open>SplitN (s, '' '', 3)\<close>.\<close>

definition split1 :: "char \<Rightarrow> string \<Rightarrow> string \<times> string option" where
  "split1 c s = (takeWhile (\<lambda>x. x \<noteq> c) s,
     (case dropWhile (\<lambda>x. x \<noteq> c) s of [] \<Rightarrow> None | _ # t \<Rightarrow> Some t))"

definition SplitN3 :: "string \<Rightarrow> string list" where
  "SplitN3 s =
     (case split1 (CHR '' '') s of
        (a, None) \<Rightarrow> [a]
      | (a, Some r) \<Rightarrow> (case split1 (CHR '' '') r of (b, None) \<Rightarrow> [a, b] | (b, Some t) \<Rightarrow> [a, b, t]))"

definition readHTTPStatus :: "fd_sys \<Rightarrow> err option" where
  "readHTTPStatus sys =
     (case fs_read sys of
        (buf, e) \<Rightarrow>
          if e \<noteq> None \<and> length buf = 0 then Some (Wrapf ''read restore response: %w'' [] (the e))
          else
            (let statusLine = cut CRLF buf; fields = SplitN3 statusLine
             in if length fields < 2 then Some (New ''malformed restore response: %q'' [statusLine])
                else if fields ! 1 \<in> {''200'', ''201'', ''204''} then None
                else Some (New ''restore failed: %s'' [statusLine])))"

definition fd_reqLine :: "string \<Rightarrow> string" where
  "fd_reqLine endpoint =
     ''PUT /api/v1/'' @ endpoint @ '' HTTP/1.1'' @ CRLF @ ''Host: localhost'' @ CRLF @
     ''Accept: */*'' @ CRLF"

definition fd_rest :: "string \<Rightarrow> string" where
  "fd_rest body = ''Content-Length: '' @ Itoa (int (length body)) @ CRLF @ CRLF @ body"

definition apiCallWithFDs :: "fd_sys \<Rightarrow> string \<Rightarrow> string \<Rightarrow> nat list \<Rightarrow> err option \<times> fd_io list" where
  "apiCallWithFDs sys endpoint body fds =
     (case fs_dial sys of
        Some e \<Rightarrow> (Some (Wrapf ''dial CH api socket: %w'' [] e), [])
      | None \<Rightarrow>
          (case writeWithFDs sys (fd_reqLine endpoint) fds of
             (Some e, io) \<Rightarrow> (Some (Wrapf ''send %s request line + fds: %w'' [endpoint] e), io)
           | (None, io) \<Rightarrow>
               (case fs_write sys (fd_rest body) of
                  Some e \<Rightarrow> (Some (Wrapf ''send %s body: %w'' [endpoint] e), io)
                | None \<Rightarrow> (readHTTPStatus sys, io @ [Sent (fd_rest body)]))))"

definition RestoreVMWithFDs :: "fd_sys \<Rightarrow> RestoreConfig \<Rightarrow> nat list \<Rightarrow> err option \<times> fd_io list" where
  "RestoreVMWithFDs sys cfg fds = apiCallWithFDs sys ''vm.restore'' (render (json_Restore cfg)) fds"

definition AddNetWithFDs :: "fd_sys \<Rightarrow> NetDevice \<Rightarrow> nat list \<Rightarrow> err option \<times> fd_io list" where
  "AddNetWithFDs sys dev fds = apiCallWithFDs sys ''vm.add-net'' (render (json_NetDevice dev)) fds"

section \<open>The hybrid vsock\<close>

text \<open>
  The unix socket behind the guest's vsock: \<open>hv_in\<close> is what its successive reads deliver, each a
  non-empty chunk of at most the 4096 bytes that \<open>bufio\<close> asks for, and \<open>hv_eof\<close> the error after the last.
\<close>

record hv_sys =
  hv_dial :: "err option"
  hv_deadline :: "err option"
  hv_send :: "string \<Rightarrow> err option"
  hv_in :: "string list"
  hv_eof :: err
  hv_clear :: "err option"

text \<open>
  \<open>ReadString\<close> up to the newline: the line, what stays behind in the buffer of the reader, and the
  chunks not read yet; or the bytes so far when the stream ends.
\<close>

fun ReadLine :: "string \<Rightarrow> string list \<Rightarrow> string + string \<times> string \<times> string list" where
  "ReadLine acc [] = Inl acc"
| "ReadLine acc (chunk # chunks) =
     (case split1 (CHR 0x0A) chunk of
        (a, Some rest) \<Rightarrow> Inr (acc @ a @ [CHR 0x0A], rest, chunks)
      | (a, None) \<Rightarrow> ReadLine (acc @ a) chunks)"

text \<open>
  The result of a dial: an error, or the connection, as the chunks that its reads will deliver; and
  whether the socket is left open.
\<close>

definition DialHybridVsock :: "hv_sys \<Rightarrow> nat \<Rightarrow> (err + string list) \<times> bool" where
  "DialHybridVsock sys port =
     (case hv_dial sys of
        Some e \<Rightarrow> (Inl (Wrapf ''hybrid vsock dial: %w'' [] e), False)
      | None \<Rightarrow>
          (case hv_deadline sys of
             Some e \<Rightarrow> (Inl e, False)
           | None \<Rightarrow>
               (case hv_send sys (''CONNECT '' @ Itoa (int port) @ [CHR 0x0A]) of
                  Some e \<Rightarrow> (Inl (Wrapf ''hybrid vsock handshake send: %w'' [] e), False)
                | None \<Rightarrow>
                    (case ReadLine [] (hv_in sys) of
                       Inl _ \<Rightarrow> (Inl (Wrapf ''hybrid vsock handshake recv: %w'' [] (hv_eof sys)), False)
                     | Inr (line, buffered, chunks) \<Rightarrow>
                         if \<not> HasPrefix line ''OK '' then
                           (Inl (New ''hybrid vsock handshake rejected: %q'' [TrimSpace line]), False)
                         else
                           (case hv_clear sys of
                              Some e \<Rightarrow> (Inl e, False)
                            | None \<Rightarrow> (Inr chunks, True))))))"

section \<open>Properties\<close>

text \<open>
  A reference reader of HTTP/1.1 requests: request line, header lines up to the empty one, and as many
  bytes of body as \<open>Content-Length\<close> says; the rest of the stream comes last.
\<close>

fun take_line :: "string \<Rightarrow> (string \<times> string) option" where
  "take_line [] = None"
| "take_line (c # cs) =
     (if HasPrefix (c # cs) CRLF then Some ([], drop 2 (c # cs))
      else map_option (\<lambda>(l, r). (c # l, r)) (take_line cs))"

fun header_lines :: "nat \<Rightarrow> string \<Rightarrow> (string list \<times> string) option" where
  "header_lines 0 s = None"
| "header_lines (Suc n) s =
     (case take_line s of
        None \<Rightarrow> None
      | Some (l, r) \<Rightarrow>
          if l = [] then Some ([], r) else map_option (\<lambda>(ls, r'). (l # ls, r')) (header_lines n r))"

definition parse_request :: "string \<Rightarrow> (string \<times> string \<times> string \<times> string) option" where
  "parse_request s =
     (case take_line s of
        None \<Rightarrow> None
      | Some (rl, r) \<Rightarrow>
          (case SplitN3 rl of
             [m, p, v] \<Rightarrow>
               (case header_lines (length s) r of
                  None \<Rightarrow> None
                | Some (hs, b) \<Rightarrow>
                    (case find (\<lambda>h. HasPrefix h ''Content-Length: '') hs of
                       None \<Rightarrow> None
                     | Some h \<Rightarrow>
                         (let n = atou 0 (TrimPrefix h ''Content-Length: '')
                          in if n \<le> length b then Some (m, p, take n b, drop n b) else None)))
           | _ \<Rightarrow> None))"

lemma CRLF_simps [simp]: "CRLF = [CHR 0x0D, CHR 0x0A]"
  by (simp add: CRLF_def)

lemma take_line_append [simp]: "CHR 0x0D \<notin> set l \<Longrightarrow> take_line (l @ CHR 0x0D # CHR 0x0A # r) = Some (l, r)"
  by (induction l) auto

lemma cut_CRLF: "CHR 0x0D \<notin> set l \<Longrightarrow> cut CRLF (l @ CHR 0x0D # CHR 0x0A # r) = l"
  by (induction l) auto

lemma split1_plain: "c \<notin> set a \<Longrightarrow> split1 c (a @ c # r) = (a, Some r)"
proof -
  assume "c \<notin> set a"
  then have "\<forall>x \<in> set a. x \<noteq> c" by blast
  then show ?thesis by (simp add: split1_def takeWhile_append2 dropWhile_append2)
qed

lemma utoa_no_ctrl: "CHR 0x0D \<notin> set (utoa n)"
  using utoa_set [of n] by auto

lemma parse_fd_request:
  assumes "CHR 0x0D \<notin> set endpoint" "CHR '' '' \<notin> set endpoint"
  shows "parse_request (fd_reqLine endpoint @ fd_rest body) =
     Some (''PUT'', ''/api/v1/'' @ endpoint, body, [])"
proof -
  let ?d = "utoa (length body)" and ?rl = "''PUT /api/v1/'' @ endpoint @ '' HTTP/1.1''"
  let ?h1 = "''Host: localhost''" and ?h2 = "''Accept: */*''" and ?h3 = "''Content-Length: '' @ ?d"
  let ?hs = "?h1 @ CRLF @ ?h2 @ CRLF @ ?h3 @ CRLF @ CRLF @ body"
  let ?s = "fd_reqLine endpoint @ fd_rest body"
  have s: "?s = ?rl @ CHR 0x0D # CHR 0x0A # ?hs"
    by (simp add: fd_reqLine_def fd_rest_def Itoa_def)
  have rl: "take_line ?s = Some (?rl, ?hs)"
    unfolding s using assms(1) by (subst take_line_append) auto
  have sp: "SplitN3 ?rl = [''PUT'', ''/api/v1/'' @ endpoint, ''HTTP/1.1'']"
    using split1_plain [of "CHR '' ''" "''PUT''" "''/api/v1/'' @ endpoint @ '' HTTP/1.1''"]
      split1_plain [of "CHR '' ''" "''/api/v1/'' @ endpoint" "''HTTP/1.1''"] assms(2)
    by (simp add: SplitN3_def)
  have t1: "take_line ?hs = Some (?h1, ?h2 @ CRLF @ ?h3 @ CRLF @ CRLF @ body)"
    using take_line_append [of ?h1 "?h2 @ CRLF @ ?h3 @ CRLF @ CRLF @ body"] by simp
  have t2: "take_line (?h2 @ CRLF @ ?h3 @ CRLF @ CRLF @ body) = Some (?h2, ?h3 @ CRLF @ CRLF @ body)"
    using take_line_append [of ?h2 "?h3 @ CRLF @ CRLF @ body"] by simp
  have t3: "take_line (?h3 @ CRLF @ CRLF @ body) = Some (?h3, CRLF @ body)"
    using take_line_append [of ?h3 "CRLF @ body"] utoa_no_ctrl by simp
  have t4: "take_line (CRLF @ body) = Some ([], body)" by simp
  obtain k where k: "length ?s = Suc (Suc (Suc (Suc k)))"
    by (rule that [of "length ?s - 4"]) (simp add: fd_reqLine_def)
  have hl: "header_lines (length ?s) ?hs = Some ([?h1, ?h2, ?h3], body)"
    unfolding k header_lines.simps t1 t2 t3 t4 option.case prod.case by simp
  show ?thesis
    unfolding parse_request_def rl sp hl option.case prod.case list.case
    by (simp add: TrimPrefix_def atou_utoa)
qed

text \<open>
  C22. The hand-framed request is a well-formed HTTP request: read back by the reference reader, the
  bytes on the wire are a PUT of exactly the endpoint and the body and nothing after it; the
  descriptors are attached to the write that holds the whole request line; and the call succeeds
  exactly when the VMM's status line carries 200, 201 or 204.
\<close>

theorem fd_request_frame:
  assumes "CHR 0x0D \<notin> set endpoint" "CHR '' '' \<notin> set endpoint"
    and "fs_dial sys = None" "fs_send sys (fd_reqLine endpoint) fds = Inr (length (fd_reqLine endpoint))"
    and "fs_write sys (fd_rest body) = None"
    and "fs_read sys = (''HTTP/1.1 '' @ code @ '' '' @ reason @ CRLF @ tail, e)"
    and "CHR 0x0D \<notin> set (code @ reason)" "CHR '' '' \<notin> set code"
    and "apiCallWithFDs sys endpoint body fds = (r, io)"
  shows "\<exists>first rest. io = [SentFDs first fds, Sent rest] \<and>
     take_line first = Some (''PUT /api/v1/'' @ endpoint @ '' HTTP/1.1'', ''Host: localhost'' @ CRLF @ ''Accept: */*'' @ CRLF) \<and>
     parse_request (first @ rest) = Some (''PUT'', ''/api/v1/'' @ endpoint, body, []) \<and>
     (r = None \<longleftrightarrow> code \<in> {''200'', ''201'', ''204''})"
proof -
  let ?sl = "''HTTP/1.1 '' @ code @ '' '' @ reason"
  have io: "io = [SentFDs (fd_reqLine endpoint) fds, Sent (fd_rest body)]" "r = readHTTPStatus sys"
    using assms(3-5,9) by (simp_all add: apiCallWithFDs_def writeWithFDs_def)
  have "cut CRLF (fst (fs_read sys)) = ?sl"
    using cut_CRLF [of ?sl tail] assms(6,7) by simp
  moreover have "SplitN3 ?sl = [''HTTP/1.1'', code, reason]"
    using split1_plain [of "CHR '' ''" "''HTTP/1.1''" "code @ '' '' @ reason"]
      split1_plain [of "CHR '' ''" code reason] assms(8) by (simp add: SplitN3_def)
  ultimately have "r = None \<longleftrightarrow> code \<in> {''200'', ''201'', ''204''}"
    using io(2) assms(6) by (simp add: readHTTPStatus_def Let_def)
  moreover have "take_line (fd_reqLine endpoint) =
      Some (''PUT /api/v1/'' @ endpoint @ '' HTTP/1.1'', ''Host: localhost'' @ CRLF @ ''Accept: */*'' @ CRLF)"
    using take_line_append [of "''PUT /api/v1/'' @ endpoint @ '' HTTP/1.1''"
        "''Host: localhost'' @ CRLF @ ''Accept: */*'' @ CRLF"] assms(1)
    by (simp add: fd_reqLine_def)
  ultimately show ?thesis using io(1) parse_fd_request [OF assms(1,2), of body] by blast
qed

definition ok_fd_sys :: fd_sys where
  "ok_fd_sys = \<lparr>fs_dial = None, fs_send = (\<lambda>d fds. Inr (length d)), fs_write = (\<lambda>d. None),
     fs_read = (''HTTP/1.1 '' @ ''204'' @ '' '' @ ''No Content'' @ CRLF @ [], None)\<rparr>"

theorem fd_request_frame_witness:
  "\<exists>first rest. snd (apiCallWithFDs ok_fd_sys ''vm.add-net'' ''{}'' [7]) = [SentFDs first [7], Sent rest] \<and>
     parse_request (first @ rest) = Some (''PUT'', ''/api/v1/vm.add-net'', ''{}'', [])"
proof -
  have "CHR 0x0D \<notin> set ''vm.add-net''" "CHR '' '' \<notin> set ''vm.add-net''"
    "fs_dial ok_fd_sys = None"
    "fs_send ok_fd_sys (fd_reqLine ''vm.add-net'') [7] = Inr (length (fd_reqLine ''vm.add-net''))"
    "fs_write ok_fd_sys (fd_rest ''{}'') = None"
    "fs_read ok_fd_sys = (''HTTP/1.1 '' @ ''204'' @ '' '' @ ''No Content'' @ CRLF @ [], None)"
    "CHR 0x0D \<notin> set (''204'' @ ''No Content'')" "CHR '' '' \<notin> set ''204''"
    by (simp_all add: ok_fd_sys_def)
  from fd_request_frame [OF this prod.collapse [symmetric]] show ?thesis by auto
qed

lemma split1_simps:
  "split1 c [] = ([], None)"
  "split1 c (x # s) = (if x = c then ([], Some s) else apfst ((#) x) (split1 c s))"
  by (auto simp: split1_def)

lemma split1_spec:
  "split1 c s = (a, q) \<Longrightarrow> (case q of None \<Rightarrow> s = a | Some r \<Rightarrow> s = a @ c # r) \<and> c \<notin> set a"
proof (induction s arbitrary: a)
  case (Cons x s)
  obtain b q' where "split1 c s = (b, q')" by fastforce
  with Cons show ?case by (auto simp: split1_simps split: if_splits option.splits)
qed (simp add: split1_simps split: option.splits)

lemma ReadLine_spec:
  "CHR 0x0A \<notin> set acc \<Longrightarrow> ReadLine acc chunks = Inr (line, buffered, rest) \<Longrightarrow>
   acc @ concat chunks = line @ buffered @ concat rest \<and>
   line \<noteq> [] \<and> last line = CHR 0x0A \<and> CHR 0x0A \<notin> set (butlast line)"
proof (induction acc chunks rule: ReadLine.induct)
  case (2 acc chunk chunks)
  obtain a q where q: "split1 (CHR 0x0A) chunk = (a, q)" by fastforce
  show ?case
  proof (cases q)
    case None
    with split1_spec [OF q] have "chunk = a" "CHR 0x0A \<notin> set a" by auto
    with 2 q None show ?thesis by auto
  next
    case (Some r)
    with split1_spec [OF q] have "chunk = a @ CHR 0x0A # r" "CHR 0x0A \<notin> set a" by auto
    with 2 q Some show ?thesis by (auto simp: butlast_append)
  qed
qed simp

text \<open>
  A dial of the hybrid vsock leaves the socket open exactly when it returns a connection, and then
  the VMM answered one line that starts with OK; what the connection delivers is the stream after that
  line, less the bytes that arrived in the same read as the end of the line: those stay in the
  discarded buffer of the reader and are lost.
\<close>

theorem dial_handshake:
  assumes "DialHybridVsock sys port = (r, opened)"
  shows "(opened \<longleftrightarrow> (\<exists>chunks. r = Inr chunks)) \<and>
     (\<forall>chunks. r = Inr chunks \<longrightarrow>
        (\<exists>line lost. concat (hv_in sys) = line @ lost @ concat chunks \<and>
           HasPrefix line ''OK '' \<and> last line = CHR 0x0A \<and> CHR 0x0A \<notin> set (butlast line))) \<and>
     (\<forall>lost chunks. hv_in sys = ((''OK 1'' @ [CHR 0x0A]) @ lost) # chunks \<longrightarrow> opened \<longrightarrow> r = Inr chunks)"
proof (intro conjI allI impI)
  show "opened \<longleftrightarrow> (\<exists>chunks. r = Inr chunks)"
    using assms by (auto simp: DialHybridVsock_def split: option.splits sum.splits prod.splits if_splits)
next
  fix chunks assume "r = Inr chunks"
  with assms obtain line lost where l: "ReadLine [] (hv_in sys) = Inr (line, lost, chunks)"
      "HasPrefix line ''OK ''"
    by (auto simp: DialHybridVsock_def split: option.splits sum.splits prod.splits if_splits)
  with ReadLine_spec [OF _ l(1)]
  show "\<exists>line lost. concat (hv_in sys) = line @ lost @ concat chunks \<and>
      HasPrefix line ''OK '' \<and> last line = CHR 0x0A \<and> CHR 0x0A \<notin> set (butlast line)"
    by auto
next
  fix lost chunks
  assume "hv_in sys = ((''OK 1'' @ [CHR 0x0A]) @ lost) # chunks" "opened"
  moreover have "split1 (CHR 0x0A) ((''OK 1'' @ [CHR 0x0A]) @ lost) = (''OK 1'', Some lost)"
    using split1_plain [of "CHR 0x0A" "''OK 1''" lost] by simp
  ultimately show "r = Inr chunks"
    using assms by (auto simp: DialHybridVsock_def split: option.splits if_splits)
qed

theorem dial_handshake_witness:
  "DialHybridVsock \<lparr>hv_dial = None, hv_deadline = None, hv_send = (\<lambda>_. None),
     hv_in = [(''OK 1'' @ [CHR 0x0A]) @ ''early'', ''later''], hv_eof = Ext ''EOF'', hv_clear = None\<rparr> 5000 =
   (Inr [''later''], True)"
proof -
  let ?sys = "\<lparr>hv_dial = None, hv_deadline = None, hv_send = (\<lambda>_. None),
     hv_in = [(''OK 1'' @ [CHR 0x0A]) @ ''early'', ''later''], hv_eof = Ext ''EOF'', hv_clear = None\<rparr>"
  obtain r op where d: "DialHybridVsock ?sys 5000 = (r, op)" by fastforce
  then have "op" by (auto simp: DialHybridVsock_def split1_def)
  moreover from this dial_handshake [OF d] have "r = Inr [''later'']" by simp
  ultimately show ?thesis using d by simp
qed

end
