(* ===== verification/Image.thy ===== *)
theory Image
  imports Filepath "HOL-Library.Signed_Division"
begin

text \<open>
  Packing a rootfs directory into a block image, \<open>pkg/image/image.go\<close>. Files, \<open>PATH\<close> and the
  \<open>mkfs\<close> programs are parameters, a record of the calls that the code makes on a machine state \<open>'g\<close>;
  sizes are 64-bit words, as \<open>int64\<close> is.
\<close>

section \<open>Data\<close>

type_synonym Format = string

definition FormatErofs :: Format where "FormatErofs = ''erofs''"
definition FormatExt4 :: Format where "FormatExt4 = ''ext4''"

record Options =
  opt_Format :: Format
  opt_ExtraMiB :: "64 word"

record ImageResult =
  img_Path :: string
  img_Format :: Format
  img_Bytes :: "64 word"

record FileInfo =
  fi_IsDir :: bool
  fi_Size :: "64 word"

text \<open>What \<open>Walk\<close> visits: an error, or a file that may be regular, with its size.\<close>

type_synonym walk_entry = "err + bool \<times> 64 word"

record 'g img_os =
  io_Stat :: "string \<Rightarrow> 'g \<Rightarrow> err + FileInfo"
  io_LookPath :: "string \<Rightarrow> 'g \<Rightarrow> err option"
  io_Walk :: "string \<Rightarrow> 'g \<Rightarrow> walk_entry list"
  io_MkdirAll :: "string \<Rightarrow> 'g \<Rightarrow> err option \<times> 'g"
  io_Remove :: "string \<Rightarrow> 'g \<Rightarrow> err option \<times> 'g"
  io_Create :: "string \<Rightarrow> 'g \<Rightarrow> err option \<times> 'g"
  io_Truncate :: "string \<Rightarrow> 64 word \<Rightarrow> 'g \<Rightarrow> err option \<times> 'g"
  io_Run :: "string list \<Rightarrow> 'g \<Rightarrow> err option \<times> 'g"
  io_Rename :: "string \<Rightarrow> string \<Rightarrow> 'g \<Rightarrow> err option \<times> 'g"

section \<open>Operations\<close>

fun walk_size :: "64 word \<Rightarrow> walk_entry list \<Rightarrow> err + 64 word" where
  "walk_size acc [] = Inr acc"
| "walk_size acc (Inl e # es) = Inl e"
| "walk_size acc (Inr (regular, n) # es) = walk_size (if regular then acc + n else acc) es"

definition dirSizeBytes :: "'g img_os \<Rightarrow> string \<Rightarrow> 'g \<Rightarrow> err + 64 word" where
  "dirSizeBytes os root g = walk_size 0 (io_Walk os root g)"

definition truncate :: "'g img_os \<Rightarrow> string \<Rightarrow> 64 word \<Rightarrow> 'g \<Rightarrow> err option \<times> 'g" where
  "truncate os path sz g =
     (case io_Create os path g of
        (Some e, g') \<Rightarrow> (Some e, g')
      | (None, g') \<Rightarrow> io_Truncate os path sz g')"

definition packErofs :: "'g img_os \<Rightarrow> string \<Rightarrow> string \<Rightarrow> 'g \<Rightarrow> err option \<times> 'g" where
  "packErofs os srcDir dst g =
     (case io_Run os [''mkfs.erofs'', ''-zlz4'', dst, srcDir] g of
        (Some e, g') \<Rightarrow> (Some (Wrapf ''mkfs.erofs: %w'' [] e), g')
      | (None, g') \<Rightarrow> (None, g'))"

text \<open>Arithmetic of \<open>int64\<close>: signed comparisons, division that truncates, wrapping sum and shift.\<close>

definition ext4_size :: "64 word \<Rightarrow> 64 word \<Rightarrow> 64 word" where
  "ext4_size used extraMiB =
     (let extra = (if sint extraMiB \<le> 0 then 32 else extraMiB);
          sizeMiB = word_of_int (sint used sdiv 2 ^ 20) + extra + 16;
          sizeMiB' = (if sint sizeMiB < 32 then 32 else sizeMiB)
      in push_bit 20 sizeMiB')"

definition packExt4 :: "'g img_os \<Rightarrow> string \<Rightarrow> string \<Rightarrow> 64 word \<Rightarrow> 'g \<Rightarrow> err option \<times> 'g" where
  "packExt4 os srcDir dst extraMiB g =
     (case dirSizeBytes os srcDir g of
        Inl e \<Rightarrow> (Some e, g)
      | Inr used \<Rightarrow>
          (case truncate os dst (ext4_size used extraMiB) g of
             (Some e, g1) \<Rightarrow> (Some e, g1)
           | (None, g1) \<Rightarrow>
               (case io_Run os [''mkfs.ext4'', ''-q'', ''-F'', ''-d'', srcDir, dst] g1 of
                  (Some e, g2) \<Rightarrow> (Some (Wrapf ''mkfs.ext4: %w'' [] e), g2)
                | (None, g2) \<Rightarrow> (None, g2))))"

definition pack_format :: "'g img_os \<Rightarrow> Options \<Rightarrow> 'g \<Rightarrow> Format" where
  "pack_format os opts g =
     (if opt_Format opts = [] then
        (if io_LookPath os ''mkfs.erofs'' g = None then FormatErofs else FormatExt4)
      else opt_Format opts)"

text \<open>The last \<open>Stat\<close> ignores its error, and \<open>st.Size()\<close> then panics on nil.\<close>

definition PackDir ::
  "'g img_os \<Rightarrow> string \<Rightarrow> string \<Rightarrow> Options \<Rightarrow> 'g \<Rightarrow> ImageResult res \<times> 'g" where
  "PackDir os srcDir dstImage opts g =
     (case io_Stat os srcDir g of
        Inl e \<Rightarrow> (Err (Wrapf ''source rootfs: %w'' [] e), g)
      | Inr info \<Rightarrow>
          if \<not> fi_IsDir info then (Err (New ''source rootfs %s is not a directory'' [srcDir]), g)
          else
            (let format = pack_format os opts g; tmp = dstImage @ ''.tmp''
             in case io_MkdirAll os (Dir dstImage) g of
                  (Some e, g1) \<Rightarrow> (Err e, g1)
                | (None, g1) \<Rightarrow>
                    (let g2 = snd (io_Remove os tmp g1)
                     in case (if format = FormatErofs then packErofs os srcDir tmp g2
                              else if format = FormatExt4 then packExt4 os srcDir tmp (opt_ExtraMiB opts) g2
                              else (Some (New ''unknown image format %q'' [format]), g2)) of
                          (Some e, g3) \<Rightarrow> (Err e, g3)
                        | (None, g3) \<Rightarrow>
                            (case io_Rename os tmp dstImage g3 of
                               (Some e, g4) \<Rightarrow> (Err e, snd (io_Remove os tmp g4))
                             | (None, g4) \<Rightarrow>
                                 (case io_Stat os dstImage g4 of
                                    Inl _ \<Rightarrow> (Panic, g4)
                                  | Inr st \<Rightarrow>
                                      (Ok \<lparr>img_Path = dstImage, img_Format = format, img_Bytes = fi_Size st\<rparr>, g4))))))"

section \<open>Properties\<close>

lemma sint_of_int64: "- (2 ^ 63) \<le> n \<Longrightarrow> n < 2 ^ 63 \<Longrightarrow> sint (word_of_int n :: 64 word) = n"
  by (simp add: sint_sbintrunc' signed_take_bit_int_eq_self)

text \<open>
  The arithmetic: for \<open>used\<close> bytes and the effective headroom of \<open>e\<close> MiB (32 when none is asked for), as long
  as the size in bytes stays below the 64-bit range, the result is a whole number of MiB, at least 32
  MiB, and at least \<open>e + 15\<close> MiB more than the content.
\<close>

lemma ext4_size_headroom:
  assumes "e = (if sint extra \<le> 0 then 32 else sint extra)"
    and "0 \<le> sint used" "sint used + (e + 17) * 2 ^ 20 < 2 ^ 63"
  shows "sint (ext4_size used extra) = max 32 (sint used div 2 ^ 20 + e + 16) * 2 ^ 20 \<and>
     sint used + (e + 15) * 2 ^ 20 \<le> sint (ext4_size used extra) \<and>
     32 * 2 ^ 20 \<le> sint (ext4_size used extra)"
proof -
  let ?u = "sint used div 2 ^ 20"
  define n where "n = ?u + e + 16"
  have e: "0 < e" using assms(1) by (simp split: if_splits)
  have extra: "(if sint extra \<le> 0 then 32 else extra) = word_of_int e"
    using assms(1) by simp
  have u: "sint used sdiv 2 ^ 20 = ?u"
    using assms(2) by (cases "sint used = 0") (simp_all add: signed_divide_int_def sgn_if)
  have u_bounds: "0 \<le> ?u" "?u * 2 ^ 20 \<le> sint used" "sint used < (?u + 1) * 2 ^ 20"
    using assms(2) div_mult_mod_eq [of "sint used" "2 ^ 20"]
      pos_mod_bound [of "2 ^ 20" "sint used"] pos_mod_sign [of "2 ^ 20" "sint used"]
    by (simp_all add: pos_imp_zdiv_nonneg_iff)
  have n: "0 < n" "n * 2 ^ 20 < 2 ^ 63" using assms(3) u_bounds e by (auto simp: n_def)
  have mib: "word_of_int (sint used sdiv 2 ^ 20) + (if sint extra \<le> 0 then 32 else extra) + 16 = (word_of_int n :: 64 word)"
    unfolding extra u n_def by simp
  have "sint (word_of_int n :: 64 word) = n" using n by (intro sint_of_int64) auto
  then have "ext4_size used extra = push_bit 20 (word_of_int (max 32 n))"
    unfolding ext4_size_def mib Let_def by (auto simp: max_def)
  also have "\<dots> = word_of_int (max 32 n * 2 ^ 20)"
    by (simp add: push_bit_eq_mult)
  finally have sz: "ext4_size used extra = word_of_int (max 32 n * 2 ^ 20)" .
  have "sint (ext4_size used extra) = max 32 n * 2 ^ 20"
    unfolding sz using n by (intro sint_of_int64) (auto simp: max_def)
  then show ?thesis using u_bounds e by (auto simp: n_def max_def)
qed

text \<open>A machine that logs what the code does to the file system; \<open>out\<close> gives each outcome.\<close>

datatype img_act =
    ImMkdir string
  | ImRemove string
  | ImCreate string
  | ImTruncate string "64 word"
  | ImRun "string list"
  | ImRename string string

definition log_act ::
  "(img_act list \<Rightarrow> img_act \<Rightarrow> err option) \<Rightarrow> img_act \<Rightarrow> img_act list \<Rightarrow> err option \<times> img_act list" where
  "log_act out a l = (out l a, l @ [a])"

definition log_img ::
  "(img_act list \<Rightarrow> img_act \<Rightarrow> err option) \<Rightarrow> img_act list img_os \<Rightarrow> img_act list img_os" where
  "log_img out base = base\<lparr>io_MkdirAll := (\<lambda>d. log_act out (ImMkdir d)),
     io_Remove := (\<lambda>f. log_act out (ImRemove f)), io_Create := (\<lambda>f. log_act out (ImCreate f)),
     io_Truncate := (\<lambda>f n. log_act out (ImTruncate f n)), io_Run := (\<lambda>c. log_act out (ImRun c)),
     io_Rename := (\<lambda>p q. log_act out (ImRename p q))\<rparr>"

text \<open>The actions that change the file \<open>dst\<close> itself.\<close>

fun changes :: "string \<Rightarrow> img_act \<Rightarrow> bool" where
  "changes dst (ImMkdir d) = False"
| "changes dst (ImRemove f) = (f = dst)"
| "changes dst (ImCreate f) = (f = dst)"
| "changes dst (ImTruncate f n) = (f = dst)"
| "changes dst (ImRun c) = (dst \<in> set (tl c))"
| "changes dst (ImRename p q) = (p = dst \<or> q = dst)"

text \<open>The packers: their log, and that the last command succeeded.\<close>

lemma packErofs_log:
  assumes "packErofs (log_img out base) src (dst @ ''.tmp'') l = (q, l')" "src \<noteq> dst" "isAbs dst"
  shows "\<exists>k. l' = l @ k \<and> filter (changes dst) k = [] \<and>
     (q = None \<longrightarrow> (\<exists>k' cmd. k = k' @ [ImRun cmd] \<and> out (l @ k') (ImRun cmd) = None \<and>
        {src, dst @ ''.tmp''} \<subseteq> set cmd))"
  using assms by (auto simp: packErofs_def log_img_def log_act_def isAbs_def split: option.splits)

lemma packExt4_log:
  assumes "packExt4 (log_img out base) src (dst @ ''.tmp'') x l = (q, l')" "src \<noteq> dst" "isAbs dst"
  shows "\<exists>k. l' = l @ k \<and> filter (changes dst) k = [] \<and>
     (q = None \<longrightarrow> (\<exists>k' cmd. k = k' @ [ImRun cmd] \<and> out (l @ k') (ImRun cmd) = None \<and>
        {src, dst @ ''.tmp''} \<subseteq> set cmd))"
  using assms
  by (auto simp: packExt4_def truncate_def log_img_def log_act_def isAbs_def split: option.splits sum.splits)

text \<open>The size of a tree: the sum of the sizes of its regular files.\<close>

definition tree_bytes :: "(bool \<times> 64 word) list \<Rightarrow> int" where
  "tree_bytes es = (\<Sum>(regular, n) \<leftarrow> es. if regular then sint n else 0)"

lemma tree_bytes_nonneg: "\<forall>(r, n) \<in> set es. 0 \<le> sint n \<Longrightarrow> 0 \<le> tree_bytes es"
  unfolding tree_bytes_def by (induction es) auto

lemma walk_size_tree:
  assumes "\<forall>(r, n) \<in> set es. 0 \<le> sint n" "0 \<le> sint acc" "sint acc + tree_bytes es < 2 ^ 63"
  shows "\<exists>u. walk_size acc (map Inr es) = Inr u \<and> sint u = sint acc + tree_bytes es"
  using assms
proof (induction es arbitrary: acc)
  case (Cons x es)
  obtain r n where x: "x = (r, n)" by (cases x)
  let ?acc = "if r then acc + n else acc"
  have nonneg: "0 \<le> sint n" "0 \<le> tree_bytes es" using Cons.prems(1) x tree_bytes_nonneg [of es] by auto
  have sum: "tree_bytes (x # es) = (if r then sint n else 0) + tree_bytes es" by (simp add: tree_bytes_def x)
  have "sint (acc + n) = sint acc + sint n" if r
  proof -
    have "acc + n = word_of_int (sint acc + sint n)" by simp
    moreover have "sint (word_of_int (sint acc + sint n) :: 64 word) = sint acc + sint n"
      using Cons.prems(2,3) sum nonneg that by (intro sint_of_int64) auto
    ultimately show ?thesis by simp
  qed
  then have acc: "sint ?acc = sint acc + (if r then sint n else 0)" by simp
  have "\<exists>u. walk_size ?acc (map Inr es) = Inr u \<and> sint u = sint ?acc + tree_bytes es"
    using Cons.prems nonneg acc sum by (intro Cons.IH) auto
  then show ?case unfolding sum acc by (simp add: x add.assoc)
qed (simp add: tree_bytes_def)

text \<open>
  C35. The file that \<open>mkfs.ext4\<close> gets has room for the tree: \<open>packExt4\<close> first adds up the regular files of
  the source, creates the image, truncates it to one size and only then runs \<open>mkfs\<close> on it; for a tree
  of \<open>bytes\<close> bytes and a headroom of \<open>e\<close> MiB (32 unless the options ask for more), that size is a whole
  number of MiB, at least 32, and at least \<open>e + 15\<close> MiB more than the bytes, as long as all sizes stay
  in the range of 64-bit integers. That room is for blocks that are partly filled, inodes and the
  metadata of the file system: it suffices for the contents alone, rounded up to blocks of 4 KiB,
  up to \<open>256 (e + 15)\<close> files. A step that fails ends it.
\<close>

theorem packExt4_sized:
  assumes "packExt4 (log_img out base) src dst extra l = (q, l')" "io_Walk base src l = map Inr es"
    and "\<forall>(r, n) \<in> set es. 0 \<le> sint n" "e = (if sint extra \<le> 0 then 32 else sint extra)"
    and "tree_bytes es + (e + 17) * 2 ^ 20 < 2 ^ 63"
  shows "\<exists>n. sint n = max 32 (tree_bytes es div 2 ^ 20 + e + 16) * 2 ^ 20 \<and>
     tree_bytes es + (e + 15) * 2 ^ 20 \<le> sint n \<and>
     (int (length es) \<le> 256 * (e + 15) \<longrightarrow> (\<Sum>(r, k) \<leftarrow> es. if r then (sint k + 4095) div 4096 * 4096 else 0) \<le> sint n) \<and>
     (let create = ImCreate dst; size = ImTruncate dst n; mkfs = ImRun [''mkfs.ext4'', ''-q'', ''-F'', ''-d'', src, dst]
      in l' = l @ (if out l create \<noteq> None then [create]
                   else if out (l @ [create]) size \<noteq> None then [create, size] else [create, size, mkfs]) \<and>
         (q = None \<longleftrightarrow> l' = l @ [create, size, mkfs] \<and> out (l @ [create, size]) mkfs = None))"
proof -
  obtain u where u: "dirSizeBytes (log_img out base) src l = Inr u" "sint u = tree_bytes es"
    using walk_size_tree [OF assms(3), of 0] assms(2,4,5) tree_bytes_nonneg [OF assms(3)]
    by (auto simp: dirSizeBytes_def log_img_def split: if_splits)
  define n where "n = ext4_size u extra"
  have size: "sint n = max 32 (tree_bytes es div 2 ^ 20 + e + 16) * 2 ^ 20 \<and> tree_bytes es + (e + 15) * 2 ^ 20 \<le> sint n"
    using ext4_size_headroom [of e extra u] assms(4,5) u(2) tree_bytes_nonneg [OF assms(3)] by (simp add: n_def)
  have "(\<Sum>(r, k) \<leftarrow> es. if r then (sint k + 4095) div 4096 * 4096 else 0) \<le> tree_bytes es + 4096 * int (length es)"
  proof (induction es)
    case (Cons x es)
    obtain r k where x: "x = (r, k)" by (cases x)
    have "(sint k + 4095) div 4096 * 4096 \<le> sint k + 4096"
      using div_mult_mod_eq [of "sint k + 4095" 4096] pos_mod_sign [of 4096 "sint k + 4095"] by linarith
    with Cons x show ?case by (auto simp: tree_bytes_def)
  qed (simp add: tree_bytes_def)
  with size have files: "int (length es) \<le> 256 * (e + 15) \<longrightarrow>
      (\<Sum>(r, k) \<leftarrow> es. if r then (sint k + 4095) div 4096 * 4096 else 0) \<le> sint n" by auto
  have "let create = ImCreate dst; size = ImTruncate dst n; mkfs = ImRun [''mkfs.ext4'', ''-q'', ''-F'', ''-d'', src, dst]
      in l' = l @ (if out l create \<noteq> None then [create]
                   else if out (l @ [create]) size \<noteq> None then [create, size] else [create, size, mkfs]) \<and>
         (q = None \<longleftrightarrow> l' = l @ [create, size, mkfs] \<and> out (l @ [create, size]) mkfs = None)"
    using assms(1) u(1)
    by (auto simp: packExt4_def n_def truncate_def log_img_def log_act_def Let_def split: option.splits)
  with size files show ?thesis by blast
qed

text \<open>
  C21. Packing replaces the image only as a whole: the destination is changed by no action but a final
  rename of the temporary file, which follows a \<open>mkfs\<close> that succeeded on that file and the source.
  The call answers with that image, or with an error: then the destination is untouched, and when it
  was the rename itself that failed the temporary file is removed. The one other outcome is a panic: when
  the image is in place but \<open>Stat\<close> fails on it, the code reads the size of a nil \<open>FileInfo\<close>. (The
  destination is an absolute path other than the source.)
\<close>

theorem PackDir_atomic:
  assumes "PackDir (log_img out base) src dst opts [] = (r, log)" "src \<noteq> dst" "isAbs dst"
  shows "let installed = filter (changes dst) log = [ImRename (dst @ ''.tmp'') dst] \<and>
       (\<exists>l0 cmd. log = l0 @ [ImRun cmd, ImRename (dst @ ''.tmp'') dst] \<and> out l0 (ImRun cmd) = None \<and>
          {src, dst @ ''.tmp''} \<subseteq> set cmd \<and> out (l0 @ [ImRun cmd]) (ImRename (dst @ ''.tmp'') dst) = None)
     in (\<forall>res. r = Ok res \<longrightarrow> img_Path res = dst \<and> installed \<and>
          (\<exists>st. io_Stat base dst log = Inr st \<and> img_Bytes res = fi_Size st)) \<and>
        (\<forall>e. r = Err e \<longrightarrow> filter (changes dst) log = [] \<or>
          (\<exists>l0. log = l0 @ [ImRename (dst @ ''.tmp'') dst, ImRemove (dst @ ''.tmp'')] \<and>
             filter (changes dst) l0 = [] \<and> out l0 (ImRename (dst @ ''.tmp'') dst) = Some e)) \<and>
        (r = Panic \<longrightarrow> installed \<and> (\<exists>e. io_Stat base dst log = Inl e))"
proof -
  let ?os = "log_img out base" and ?tmp = "dst @ ''.tmp''"
  let ?pre = "[ImMkdir (Dir dst), ImRemove ?tmp]" and ?fm = "pack_format (log_img out base) opts []"
  define pk where "pk l = (if ?fm = FormatErofs then packErofs ?os src ?tmp l
      else if ?fm = FormatExt4 then packExt4 ?os src ?tmp (opt_ExtraMiB opts) l
      else (Some (New ''unknown image format %q'' [?fm]), l))" for l
  obtain q l3 where q: "pk ?pre = (q, l3)" by fastforce
  have clean: "\<exists>k. l3 = ?pre @ k \<and> filter (changes dst) k = [] \<and>
      (q = None \<longrightarrow> (\<exists>k' cmd. k = k' @ [ImRun cmd] \<and> out (?pre @ k') (ImRun cmd) = None \<and> {src, ?tmp} \<subseteq> set cmd))"
    using q packErofs_log [OF _ assms(2,3), of out base ?pre q l3]
      packExt4_log [OF _ assms(2,3), of out base "opt_ExtraMiB opts" ?pre q l3]
    by (auto simp: pk_def split: if_splits)
  show ?thesis
    using assms(1) q clean
    by (auto simp: PackDir_def Let_def pk_def log_img_def log_act_def split: sum.splits option.splits if_splits prod.splits)
qed

text \<open>A machine with \<open>mkfs.erofs\<close> on which everything succeeds.\<close>

definition plain_img :: "img_act list img_os" where
  "plain_img = log_img (\<lambda>l a. None) \<lparr>io_Stat = (\<lambda>p l. Inr \<lparr>fi_IsDir = (p = ''/rootfs''), fi_Size = 4096\<rparr>),
     io_LookPath = (\<lambda>p l. None), io_Walk = (\<lambda>p l. []), io_MkdirAll = (\<lambda>d l. (None, l)),
     io_Remove = (\<lambda>d l. (None, l)), io_Create = (\<lambda>d l. (None, l)), io_Truncate = (\<lambda>d n l. (None, l)),
     io_Run = (\<lambda>c l. (None, l)), io_Rename = (\<lambda>p q l. (None, l))\<rparr>"

theorem PackDir_atomic_witness:
  "filter (changes ''/vm/rootfs.img'') (snd (PackDir plain_img ''/rootfs'' ''/vm/rootfs.img''
     \<lparr>opt_Format = [], opt_ExtraMiB = 0\<rparr> [])) = [ImRename ''/vm/rootfs.img.tmp'' ''/vm/rootfs.img'']"
proof -
  obtain r log where p: "PackDir plain_img ''/rootfs'' ''/vm/rootfs.img''
     \<lparr>opt_Format = [], opt_ExtraMiB = 0\<rparr> [] = (r, log)" by fastforce
  then have "\<exists>res. r = Ok res"
    by (auto simp: PackDir_def plain_img_def log_img_def log_act_def pack_format_def packErofs_def Let_def)
  with PackDir_atomic [OF p [unfolded plain_img_def]] p show ?thesis by (auto simp: isAbs_def)
qed

text \<open>The same machine without \<open>mkfs.erofs\<close>, packing a tree of one file of 100 MiB.\<close>

theorem packExt4_sized_witness:
  "\<exists>n. sint n = 148 * 2 ^ 20 \<and>
     snd (packExt4 (log_img (\<lambda>l a. None) (plain_img\<lparr>io_Walk := (\<lambda>p l. [Inr (True, 104857600), Inr (False, 4096)])\<rparr>))
       ''/rootfs'' ''/vm/i'' 0 []) = [ImCreate ''/vm/i'', ImTruncate ''/vm/i'' n, ImRun [''mkfs.ext4'', ''-q'', ''-F'', ''-d'', ''/rootfs'', ''/vm/i'']]"
proof -
  let ?b = "plain_img\<lparr>io_Walk := (\<lambda>p l. [Inr (True, 104857600), Inr (False, 4096)])\<rparr>"
  obtain q l' where p: "packExt4 (log_img (\<lambda>l a. None) ?b) ''/rootfs'' ''/vm/i'' 0 [] = (q, l')" by fastforce
  have w: "io_Walk ?b ''/rootfs'' [] = map Inr [(True, 104857600), (False, 4096)]" by simp
  have "tree_bytes [(True, 104857600), (False, 4096)] = 104857600" by (simp add: tree_bytes_def)
  with packExt4_sized [OF p w _ refl] p show ?thesis by (auto simp: Let_def)
qed

end
