(* ===== verification/VmmPool.thy ===== *)
theory VmmPool
  imports Filepath Sandbox "HOL-Library.Multiset"
begin

text \<open>
  The pool of prewarmed VMM processes, \<open>pkg/driver/cloudhypervisor/pool.go\<close>: the polling loop
  \<open>waitReady\<close>, the spawn of one process, and the pool itself, whose methods run concurrently. Each
  section of code between two lock operations is one definition; goroutines and callers are threads
  whose program counter names the next section, and an event schedules one of them.
\<close>

section \<open>waitReady\<close>

text \<open>
  \<open>now k\<close> is the clock at the \<open>k\<close>-th call of \<open>time.Now\<close>, in milliseconds; \<open>fn k\<close> is what the \<open>k\<close>-th
  probe returned; \<open>done k\<close> is \<open>ctx.Err()\<close> if the context had ended in the \<open>select\<close> after it. The
  result is the returned error; \<open>None\<close> as the outer value is a loop that never returns.
\<close>

partial_function (option) waitReady_loop ::
  "(nat \<Rightarrow> int) \<Rightarrow> int \<Rightarrow> (nat \<Rightarrow> err option) \<Rightarrow> (nat \<Rightarrow> err option) \<Rightarrow> nat \<Rightarrow> err option \<Rightarrow>
   err option option" where
  "waitReady_loop now deadline fn done k lastErr =
     (if now (Suc k) < deadline then
        (case fn k of
           None \<Rightarrow> Some None
         | Some e \<Rightarrow>
             (case done k of
                Some ce \<Rightarrow> Some (Some ce)
              | None \<Rightarrow> waitReady_loop now deadline fn done (Suc k) (Some e)))
      else Some lastErr)"

definition waitReady ::
  "(nat \<Rightarrow> int) \<Rightarrow> int \<Rightarrow> (nat \<Rightarrow> err option) \<Rightarrow> (nat \<Rightarrow> err option) \<Rightarrow> err option option" where
  "waitReady now timeout fn done = waitReady_loop now (now 0 + timeout) fn done 0 None"

declare waitReady_loop.simps [code]

text \<open>
  The clock assumption: time does not run backwards, and each round waits for \<open>time.After\<close>, at
  least 5 ms, unless the context ends.
\<close>

definition clock_ok :: "(nat \<Rightarrow> int) \<Rightarrow> bool" where
  "clock_ok now \<longleftrightarrow> now 0 \<le> now 1 \<and> (\<forall>k. now (Suc k) + 5 \<le> now (Suc (Suc k)))"

lemma waitReady_loop_returns:
  assumes "\<And>k. now (Suc k) + 5 \<le> now (Suc (Suc k))"
  shows "\<exists>r. waitReady_loop now deadline fn done k lastErr = Some r"
proof (induction "nat (deadline - now (Suc k))" arbitrary: k lastErr rule: less_induct)
  case less
  show ?case
  proof (cases "now (Suc k) < deadline")
    case True
    then have "nat (deadline - now (Suc (Suc k))) < nat (deadline - now (Suc k))"
      using assms [of k] by linarith
    from less [OF this, of "fn k"] True show ?thesis
      by (subst waitReady_loop.simps) (auto split: option.splits)
  qed (subst waitReady_loop.simps, simp)
qed

text \<open>
  What a loop that is about to make probe \<open>k\<close> ends with: success, by the first probe that answers; the
  error of the context, after a failed probe; or the error of the last probe, when the time is over
  at the test after it. Each probe is started before the deadline, and none follows the one that
  decides. \<open>tried fn done k j\<close>: the loop passes the probes from \<open>k\<close> up to \<open>j\<close>.
\<close>

definition tried :: "(nat \<Rightarrow> err option) \<Rightarrow> (nat \<Rightarrow> err option) \<Rightarrow> nat \<Rightarrow> nat \<Rightarrow> bool" where
  "tried fn done k j \<longleftrightarrow> k \<le> j \<and> (\<forall>i. k \<le> i \<and> i < j \<longrightarrow> fn i \<noteq> None \<and> done i = None)"

fun wait_result ::
  "(nat \<Rightarrow> int) \<Rightarrow> int \<Rightarrow> (nat \<Rightarrow> err option) \<Rightarrow> (nat \<Rightarrow> err option) \<Rightarrow> nat \<Rightarrow> err option \<Rightarrow> bool" where
  "wait_result now deadline fn done k None \<longleftrightarrow>
     (\<exists>j. tried fn done k j \<and> now (Suc j) < deadline \<and> fn j = None)"
| "wait_result now deadline fn done k (Some e) \<longleftrightarrow>
     (\<exists>j. tried fn done k j \<and> now (Suc j) < deadline \<and> fn j \<noteq> None \<and>
        (done j = Some e \<or> (done j = None \<and> deadline \<le> now (Suc (Suc j)) \<and> fn j = Some e)))"

lemma tried_refl [simp]: "tried fn done k k"
  by (auto simp: tried_def)

lemma tried_step: "tried fn done (Suc k) j \<Longrightarrow> fn k \<noteq> None \<Longrightarrow> done k = None \<Longrightarrow> tried fn done k j"
  by (auto simp: tried_def) (metis Suc_leI le_neq_implies_less)+

lemma wait_result_step:
  assumes "wait_result now deadline fn done (Suc k) r" "fn k \<noteq> None" "done k = None"
  shows "wait_result now deadline fn done k r"
proof (cases r)
  case None
  with assms(1) obtain j where "tried fn done (Suc k) j" "now (Suc j) < deadline \<and> fn j = None" by auto
  then show ?thesis using None tried_step assms(2,3) by fastforce
next
  case (Some e)
  with assms(1) obtain j where "tried fn done (Suc k) j" "now (Suc j) < deadline \<and> fn j \<noteq> None \<and>
        (done j = Some e \<or> (done j = None \<and> deadline \<le> now (Suc (Suc j)) \<and> fn j = Some e))" by auto
  moreover have "tried fn done k j" using tried_step [of fn "done" k j] assms(2,3) calculation(1) by simp
  ultimately show ?thesis using Some by auto
qed

lemma waitReady_loop_result:
  assumes "\<And>k. now (Suc k) + 5 \<le> now (Suc (Suc k))" "now (Suc k) < deadline"
  shows "\<exists>r. waitReady_loop now deadline fn done k lastErr = Some r \<and> wait_result now deadline fn done k r"
  using assms(2)
proof (induction "nat (deadline - now (Suc k))" arbitrary: k lastErr rule: less_induct)
  case less
  have less': "nat (deadline - now (Suc (Suc k))) < nat (deadline - now (Suc k))"
    using assms(1) [of k] less.prems by linarith
  consider "fn k = None" | e c where "fn k = Some e" "done k = Some c" | e where "fn k = Some e" "done k = None"
    by (cases "fn k"; cases "done k") auto
  then show ?case
  proof cases
    case 1
    then have "wait_result now deadline fn done k None" using less.prems by (auto intro!: exI [of _ k])
    then show ?thesis using 1 less.prems by (subst waitReady_loop.simps) simp
  next
    case 2
    then have "wait_result now deadline fn done k (Some c)"
      using less.prems by (auto intro!: exI [of _ k])
    then show ?thesis using 2 less.prems by (subst waitReady_loop.simps) simp
  next
    case 3
    show ?thesis
    proof (cases "now (Suc (Suc k)) < deadline")
      case True
      from less.hyps [OF less' True, of "Some e"] obtain r where
        r: "waitReady_loop now deadline fn done (Suc k) (Some e) = Some r" "wait_result now deadline fn done (Suc k) r"
        by blast
      have "wait_result now deadline fn done k r" by (rule wait_result_step [OF r(2)]) (simp_all add: 3)
      then show ?thesis using r(1) 3 less.prems by (subst waitReady_loop.simps) simp
    next
      case False
      then have "wait_result now deadline fn done k (Some e)"
        using less.prems 3 by (auto intro!: exI [of _ k])
      moreover have "waitReady_loop now deadline fn done (Suc k) (Some e) = Some (Some e)"
        using False by (subst waitReady_loop.simps) simp
      ultimately show ?thesis using 3 less.prems by (subst waitReady_loop.simps) simp
    qed
  qed
qed

section \<open>Spawning one VMM\<close>

text \<open>
  A handle. The API client of the code is determined by the socket path \<open>dir/api.sock\<close>.
\<close>

record vmmHandle =
  h_id :: string
  h_dir :: string
  h_pid :: nat

text \<open>
  What the machine does with the steps of a spawn: making the directory, creating the log file,
  starting the process, and answering \<open>vmm.ping\<close> on the API socket, probe by probe; each may fail.
\<close>

record spawn_env =
  se_mkdir :: "string \<Rightarrow> err option"
  se_log :: "string \<Rightarrow> err option"
  se_start :: "string list \<Rightarrow> err + nat"
  se_now :: "nat \<Rightarrow> int"
  se_ping :: "string \<Rightarrow> nat \<Rightarrow> err option"
  se_done :: "nat \<Rightarrow> err option"

text \<open>The effects a spawn has on the machine, in order.\<close>

datatype spawn_act = AMkdir string | ACreateLog string | AStart "string list" nat | AKill nat

definition startVMMPrefixed ::
  "spawn_env \<Rightarrow> string list \<Rightarrow> string \<Rightarrow> string \<Rightarrow> string \<Rightarrow> nat res \<times> spawn_act list" where
  "startVMMPrefixed env prefix binary apiSock dir =
     (case se_log env (Join [dir, ''vmm.log'']) of
        Some e \<Rightarrow> (Err e, [])
      | None \<Rightarrow>
          (let argv = prefix @ [binary, ''--api-socket'', apiSock]
           in case se_start env argv of
                Inl e \<Rightarrow> (Err (Wrapf ''start cloud-hypervisor (%v): %w'' argv e),
                          [ACreateLog (Join [dir, ''vmm.log''])])
              | Inr pid \<Rightarrow> (Ok pid, [ACreateLog (Join [dir, ''vmm.log'']), AStart argv pid])))"

definition startVMM ::
  "spawn_env \<Rightarrow> string \<Rightarrow> string \<Rightarrow> string \<Rightarrow> nat res \<times> spawn_act list" where
  "startVMM env binary apiSock dir = startVMMPrefixed env [] binary apiSock dir"

text \<open>\<open>None\<close> is a spawn that never returns, because \<open>waitReady\<close> does not.\<close>

definition spawnPrefixed ::
  "spawn_env \<Rightarrow> string \<Rightarrow> string \<Rightarrow> int \<Rightarrow> string \<Rightarrow> string list \<Rightarrow>
   (vmmHandle res \<times> spawn_act list) option" where
  "spawnPrefixed env stateDir binary bootWait newid prefix =
     (let dir = Join [stateDir, newid]; apiSock = Join [dir, ''api.sock'']
      in case se_mkdir env dir of
           Some e \<Rightarrow> Some (Err e, [])
         | None \<Rightarrow>
             (case startVMMPrefixed env prefix binary apiSock dir of
                (Err e, acts) \<Rightarrow> Some (Err e, AMkdir dir # acts)
              | (Panic, acts) \<Rightarrow> Some (Panic, AMkdir dir # acts)
              | (Ok pid, acts) \<Rightarrow>
                  (case waitReady (se_now env) bootWait (se_ping env apiSock) (se_done env) of
                     None \<Rightarrow> None
                   | Some (Some e) \<Rightarrow>
                       Some (Err (Wrapf ''VMM API not ready: %w'' [] e), AMkdir dir # acts @ [AKill pid])
                   | Some None \<Rightarrow>
                       Some (Ok \<lparr>h_id = newid, h_dir = dir, h_pid = pid\<rparr>, AMkdir dir # acts))))"

definition pool_spawn ::
  "spawn_env \<Rightarrow> string \<Rightarrow> string \<Rightarrow> int \<Rightarrow> string \<Rightarrow> (vmmHandle res \<times> spawn_act list) option" where
  "pool_spawn env stateDir binary bootWait newid = spawnPrefixed env stateDir binary bootWait newid []"

definition spawnInNetns ::
  "spawn_env \<Rightarrow> string \<Rightarrow> string \<Rightarrow> int \<Rightarrow> string \<Rightarrow> string \<Rightarrow>
   (vmmHandle res \<times> spawn_act list) option" where
  "spawnInNetns env stateDir binary bootWait newid netns =
     spawnPrefixed env stateDir binary bootWait newid [''nsenter'', ''--net='' @ netns]"

text \<open>The processes that a sequence of effects leaves running.\<close>

fun acts_alive :: "nat set \<Rightarrow> spawn_act list \<Rightarrow> nat set" where
  "acts_alive ps [] = ps"
| "acts_alive ps (AStart argv pid # as) = acts_alive (insert pid ps) as"
| "acts_alive ps (AKill pid # as) = acts_alive (ps - {pid}) as"
| "acts_alive ps (AMkdir d # as) = acts_alive ps as"
| "acts_alive ps (ACreateLog f # as) = acts_alive ps as"

lemma spawn_alive:
  assumes "spawnPrefixed env stateDir binary bootWait newid prefix = Some (r, acts)"
  shows "case r of Ok h \<Rightarrow> acts_alive {} acts = {h_pid h} \<and> h_id h = newid \<and> h_dir h = Join [stateDir, newid]
           | Err e \<Rightarrow> acts_alive {} acts = {} | Panic \<Rightarrow> False"
  using assms
  by (auto simp: spawnPrefixed_def startVMMPrefixed_def Let_def
      split: option.splits res.splits prod.splits sum.splits)

lemma spawn_returns:
  assumes "clock_ok (se_now env)"
  shows "spawnPrefixed env stateDir binary bootWait newid prefix \<noteq> None"
proof -
  let ?sock = "Join [Join [stateDir, newid], ''api.sock'']"
  obtain r where "waitReady (se_now env) bootWait (se_ping env ?sock) (se_done env) = Some r"
    unfolding waitReady_def
    using assms waitReady_loop_returns [of "se_now env"] by (fastforce simp: clock_ok_def)
  then show ?thesis
    by (simp add: spawnPrefixed_def Let_def split: option.split res.split prod.split)
qed

section \<open>The pool\<close>

record Pool =
  target :: int
  idle :: "vmmHandle list"
  refilling :: bool
  closed :: bool

definition newVMMPool :: "int \<Rightarrow> Pool" where
  "newVMMPool t = \<lparr>target = t, idle = [], refilling = False, closed = False\<rparr>"

definition idleCount :: "Pool \<Rightarrow> nat" where
  "idleCount p = length (idle p)"

text \<open>
  The sections under \<open>p.mu\<close>: the pop of \<open>get\<close>; the test-and-set of \<open>kickRefill\<close> (true: start the
  goroutine); the loop test of the refill goroutine (true: spawn one more); handing it a spawned
  VMM (false: the pool was closed, the VMM must be killed); its deferred reset; and \<open>close\<close>.
\<close>

definition get_pop :: "Pool \<Rightarrow> vmmHandle option \<times> Pool" where
  "get_pop p =
     (let n = length (idle p)
      in if n > 0 then (Some (idle p ! (n - 1)), p\<lparr>idle := take (n - 1) (idle p)\<rparr>) else (None, p))"

definition kickRefill :: "Pool \<Rightarrow> bool \<times> Pool" where
  "kickRefill p =
     (if target p \<le> 0 then (False, p)
      else if refilling p \<or> closed p then (False, p)
      else (True, p\<lparr>refilling := True\<rparr>))"

definition refill_more :: "Pool \<Rightarrow> bool" where
  "refill_more p = (\<not> (target p - int (length (idle p)) \<le> 0 \<or> closed p))"

definition refill_put :: "vmmHandle \<Rightarrow> Pool \<Rightarrow> bool \<times> Pool" where
  "refill_put h p = (if closed p then (False, p) else (True, p\<lparr>idle := idle p @ [h]\<rparr>))"

definition refill_done :: "Pool \<Rightarrow> Pool" where
  "refill_done p = p\<lparr>refilling := False\<rparr>"

definition pool_close :: "Pool \<Rightarrow> vmmHandle list \<times> Pool" where
  "pool_close p = (idle p, p\<lparr>closed := True, idle := []\<rparr>)"

lemmas pool_defs [model_defs] =
  get_pop_def kickRefill_def refill_more_def refill_put_def refill_done_def pool_close_def

text \<open>
  A thread is at the section named by its program counter. \<open>Get\<close> threads: pop, kick the refill with
  what was popped, spawn on a miss; then \<open>Returned\<close> holds the handle for the caller. \<open>Refill\<close>
  threads run the background goroutine, \<open>Close\<close> threads the loop of \<open>close\<close>, \<open>Warm\<close> is \<open>Driver.Warm\<close>.
\<close>

datatype pool_thread =
    GetPop | GetKick "vmmHandle option" | GetSpawn | Returned vmmHandle | GetFailed
  | Warm
  | RefillTest | RefillSpawn | RefillPut vmmHandle | RefillKill vmmHandle | RefillReset
  | CloseLock | CloseKill "vmmHandle list"
  | Finished

record PoolSys =
  ps_pool :: Pool
  ps_threads :: "pool_thread list"
  ps_alive :: "nat set"
  ps_next :: nat
  ps_removed :: "string list"

text \<open>
  An event is a call from outside, or a step of thread \<open>i\<close>; the handle option is the outcome of the
  spawn, when that step is one: \<open>None\<close> if it fails (then the process, if any, was killed), or the id
  and directory of the new VMM, whose process number the kernel chooses fresh.
\<close>

datatype pool_event = CallGet | CallWarm | CallClose | Step nat "(string \<times> string) option"

definition set_thread :: "nat \<Rightarrow> pool_thread \<Rightarrow> PoolSys \<Rightarrow> PoolSys" where
  "set_thread i t s = s\<lparr>ps_threads := (ps_threads s)[i := t]\<rparr>"

definition kick :: "PoolSys \<Rightarrow> PoolSys" where
  "kick s =
     (case kickRefill (ps_pool s) of
        (True, p) \<Rightarrow> s\<lparr>ps_pool := p, ps_threads := ps_threads s @ [RefillTest]\<rparr>
      | (False, p) \<Rightarrow> s\<lparr>ps_pool := p\<rparr>)"

text \<open>Killing a VMM: the process is killed and waited for, so it is gone, and its directory is removed.\<close>

definition kill :: "vmmHandle \<Rightarrow> PoolSys \<Rightarrow> PoolSys" where
  "kill h s = s\<lparr>ps_alive := ps_alive s - {h_pid h}, ps_removed := ps_removed s @ [h_dir h]\<rparr>"

definition spawn_with ::
  "(string \<times> string) option \<Rightarrow> PoolSys \<Rightarrow> vmmHandle option \<times> PoolSys" where
  "spawn_with out s =
     (case out of
        None \<Rightarrow> (None, s)
      | Some (sid, dir) \<Rightarrow>
          (Some \<lparr>h_id = sid, h_dir = dir, h_pid = ps_next s\<rparr>,
           s\<lparr>ps_alive := insert (ps_next s) (ps_alive s), ps_next := Suc (ps_next s)\<rparr>))"

fun thread_step :: "pool_thread \<Rightarrow> nat \<Rightarrow> (string \<times> string) option \<Rightarrow> PoolSys \<Rightarrow> PoolSys" where
  "thread_step GetPop i out s =
     (case get_pop (ps_pool s) of (h, p) \<Rightarrow> set_thread i (GetKick h) (s\<lparr>ps_pool := p\<rparr>))"
| "thread_step (GetKick (Some h)) i out s = kick (set_thread i (Returned h) s)"
| "thread_step (GetKick None) i out s = kick (set_thread i GetSpawn s)"
| "thread_step GetSpawn i out s =
     (case spawn_with out s of
        (Some h, s') \<Rightarrow> set_thread i (Returned h) s'
      | (None, s') \<Rightarrow> set_thread i GetFailed s')"
| "thread_step Warm i out s = kick (set_thread i Finished s)"
| "thread_step RefillTest i out s =
     set_thread i (if refill_more (ps_pool s) then RefillSpawn else RefillReset) s"
| "thread_step RefillSpawn i out s =
     (case spawn_with out s of
        (Some h, s') \<Rightarrow> set_thread i (RefillPut h) s'
      | (None, s') \<Rightarrow> set_thread i RefillReset s')"
| "thread_step (RefillPut h) i out s =
     (case refill_put h (ps_pool s) of
        (True, p) \<Rightarrow> set_thread i RefillTest (s\<lparr>ps_pool := p\<rparr>)
      | (False, p) \<Rightarrow> set_thread i (RefillKill h) (s\<lparr>ps_pool := p\<rparr>))"
| "thread_step (RefillKill h) i out s = set_thread i RefillReset (kill h s)"
| "thread_step RefillReset i out s =
     set_thread i Finished (s\<lparr>ps_pool := refill_done (ps_pool s)\<rparr>)"
| "thread_step CloseLock i out s =
     (case pool_close (ps_pool s) of (hs, p) \<Rightarrow> set_thread i (CloseKill hs) (s\<lparr>ps_pool := p\<rparr>))"
| "thread_step (CloseKill (h # hs)) i out s = set_thread i (CloseKill hs) (kill h s)"
| "thread_step (CloseKill []) i out s = set_thread i Finished s"
| "thread_step (Returned h) i out s = s"
| "thread_step GetFailed i out s = s"
| "thread_step Finished i out s = s"

fun pool_step :: "pool_event \<Rightarrow> PoolSys \<Rightarrow> PoolSys" where
  "pool_step CallGet s = s\<lparr>ps_threads := ps_threads s @ [GetPop]\<rparr>"
| "pool_step CallWarm s = s\<lparr>ps_threads := ps_threads s @ [Warm]\<rparr>"
| "pool_step CallClose s = s\<lparr>ps_threads := ps_threads s @ [CloseLock]\<rparr>"
| "pool_step (Step i out) s =
     (if i < length (ps_threads s) then thread_step (ps_threads s ! i) i out s else s)"

fun pool_run :: "pool_event list \<Rightarrow> PoolSys \<Rightarrow> PoolSys" where
  "pool_run [] s = s"
| "pool_run (e # es) s = pool_run es (pool_step e s)"

definition pool_init :: "int \<Rightarrow> PoolSys" where
  "pool_init t = \<lparr>ps_pool = newVMMPool t, ps_threads = [], ps_alive = {}, ps_next = 0, ps_removed = []\<rparr>"

section \<open>The invariant of the pool\<close>

fun held :: "pool_thread \<Rightarrow> vmmHandle list" where
  "held (GetKick (Some h)) = [h]"
| "held (Returned h) = [h]"
| "held (RefillPut h) = [h]"
| "held (RefillKill h) = [h]"
| "held (CloseKill hs) = hs"
| "held _ = []"

fun is_refiller :: "pool_thread \<Rightarrow> bool" where
  "is_refiller RefillTest = True"
| "is_refiller RefillSpawn = True"
| "is_refiller (RefillPut h) = True"
| "is_refiller (RefillKill h) = True"
| "is_refiller RefillReset = True"
| "is_refiller _ = False"

fun is_filling :: "pool_thread \<Rightarrow> bool" where
  "is_filling RefillSpawn = True"
| "is_filling (RefillPut h) = True"
| "is_filling _ = False"

lemma filling_refiller: "is_filling t \<Longrightarrow> is_refiller t"
  by (cases t) auto

text \<open>The process numbers held anywhere: in the idle list or by a thread.\<close>

definition owned :: "PoolSys \<Rightarrow> nat multiset" where
  "owned s = image_mset h_pid (mset (idle (ps_pool s)) + mset (concat (map held (ps_threads s))))"

text \<open>
  Every live VMM process is held exactly once; there is one refill goroutine exactly while the flag
  is set; the idle list never exceeds the target; and a closed pool is empty.
\<close>

definition pool_inv :: "PoolSys \<Rightarrow> bool" where
  "pool_inv s \<longleftrightarrow>
     owned s = mset_set (ps_alive s) \<and> finite (ps_alive s) \<and> (\<forall>p \<in> ps_alive s. p < ps_next s) \<and>
     length (filter is_refiller (ps_threads s)) = (if refilling (ps_pool s) then 1 else 0) \<and>
     int (length (idle (ps_pool s))) \<le> max 0 (target (ps_pool s)) \<and>
     (\<forall>t \<in> set (ps_threads s). is_refiller t \<longrightarrow> 0 < target (ps_pool s)) \<and>
     (\<forall>t \<in> set (ps_threads s). is_filling t \<longrightarrow>
        int (length (idle (ps_pool s))) < target (ps_pool s)) \<and>
     (closed (ps_pool s) \<longrightarrow> idle (ps_pool s) = [])"

lemma held_update:
  "i < length ts \<Longrightarrow>
   mset (concat (map held (ts[i := t]))) + mset (held (ts ! i)) =
   mset (concat (map held ts)) + mset (held t)"
proof (induction ts arbitrary: i)
  case (Cons x xs)
  then show ?case by (cases i) (auto simp: algebra_simps)
qed simp

text \<open>With one refiller, every other thread is something else.\<close>

lemma single_refiller:
  assumes "i < length ts" "P (ts ! i)" "length (filter P ts) = 1" "x \<in> set (ts[i := t])" "P x"
  shows "x = t"
proof (rule ccontr)
  assume "x \<noteq> t"
  have "length (filter P (ts[i := t])) = (if P t then 1 else 0)"
    using count_update [OF assms(1), of P t] assms(2,3) by auto
  moreover have "length (filter P (ts[i := t])) \<ge> (if P t then 2 else 1)"
  proof -
    have "t \<in> set (ts[i := t])" using assms(1) by (simp add: set_update_memI)
    then have "set (if P t then [t, x] else [x]) \<subseteq> set (filter P (ts[i := t]))"
      using assms(4,5) by auto
    then have "card (set (if P t then [t, x] else [x])) \<le> card (set (filter P (ts[i := t])))"
      by (intro card_mono) auto
    also have "\<dots> \<le> length (filter P (ts[i := t]))" by (rule card_length)
    finally show ?thesis using \<open>x \<noteq> t\<close> by (auto split: if_splits)
  qed
  ultimately show False by (auto split: if_splits)
qed

text \<open>
  One thread moving to \<open>t'\<close> while the pool becomes \<open>p\<close>: what such a move has to satisfy. The first
  condition balances the handles that changed place against the processes started or killed.
\<close>

lemma pool_inv_move:
  assumes inv: "pool_inv s" and i: "i < length (ps_threads s)"
    and s': "ps_pool s' = p" "ps_threads s' = (ps_threads s)[i := t']"
    and bal: "image_mset h_pid (mset (idle p) + mset (held t')) + mset_set (ps_alive s) =
              image_mset h_pid (mset (idle (ps_pool s)) + mset (held (ps_threads s ! i))) +
              mset_set (ps_alive s')"
    and alive: "finite (ps_alive s')" "\<forall>x \<in> ps_alive s'. x < ps_next s'"
    and flag: "(if refilling p then 1 else 0) + (if is_refiller (ps_threads s ! i) then 1 else 0) =
               (if refilling (ps_pool s) then 1 else 0) + (if is_refiller t' then 1 else (0 :: nat))"
    and tgt: "target p = target (ps_pool s)" "is_refiller t' \<longrightarrow> 0 < target p"
    and fill: "is_filling t' \<longrightarrow> int (length (idle p)) < target p"
    and len: "length (idle p) \<le> length (idle (ps_pool s)) \<or>
              (is_refiller (ps_threads s ! i) \<and> \<not> is_filling t' \<and> int (length (idle p)) \<le> target p)"
    and cl: "closed p \<longrightarrow> idle p = []"
  shows "pool_inv s'"
proof -
  let ?ts = "ps_threads s" and ?p0 = "ps_pool s"
  note I = inv [unfolded pool_inv_def]
  have own: "owned s' = mset_set (ps_alive s')"
  proof -
    let ?m = "\<lambda>xs. image_mset h_pid (mset xs)"
    have "?m (concat (map held (?ts[i := t']))) + ?m (held (?ts ! i)) =
          ?m (concat (map held ?ts)) + ?m (held t')"
      using held_update [OF i, of t'] by (metis image_mset_union)
    then have "owned s' + ?m (held (?ts ! i)) + ?m (idle ?p0) + mset_set (ps_alive s) =
          (?m (idle p) + ?m (held t') + mset_set (ps_alive s)) + owned s"
      by (simp add: owned_def s' algebra_simps)
    also have "\<dots> = mset_set (ps_alive s') + ?m (held (?ts ! i)) + ?m (idle ?p0) + mset_set (ps_alive s)"
      using bal I by (simp add: algebra_simps)
    finally show ?thesis by simp
  qed
  have cnt: "length (filter is_refiller (?ts[i := t'])) = (if refilling p then 1 else 0)"
    using count_update [OF i, of is_refiller t'] flag I by (auto split: if_splits)
  have upd: "x \<in> set (?ts[i := t']) \<Longrightarrow> x = t' \<or> x \<in> set ?ts" for x
    using set_update_subset_insert [of ?ts i t'] by auto
  have fil: "int (length (idle p)) < target p" if "x \<in> set (?ts[i := t'])" "is_filling x" for x
  proof (cases "length (idle p) \<le> length (idle ?p0)")
    case True
    then show ?thesis using upd [OF that(1)] that(2) fill I tgt(1) by fastforce
  next
    case False
    then have r: "is_refiller (?ts ! i)" "\<not> is_filling t'" using len by auto
    then have "?ts ! i \<in> set (filter is_refiller ?ts)" using i by simp
    then have "length (filter is_refiller ?ts) \<noteq> 0" by (cases "filter is_refiller ?ts") auto
    then have "length (filter is_refiller ?ts) = 1" using I by (auto split: if_splits)
    from single_refiller [OF i r(1) this that(1)] that(2) r(2) show ?thesis
      using filling_refiller by blast
  qed
  have le: "int (length (idle p)) \<le> max 0 (target p)" using len I tgt(1) by auto
  have ref: "\<forall>x \<in> set (?ts[i := t']). is_refiller x \<longrightarrow> 0 < target p"
    using upd tgt I by fastforce
  show ?thesis
    unfolding pool_inv_def s' by (intro conjI own alive cnt le ref cl ballI impI fil)
qed

lemma pool_inv_add:
  assumes "pool_inv s" "held t = []" "\<not> is_refiller t"
  shows "pool_inv (s\<lparr>ps_threads := ps_threads s @ [t]\<rparr>)"
  using assms filling_refiller by (auto simp: pool_inv_def owned_def)

lemma pool_inv_kick:
  assumes "pool_inv s"
  shows "pool_inv (kick s)"
  using assms by (auto simp: pool_inv_def owned_def kick_def kickRefill_def)

lemma pool_inv_spawn:
  assumes "pool_inv s"
  shows "ps_next s \<notin> ps_alive s"
  using assms by (auto simp: pool_inv_def)

lemma pool_inv_held_alive:
  assumes "pool_inv s" "i < length (ps_threads s)" "h \<in> set (held (ps_threads s ! i))"
  shows "h_pid h \<in> ps_alive s"
proof -
  have "h \<in> set (concat (map held (ps_threads s)))" using assms(2,3) by fastforce
  then have "h_pid h \<in># owned s" by (auto simp: owned_def)
  then show ?thesis using assms(1) by (auto simp: pool_inv_def)
qed

lemma pool_invD:
  assumes "pool_inv s"
  shows "owned s = mset_set (ps_alive s)" "finite (ps_alive s)"
    "\<And>p. p \<in> ps_alive s \<Longrightarrow> p < ps_next s"
    "length (filter is_refiller (ps_threads s)) = (if refilling (ps_pool s) then 1 else 0)"
    "int (length (idle (ps_pool s))) \<le> max 0 (target (ps_pool s))"
    "\<And>t. t \<in> set (ps_threads s) \<Longrightarrow> is_refiller t \<Longrightarrow> 0 < target (ps_pool s)"
    "\<And>t. t \<in> set (ps_threads s) \<Longrightarrow> is_filling t \<Longrightarrow> int (length (idle (ps_pool s))) < target (ps_pool s)"
    "closed (ps_pool s) \<Longrightarrow> idle (ps_pool s) = []"
  using assms by (auto simp: pool_inv_def)

lemma pool_inv_thread_step:
  assumes inv: "pool_inv s" and i: "i < length (ps_threads s)" and t: "ps_threads s ! i = t"
  shows "pool_inv (thread_step t i out s)"
proof -
  note I = pool_invD [OF inv]
  have tin: "t \<in> set (ps_threads s)" using i t by auto
  have below: "\<forall>x \<in> ps_alive s. x < ps_next s" using I(3) by blast
  note move = pool_inv_move [OF inv i]
  show ?thesis
  proof (cases t)
    case GetPop
    show ?thesis
    proof (cases "idle (ps_pool s)" rule: rev_cases)
      case Nil
      then show ?thesis
        using GetPop t I(2) below by (simp add: get_pop_def set_thread_def move)
    next
      case (snoc hs h)
      then have "\<not> closed (ps_pool s)" using I(8) by auto
      with snoc show ?thesis
        using GetPop t I(2) below by (simp add: get_pop_def set_thread_def move)
    qed
  next
    case (GetKick h)
    then have "held t = (case h of None \<Rightarrow> [] | Some h \<Rightarrow> [h])" "\<not> is_refiller t"
      by (cases h; simp)+
    then show ?thesis
      using GetKick t I(2,8) below
      by (cases h) (simp_all add: set_thread_def pool_inv_kick move)
  next
    case GetSpawn
    then show ?thesis
      using t I(2,8) below pool_inv_spawn [OF inv]
      by (cases out) (auto simp: spawn_with_def set_thread_def less_Suc_eq intro!: move)
  next
    case Warm
    then show ?thesis
      using t I(2,8) below by (simp add: set_thread_def pool_inv_kick move)
  next
    case RefillTest
    then show ?thesis
      using t I(2,8) I(6) [OF tin] below by (simp add: refill_more_def set_thread_def move)
  next
    case RefillSpawn
    then show ?thesis
      using t I(2,8) I(6,7) [OF tin] below pool_inv_spawn [OF inv]
      by (cases out) (auto simp: spawn_with_def set_thread_def less_Suc_eq intro!: move)
  next
    case (RefillPut h)
    then show ?thesis
      using t I(2,8) I(6,7) [OF tin] below by (simp add: refill_put_def set_thread_def move)
  next
    case (RefillKill h)
    then have "h_pid h \<in> ps_alive s"
      using pool_inv_held_alive [OF inv i, of h] t by simp
    with RefillKill show ?thesis
      using t I(2,8) I(6) [OF tin] below
      by (simp add: kill_def set_thread_def mset_set.remove move)
  next
    case RefillReset
    have "refilling (ps_pool s)"
    proof (rule ccontr)
      assume "\<not> ?thesis"
      then have "filter is_refiller (ps_threads s) = []" using I(4) by simp
      then show False using RefillReset tin by (auto simp: filter_empty_conv)
    qed
    with RefillReset show ?thesis
      using t I(2,8) below by (simp add: refill_done_def set_thread_def move)
  next
    case CloseLock
    then show ?thesis
      using t I(2) below by (simp add: pool_close_def set_thread_def move)
  next
    case (CloseKill hs)
    show ?thesis
    proof (cases hs)
      case Nil
      with CloseKill show ?thesis using t I(2,8) below by (simp add: set_thread_def move)
    next
      case (Cons h hs')
      then have "h_pid h \<in> ps_alive s"
        using pool_inv_held_alive [OF inv i, of h] t CloseKill by simp
      with Cons CloseKill show ?thesis
        using t I(2,8) below by (simp add: kill_def set_thread_def mset_set.remove move)
    qed
  qed (use inv in simp_all)
qed

lemma pool_inv_step: "pool_inv s \<Longrightarrow> pool_inv (pool_step e s)"
  by (cases e) (auto intro: pool_inv_add pool_inv_thread_step)

lemma pool_inv_init: "pool_inv (pool_init t)"
  by (simp add: pool_inv_def pool_init_def newVMMPool_def owned_def)

lemma pool_inv_run: "pool_inv s \<Longrightarrow> pool_inv (pool_run es s)"
  by (induction es arbitrary: s) (auto intro: pool_inv_step)

lemma pool_run_inv: "pool_inv (pool_run es (pool_init t))"
  by (rule pool_inv_run [OF pool_inv_init])

lemma pool_run_append: "pool_run (es @ fs) s = pool_run fs (pool_run es s)"
  by (induction es arbitrary: s) auto

lemma kick_target [simp]: "target (ps_pool (kick s)) = target (ps_pool s)"
  by (simp add: kick_def kickRefill_def)

lemma kick_closed [simp]: "closed (ps_pool (kick s)) = closed (ps_pool s)"
  by (simp add: kick_def kickRefill_def)

lemma thread_step_target: "target (ps_pool (thread_step t i out s)) = target (ps_pool s)"
  by (cases "(t, i, out, s)" rule: thread_step.cases)
    (auto simp: pool_defs set_thread_def kill_def spawn_with_def Let_def split: option.splits)

lemma pool_run_target: "target (ps_pool (pool_run es s)) = target (ps_pool s)"
proof (induction es arbitrary: s)
  case (Cons e es)
  have "target (ps_pool (pool_step e s)) = target (ps_pool s)"
    by (cases e) (simp_all add: thread_step_target)
  with Cons show ?case by simp
qed simp

lemma thread_step_closed: "closed (ps_pool s) \<Longrightarrow> closed (ps_pool (thread_step t i out s))"
  by (cases "(t, i, out, s)" rule: thread_step.cases)
    (auto simp: pool_defs set_thread_def kill_def spawn_with_def Let_def split: option.splits)

lemma pool_run_closed: "closed (ps_pool s) \<Longrightarrow> closed (ps_pool (pool_run es s))"
proof (induction es arbitrary: s)
  case (Cons e es)
  have "closed (ps_pool (pool_step e s))"
    using Cons.prems by (cases e) (simp_all add: thread_step_closed)
  from Cons.IH [OF this] show ?case by simp
qed simp

section \<open>Properties of the pool\<close>

lemma owned_split:
  assumes "i < j" "j < length (ps_threads s)"
  shows "image_mset h_pid (mset (idle (ps_pool s))) + image_mset h_pid (mset (held (ps_threads s ! i))) +
     image_mset h_pid (mset (held (ps_threads s ! j))) \<subseteq># owned s"
proof -
  let ?ts = "ps_threads s"
  have *: "mset (held (us ! k)) \<subseteq># mset (concat (map held us))" if "k < length us" for us k
    using that by (induction us arbitrary: k) (auto simp: nth_Cons' intro: subset_mset.add_increasing)
  have "i < length (take j ?ts)" using assms by simp
  from * [OF this] have a: "mset (held (?ts ! i)) \<subseteq># mset (concat (map held (take j ?ts)))"
    using assms(1) by simp
  have b: "mset (held (?ts ! j)) \<subseteq># mset (concat (map held (drop j ?ts)))"
    using * [of 0 "drop j ?ts"] assms(2) by (simp del: drop_map concat.simps)
  have "mset (concat (map held ?ts)) =
      mset (concat (map held (take j ?ts))) + mset (concat (map held (drop j ?ts)))"
    by (metis append_take_drop_id concat_append map_append mset_append)
  with a b have "mset (held (?ts ! i)) + mset (held (?ts ! j)) \<subseteq># mset (concat (map held ?ts))"
    by (simp add: subset_mset.add_mono)
  then have "mset (idle (ps_pool s)) + mset (held (?ts ! i)) + mset (held (?ts ! j)) \<subseteq>#
      mset (idle (ps_pool s)) + mset (concat (map held ?ts))"
    by (simp add: add.assoc)
  from image_mset_subseteq_mono [OF this, of h_pid] show ?thesis by (simp add: owned_def)
qed

lemma returned_distinct_aux:
  assumes inv: "pool_inv s" and ij: "i < j" "j < length (ps_threads s)"
    and "ps_threads s ! i = Returned g" "ps_threads s ! j = Returned h"
  shows "h_pid g \<noteq> h_pid h \<and> h_pid g \<in> ps_alive s \<and> h_pid h \<in> ps_alive s \<and>
     h_pid g \<notin> h_pid ` set (idle (ps_pool s)) \<and> h_pid h \<notin> h_pid ` set (idle (ps_pool s))"
proof -
  have sub: "image_mset h_pid (mset (idle (ps_pool s))) + {#h_pid g#} + {#h_pid h#} \<subseteq># mset_set (ps_alive s)"
    using owned_split [OF ij] assms(4,5) pool_invD(1) [OF inv] by simp
  have le: "count (mset_set (ps_alive s)) x \<le> 1" for x
    by (cases "finite (ps_alive s)"; cases "x \<in> ps_alive s") simp_all
  have c: "count (image_mset h_pid (mset (idle (ps_pool s))) + {#h_pid g#} + {#h_pid h#}) x \<le> 1" for x
    using mset_subset_eq_count [OF sub, of x] le [of x] by linarith
  have cnt: "x \<in> h_pid ` set (idle (ps_pool s)) \<Longrightarrow>
      1 \<le> count (image_mset h_pid (mset (idle (ps_pool s)))) x" for x
    by (metis count_greater_eq_one_iff image_mset_is_empty_iff mset_map set_map set_mset_mset)
  have "h_pid g \<noteq> h_pid h" using c [of "h_pid g"] by auto
  moreover have "h_pid g \<notin> h_pid ` set (idle (ps_pool s))"
  proof
    assume "h_pid g \<in> h_pid ` set (idle (ps_pool s))"
    from cnt [OF this] c [of "h_pid g"] show False
      unfolding count_union count_single by (cases "h_pid g = h_pid h")
        (auto simp: count_eq_zero_iff)
  qed
  moreover have "h_pid h \<notin> h_pid ` set (idle (ps_pool s))"
  proof
    assume "h_pid h \<in> h_pid ` set (idle (ps_pool s))"
    from cnt [OF this] c [of "h_pid h"] show False
      unfolding count_union count_single by (cases "h_pid g = h_pid h")
        (auto simp: count_eq_zero_iff)
  qed
  moreover have "h_pid g \<in> ps_alive s" "h_pid h \<in> ps_alive s"
    using pool_inv_held_alive [OF inv, of i g] pool_inv_held_alive [OF inv, of j h] assms by auto
  ultimately show ?thesis by blast
qed

text \<open>
  C8. Whatever the interleaving of gets, warm-ups, refills and closes, two callers never receive the
  same VMM process, what they receive is alive, and it is not in the idle list any more.
\<close>

theorem pool_no_double_handout:
  assumes "i \<noteq> j" "i < length (ps_threads (pool_run es (pool_init t)))"
    "j < length (ps_threads (pool_run es (pool_init t)))"
    "ps_threads (pool_run es (pool_init t)) ! i = Returned g"
    "ps_threads (pool_run es (pool_init t)) ! j = Returned h"
  shows "h_pid g \<noteq> h_pid h \<and> h_pid g \<in> ps_alive (pool_run es (pool_init t)) \<and>
     h_pid g \<notin> h_pid ` set (idle (ps_pool (pool_run es (pool_init t))))"
  using returned_distinct_aux [OF pool_run_inv, of i j es t g h]
    returned_distinct_aux [OF pool_run_inv, of j i es t h g] assms
  by (cases "i < j") auto

text \<open>Two gets on a cold pool of target one, the second served by the refill.\<close>

definition two_gets :: "pool_event list" where
  "two_gets = [CallGet, Step 0 None, Step 0 None, Step 1 None, Step 1 (Some (''b'', ''/s/b'')),
     Step 1 None, Step 0 (Some (''a'', ''/s/a'')), CallGet, Step 2 None, Step 2 None]"

lemma two_gets_run:
  "ps_threads (pool_run two_gets (pool_init 1)) =
     [Returned \<lparr>h_id = ''a'', h_dir = ''/s/a'', h_pid = 1\<rparr>, RefillTest,
      Returned \<lparr>h_id = ''b'', h_dir = ''/s/b'', h_pid = 0\<rparr>]"
  by (simp add: two_gets_def pool_init_def newVMMPool_def pool_defs set_thread_def kick_def
      spawn_with_def)

theorem pool_no_double_handout_witness:
  "h_pid \<lparr>h_id = ''a'', h_dir = ''/s/a'', h_pid = 1\<rparr> \<noteq> h_pid \<lparr>h_id = ''b'', h_dir = ''/s/b'', h_pid = 0\<rparr> \<and>
   (1 :: nat) \<in> ps_alive (pool_run two_gets (pool_init 1))"
  using pool_no_double_handout [of 0 2 two_gets 1
      "\<lparr>h_id = ''a'', h_dir = ''/s/a'', h_pid = 1\<rparr>" "\<lparr>h_id = ''b'', h_dir = ''/s/b'', h_pid = 0\<rparr>"]
  by (simp add: two_gets_run)

text \<open>
  C36. The idle list never exceeds the target (so a pool with a target of zero or less stays empty),
  at most one refill goroutine runs at any time, exactly while the flag is set.
\<close>

theorem pool_bounded:
  "int (idleCount (ps_pool (pool_run es (pool_init t)))) \<le> max 0 t \<and>
   length (filter is_refiller (ps_threads (pool_run es (pool_init t)))) =
     (if refilling (ps_pool (pool_run es (pool_init t))) then 1 else 0)"
  using pool_invD(4,5) [OF pool_run_inv, of es t] pool_run_target [of es "pool_init t"]
  by (simp add: idleCount_def pool_init_def newVMMPool_def)

text \<open>The threads that have run to their end.\<close>

fun at_end :: "pool_thread \<Rightarrow> bool" where
  "at_end (Returned h) = True"
| "at_end GetFailed = True"
| "at_end Finished = True"
| "at_end _ = False"

lemma at_end_held: "x \<in> S \<Longrightarrow> at_end x \<Longrightarrow> h \<in> set (held x) \<longleftrightarrow> x = Returned h"
  by (cases x) auto

text \<open>
  C11. After \<open>close\<close> took the lock the pool stays closed and its idle list stays empty, and once every
  thread has run to its end the only VMM processes alive are those handed to callers: nothing that
  was idle or being spawned by the refill is left behind.
\<close>

theorem pool_close_reclaims:
  assumes "closed (ps_pool (pool_run es (pool_init t)))"
    and "list_all at_end (ps_threads (pool_run (es @ fs) (pool_init t)))"
  shows "idle (ps_pool (pool_run (es @ fs) (pool_init t))) = [] \<and>
     ps_alive (pool_run (es @ fs) (pool_init t)) =
       {h_pid h | h. Returned h \<in> set (ps_threads (pool_run (es @ fs) (pool_init t)))}"
proof -
  let ?s = "pool_run (es @ fs) (pool_init t)"
  note I = pool_invD [OF pool_run_inv [of "es @ fs" t]]
  have "closed (ps_pool ?s)"
    using assms(1) by (simp add: pool_run_append pool_run_closed)
  then have idle: "idle (ps_pool ?s) = []" by (rule I(8))
  have "ps_alive ?s = set_mset (owned ?s)" using I(1,2) by simp
  also have "\<dots> = h_pid ` (\<Union>x \<in> set (ps_threads ?s). set (held x))"
    using idle by (simp add: owned_def)
  also have "\<dots> = {h_pid h | h. Returned h \<in> set (ps_threads ?s)}"
    using assms(2) by (auto simp: list_all_iff at_end_held)
  finally show ?thesis using idle by simp
qed

text \<open>A warm-up, a close while its spawn is under way, and the refill goroutine cleaning up.\<close>

definition close_race :: "pool_event list" where
  "close_race = [CallWarm, Step 0 None, CallClose, Step 1 None, Step 1 (Some (''a'', ''/s/a'')), Step 2 None]"

definition close_end :: "pool_event list" where
  "close_end = [Step 1 None, Step 1 None, Step 1 None, Step 2 None]"

theorem pool_close_reclaims_witness: "ps_alive (pool_run (close_race @ close_end) (pool_init 2)) = {}"
proof -
  have c: "closed (ps_pool (pool_run close_race (pool_init 2)))"
    and t: "ps_threads (pool_run (close_race @ close_end) (pool_init 2)) = [Finished, Finished, Finished]"
    by (simp_all add: close_race_def close_end_def pool_init_def newVMMPool_def pool_defs
        set_thread_def kick_def kill_def spawn_with_def)
  show ?thesis
    using conjunct2 [OF pool_close_reclaims [OF c, of close_end]] unfolding t by simp
qed

text \<open>
  How far a refill goroutine has to go: three steps (test, spawn, put) for each VMM that is missing, and two
  to end. Other goroutines can only make the way longer by taking a VMM, or shorter.
\<close>

definition missing :: "Pool \<Rightarrow> nat" where
  "missing p = nat (target p - int (length (idle p)))"

fun to_go :: "Pool \<Rightarrow> pool_thread \<Rightarrow> nat" where
  "to_go p RefillTest = (if closed p then 2 else 3 * missing p + 2)"
| "to_go p RefillSpawn = (if closed p then 4 else max 4 (3 * missing p + 1))"
| "to_go p (RefillPut h) = (if closed p then 3 else max 3 (3 * missing p))"
| "to_go p (RefillKill h) = 2"
| "to_go p RefillReset = 1"
| "to_go p _ = 0"

text \<open>Of a run: the VMMs that gets take, the steps of thread \<open>i\<close>, and whether one of its spawns failed.\<close>

fun takes :: "pool_event \<Rightarrow> PoolSys \<Rightarrow> bool" where
  "takes (Step j out) s \<longleftrightarrow> j < length (ps_threads s) \<and> ps_threads s ! j = GetPop \<and> idle (ps_pool s) \<noteq> []"
| "takes _ s \<longleftrightarrow> False"

fun pops :: "pool_event list \<Rightarrow> PoolSys \<Rightarrow> nat" where
  "pops [] s = 0"
| "pops (e # es) s = (if takes e s then 1 else 0) + pops es (pool_step e s)"

fun steps_of :: "nat \<Rightarrow> pool_event list \<Rightarrow> nat" where
  "steps_of i [] = 0"
| "steps_of i (Step j out # es) = (if j = i then 1 else 0) + steps_of i es"
| "steps_of i (_ # es) = steps_of i es"

fun spawn_failed :: "nat \<Rightarrow> pool_event list \<Rightarrow> PoolSys \<Rightarrow> bool" where
  "spawn_failed i [] s \<longleftrightarrow> False"
| "spawn_failed i (e # es) s \<longleftrightarrow> (e = Step i None \<and> ps_threads s ! i = RefillSpawn) \<or> spawn_failed i es (pool_step e s)"

lemma kick_sel [simp]:
  "idle (ps_pool (kick s)) = idle (ps_pool s)" "target (ps_pool (kick s)) = target (ps_pool s)"
  "closed (ps_pool (kick s)) = closed (ps_pool s)"
  "i < length (ps_threads s) \<Longrightarrow> ps_threads (kick s) ! i = ps_threads s ! i"
  "length (ps_threads (kick s)) = length (ps_threads s) + (if fst (kickRefill (ps_pool s)) then 1 else 0)"
  by (auto simp: kick_def kickRefill_def nth_append split: if_splits)

lemma pool_sel [simp]:
  "ps_pool (set_thread i t s) = ps_pool s" "ps_threads (set_thread i t s) = (ps_threads s)[i := t]"
  "ps_pool (kill h s) = ps_pool s" "ps_threads (kill h s) = ps_threads s"
  "ps_pool (snd (spawn_with out s)) = ps_pool s" "ps_threads (snd (spawn_with out s)) = ps_threads s"
  by (simp_all add: set_thread_def kill_def spawn_with_def split: option.split prod.split)

lemma to_go_closed: "closed p' \<Longrightarrow> to_go p' t \<le> to_go p t"
  by (cases t) auto

lemma to_go_less: "missing p' \<le> missing p + k \<Longrightarrow> closed p' = closed p \<Longrightarrow> to_go p' t \<le> to_go p t + 3 * k"
  by (cases t) auto

text \<open>One step of another thread, and one of the goroutine itself.\<close>

lemma other_step:
  assumes "j < length (ps_threads s)" "i < length (ps_threads s)" "j \<noteq> i"
  shows "to_go (ps_pool (pool_step (Step j out) s)) (ps_threads s ! i) \<le>
      to_go (ps_pool s) (ps_threads s ! i) + (if takes (Step j out) s then 3 else 0) \<and>
    ps_threads (pool_step (Step j out) s) ! i = ps_threads s ! i \<and>
    length (ps_threads s) \<le> length (ps_threads (pool_step (Step j out) s))"
proof -
  have pool: "to_go p (ps_threads s ! i) \<le> to_go (ps_pool s) (ps_threads s ! i)"
    if "closed p \<or> missing p \<le> missing (ps_pool s) \<and> closed p = closed (ps_pool s)" for p
    using that to_go_closed [of p] to_go_less [of p "ps_pool s" 0] by auto
  show ?thesis
  proof (cases "ps_threads s ! j")
    case GetPop
    then have "missing (ps_pool (pool_step (Step j out) s)) \<le> missing (ps_pool s) + (if takes (Step j out) s then 1 else 0)"
      "closed (ps_pool (pool_step (Step j out) s)) = closed (ps_pool s)"
      using assms(1) by (auto simp: get_pop_def missing_def Let_def min_def)
    from to_go_less [OF this, of "ps_threads s ! i"] show ?thesis using GetPop assms by (auto simp: get_pop_def Let_def)
  next
    case (GetKick h)
    then show ?thesis using assms by (cases h) (auto intro!: pool simp: missing_def)
  next
    case GetSpawn
    then show ?thesis using assms by (auto intro!: pool simp: spawn_with_def split: option.split prod.split)
  next
    case RefillSpawn
    then show ?thesis using assms by (auto intro!: pool simp: spawn_with_def split: option.split prod.split)
  next
    case (RefillPut h)
    have "to_go (ps_pool s\<lparr>idle := idle (ps_pool s) @ [h]\<rparr>) t \<le> to_go (ps_pool s) t" for t
      using to_go_less [of "ps_pool s\<lparr>idle := idle (ps_pool s) @ [h]\<rparr>" "ps_pool s" 0 t] by (simp add: missing_def)
    then show ?thesis using RefillPut assms by (auto simp: refill_put_def)
  next
    case (CloseKill hs)
    then show ?thesis using assms by (cases hs) (auto intro!: pool)
  qed (use assms in \<open>auto intro!: pool simp: missing_def refill_done_def pool_close_def\<close>)
qed

lemma own_step:
  assumes "i < length (ps_threads s)" "is_refiller (ps_threads s ! i)"
  shows "to_go (ps_pool (pool_step (Step i out) s)) (ps_threads (pool_step (Step i out) s) ! i) <
      to_go (ps_pool s) (ps_threads s ! i) \<and>
    (is_refiller (ps_threads (pool_step (Step i out) s) ! i) \<or> ps_threads (pool_step (Step i out) s) ! i = Finished) \<and>
    length (ps_threads (pool_step (Step i out) s)) = length (ps_threads s) \<and> \<not> takes (Step i out) s"
proof (cases "ps_threads s ! i")
  case RefillSpawn
  then show ?thesis using assms by (auto simp: spawn_with_def set_thread_def split: option.split)
next
  case RefillTest
  then show ?thesis using assms by (auto simp: refill_more_def missing_def)
next
  case (RefillPut h)
  then show ?thesis using assms by (auto simp: refill_put_def missing_def nat_diff_distrib)
qed (use assms in \<open>auto simp: refill_done_def\<close>)

lemma finished_stays:
  "i < length (ps_threads s) \<Longrightarrow> ps_threads s ! i = Finished \<Longrightarrow>
   i < length (ps_threads (pool_step e s)) \<and> ps_threads (pool_step e s) ! i = Finished"
proof (cases e)
  case (Step j out)
  assume a: "i < length (ps_threads s)" "ps_threads s ! i = Finished"
  show ?thesis
  proof (cases "j < length (ps_threads s) \<and> j \<noteq> i")
    case True
    then show ?thesis using other_step [of j s i out] a Step by auto
  next
    case False
    then have "pool_step e s = s" using Step a by auto
    then show ?thesis using a by simp
  qed
qed (auto simp: nth_append)

lemma refill_runs:
  assumes "i < length (ps_threads s)"
    and "ps_threads s ! i = Finished \<or>
      (is_refiller (ps_threads s ! i) \<and> to_go (ps_pool s) (ps_threads s ! i) + 3 * pops es s \<le> steps_of i es)"
  shows "ps_threads (pool_run es s) ! i = Finished"
  using assms
proof (induction es arbitrary: s)
  case Nil
  then show ?case by (cases "ps_threads s ! i") (auto split: if_splits)
next
  case (Cons e es)
  let ?s = "pool_step e s"
  have goal: ?case if "i < length (ps_threads ?s)" "ps_threads ?s ! i = Finished \<or>
      (is_refiller (ps_threads ?s ! i) \<and> to_go (ps_pool ?s) (ps_threads ?s ! i) + 3 * pops es ?s \<le> steps_of i es)"
    using Cons.IH [OF that] by simp
  show ?case
  proof (cases "ps_threads s ! i = Finished")
    case True
    then show ?thesis using finished_stays [OF Cons.prems(1) True, of e] by (intro goal) auto
  next
    case unfinished: False
    then have r: "is_refiller (ps_threads s ! i)"
      "to_go (ps_pool s) (ps_threads s ! i) + 3 * pops (e # es) s \<le> steps_of i (e # es)"
      using Cons.prems(2) by auto
    show ?thesis
    proof (cases e)
      case (Step j out)
      consider "j = i" | "j \<noteq> i" "j < length (ps_threads s)" | "\<not> j < length (ps_threads s)" by blast
      then show ?thesis
      proof cases
        case 1
        then show ?thesis using Cons.prems(1) Step r own_step [OF Cons.prems(1) r(1), of out] by (intro goal) auto
      next
        case 2
        then show ?thesis
          using r Step Cons.prems(1) other_step [OF 2(2) Cons.prems(1) 2(1), of out] by (intro goal) (auto simp del: pool_step.simps split: if_splits)
      next
        case 3
        then show ?thesis using r Step Cons.prems(1) by (intro goal) auto
      qed
    qed (use r Cons.prems(1) in \<open>intro goal; auto simp: nth_append\<close>)+
  qed
qed

text \<open>
  The goal itself: while nothing is taken, no spawn of the goroutine fails and the pool stays open, the
  goroutine ends with a full pool, and the pool stays full.
\<close>

definition ends_full :: "nat \<Rightarrow> PoolSys \<Rightarrow> bool" where
  "ends_full i s \<longleftrightarrow> (\<forall>h. ps_threads s ! i \<noteq> RefillKill h) \<and>
     (ps_threads s ! i \<in> {RefillReset, Finished} \<longrightarrow> target (ps_pool s) \<le> int (length (idle (ps_pool s))))"

lemma other_idle:
  assumes "j < length (ps_threads s)" "\<not> takes (Step j out) s" "\<not> closed (ps_pool (pool_step (Step j out) s))"
  shows "length (idle (ps_pool s)) \<le> length (idle (ps_pool (pool_step (Step j out) s))) \<and>
    target (ps_pool (pool_step (Step j out) s)) = target (ps_pool s)"
proof (cases "ps_threads s ! j")
  case (GetKick h)
  then show ?thesis using assms by (cases h) simp_all
next
  case (CloseKill hs)
  then show ?thesis using assms by (cases hs) simp_all
qed (use assms in \<open>auto simp: get_pop_def refill_put_def refill_done_def pool_close_def spawn_with_def Let_def
    split: option.splits\<close>)

lemma ends_full_step:
  assumes "i < length (ps_threads s)" "is_refiller (ps_threads s ! i) \<or> ps_threads s ! i = Finished" "ends_full i s"
    and "\<not> takes e s" "\<not> closed (ps_pool (pool_step e s))" "\<not> (e = Step i None \<and> ps_threads s ! i = RefillSpawn)"
  shows "ends_full i (pool_step e s) \<and> i < length (ps_threads (pool_step e s)) \<and>
    (is_refiller (ps_threads (pool_step e s) ! i) \<or> ps_threads (pool_step e s) ! i = Finished)"
proof (cases e)
  case (Step j out)
  show ?thesis
  proof (cases "j < length (ps_threads s)")
    case False
    with Step assms show ?thesis by simp
  next
    case j: True
    show ?thesis
    proof (cases "j = i")
      case True
      show ?thesis
      proof (cases "ps_threads s ! i")
        case RefillSpawn
        then show ?thesis using assms Step True
          by (auto simp: ends_full_def spawn_with_def set_thread_def split: option.splits)
      next
        case (RefillPut h)
        then show ?thesis using assms Step True by (auto simp: ends_full_def refill_put_def)
      next
        case (RefillKill h)
        then show ?thesis using assms Step True by (auto simp: ends_full_def)
      qed (use assms Step True in \<open>auto simp: ends_full_def refill_more_def refill_done_def\<close>)
    next
      case False
      have "length (idle (ps_pool s)) \<le> length (idle (ps_pool (pool_step e s)))"
        "target (ps_pool (pool_step e s)) = target (ps_pool s)"
        using other_idle [OF j, of out] assms(4,5) Step by simp_all
      then show ?thesis
        using assms(1-3) other_step [OF j assms(1) False, of out] Step by (auto simp: ends_full_def)
    qed
  qed
qed (use assms in \<open>auto simp: ends_full_def nth_append\<close>)

lemma refill_full:
  assumes "i < length (ps_threads s)" "is_refiller (ps_threads s ! i) \<or> ps_threads s ! i = Finished" "ends_full i s"
    and "pops es s = 0" "\<not> spawn_failed i es s" "\<not> closed (ps_pool (pool_run es s))"
  shows "ends_full i (pool_run es s)"
  using assms
proof (induction es arbitrary: s)
  case (Cons e es)
  have "\<not> closed (ps_pool (pool_step e s))"
    using Cons.prems(6) pool_run_closed [of "pool_step e s" es] by auto
  then have st: "ends_full i (pool_step e s) \<and> i < length (ps_threads (pool_step e s)) \<and>
      (is_refiller (ps_threads (pool_step e s) ! i) \<or> ps_threads (pool_step e s) ! i = Finished)"
    using Cons.prems(4,5) by (intro ends_full_step [OF Cons.prems(1-3)]) (auto split: if_splits)
  with Cons.IH [of "pool_step e s"] Cons.prems(4-6) show ?case by (simp split: if_splits)
qed simp

text \<open>
  C29. A refill goroutine ends, and reaches its goal unless something prevents it. From any state that the
  pool can reach, under any interleaving with the other goroutines, it has ended once it was given three
  steps for each VMM that was missing, three more for each VMM that a \<open>get\<close> took meanwhile, and two. If
  none was taken, none of its own spawns failed and the pool is not closed, the idle list is then exactly
  at its target. (With a concurrent \<open>get\<close> it may stay below: the kick of that \<open>get\<close> can be lost.)
\<close>

theorem pool_refill_completes:
  assumes "s = pool_run es (pool_init t)" "i < length (ps_threads s)" "ps_threads s ! i = RefillTest"
    and "3 * missing (ps_pool s) + 3 * pops fs s + 2 \<le> steps_of i fs"
  shows "ps_threads (pool_run fs s) ! i = Finished \<and>
     (pops fs s = 0 \<and> \<not> spawn_failed i fs s \<and> \<not> closed (ps_pool (pool_run fs s)) \<longrightarrow>
        int (idleCount (ps_pool (pool_run fs s))) = t)"
proof -
  have fin: "ps_threads (pool_run fs s) ! i = Finished"
    by (rule refill_runs [OF assms(2)]) (use assms(3,4) in auto)
  have run: "pool_run fs s = pool_run (es @ fs) (pool_init t)" by (simp add: assms(1) pool_run_append)
  have tgt: "target (ps_pool (pool_run fs s)) = t" unfolding run
    using pool_run_target [of "es @ fs" "pool_init t"] by (simp add: pool_init_def newVMMPool_def)
  have "RefillTest \<in> set (ps_threads s)" using assms(2,3) by (metis nth_mem)
  then have "0 < target (ps_pool s)"
    using pool_run_inv [of es t] unfolding pool_inv_def assms(1) [symmetric] by (metis is_refiller.simps(1))
  then have pos: "0 < t" using pool_run_target [of es "pool_init t"] by (simp add: assms(1) pool_init_def newVMMPool_def)
  have "int (idleCount (ps_pool (pool_run fs s))) = t"
    if "pops fs s = 0" "\<not> spawn_failed i fs s" "\<not> closed (ps_pool (pool_run fs s))"
  proof -
    have "ends_full i (pool_run fs s)"
      using assms(3) by (intro refill_full [OF assms(2) _ _ that]) (simp_all add: ends_full_def)
    then have "t \<le> int (idleCount (ps_pool (pool_run fs s)))"
      using fin tgt by (simp add: ends_full_def idleCount_def)
    moreover have "int (idleCount (ps_pool (pool_run fs s))) \<le> max 0 t"
      using pool_invD(5) [OF pool_run_inv, of "es @ fs" t] tgt by (simp add: run idleCount_def)
    ultimately show ?thesis using pos by simp
  qed
  with fin show ?thesis by blast
qed

text \<open>A warm-up whose goroutine is interrupted by a \<open>get\<close> that misses and spawns a VMM for itself.\<close>

definition refill_overlap :: "pool_event list" where
  "refill_overlap = [CallGet, Step 1 None, Step 2 None, Step 1 (Some (''a'', ''/s/a'')), Step 2 None, Step 1 None,
     Step 2 (Some (''g'', ''/s/g'')), Step 1 None, Step 1 (Some (''b'', ''/s/b'')), Step 1 None, CallWarm, Step 3 None,
     Step 1 None, Step 1 None]"

theorem pool_refill_completes_witness:
  "int (idleCount (ps_pool (pool_run refill_overlap (pool_run [CallWarm, Step 0 None] (pool_init 2))))) = 2"
  using pool_refill_completes [OF refl, where es = "[CallWarm, Step 0 None]" and t = 2 and i = 1 and fs = refill_overlap]
  by (simp add: refill_overlap_def pool_init_def newVMMPool_def pool_defs set_thread_def kick_def spawn_with_def missing_def)

text \<open>
  A refill request can be lost. A goroutine that has seen a full list but not yet cleared the flag
  makes a concurrent \<open>kickRefill\<close> return at once, so a \<open>get\<close> that pops in that window leaves the pool
  below its target with no refill running, although nothing failed and the pool is open.
\<close>

theorem pool_lost_refill:
  "\<exists>es. let s = pool_run es (pool_init 1)
        in list_all at_end (ps_threads s) \<and>
           \<not> closed (ps_pool s) \<and> \<not> refilling (ps_pool s) \<and> idleCount (ps_pool s) = 0"
  by (rule exI [of _ "[CallGet, Step 0 None, Step 0 None, Step 0 (Some (''a'', ''/s/a'')),
        Step 1 None, Step 1 (Some (''b'', ''/s/b'')), Step 1 None, Step 1 None,
        CallGet, Step 2 None, Step 2 None, Step 1 None]"])
    (simp add: pool_init_def newVMMPool_def pool_defs set_thread_def kick_def spawn_with_def
      idleCount_def Let_def)

section \<open>Properties of the spawn\<close>

text \<open>
  C31. What \<open>waitReady\<close> promises, with a clock that advances: it returns. If the deadline has passed at
  its first test it answers nil without a probe, whatever the probe would say; otherwise nil means
  that a probe succeeded that was started before the deadline, and an error is that of the context, after
  a failed probe, or that of the last probe, at whose end the time was over; and no probe was made after
  the one that decided. (A probe that starts in time may itself end late: the clock is read before it.)
\<close>

theorem waitReady_correct:
  assumes "clock_ok now"
  shows "\<exists>r. waitReady now timeout fn done = Some r \<and>
     (if now 1 < now 0 + timeout then wait_result now (now 0 + timeout) fn done 0 r
      else r = None \<and> (\<forall>fn'. waitReady now timeout fn' done = Some None))"
proof (cases "now 1 < now 0 + timeout")
  case True
  then show ?thesis
    using waitReady_loop_result [of now 0 "now 0 + timeout" fn "done" None] assms
    by (auto simp: clock_ok_def waitReady_def)
next
  case False
  then have "waitReady now timeout f done = Some None" for f
    by (simp add: waitReady_def waitReady_loop.simps)
  with False show ?thesis by simp
qed

theorem waitReady_correct_witness:
  "waitReady (\<lambda>k. 5 * int k) 100 (\<lambda>k. if k = 3 then None else Some (Ext ''refused'')) (\<lambda>k. None) = Some None"
proof -
  let ?fn = "\<lambda>k. if k = (3 :: nat) then None else Some (Ext ''refused'')"
  have "clock_ok (\<lambda>k. 5 * int k)" by (simp add: clock_ok_def)
  from waitReady_correct [OF this, of 100 ?fn "\<lambda>k. None"]
  obtain r where r: "waitReady (\<lambda>k. 5 * int k) 100 ?fn (\<lambda>k. None) = Some r"
    "wait_result (\<lambda>k. 5 * int k) (5 * int 0 + 100) ?fn (\<lambda>k. None) 0 r" by auto
  have "\<not> (tried ?fn (\<lambda>k. None) 0 j \<and> 3 < j)" for j by (auto simp: tried_def)
  then have "r = None" using r(2) by (cases r) fastforce+
  with r(1) show ?thesis by simp
qed

text \<open>
  With a timeout that is not positive, \<open>waitReady\<close> reports success without having probed once,
  whatever the probe would have said.
\<close>

theorem waitReady_no_probe:
  assumes "clock_ok now" "timeout \<le> 0"
  shows "waitReady now timeout fn done = Some None"
  using assms by (simp add: waitReady_def waitReady_loop.simps clock_ok_def)

theorem waitReady_no_probe_witness:
  "waitReady (\<lambda>k. 5 * int k) 0 (\<lambda>k. Some (Ext ''refused'')) (\<lambda>k. None) = Some None"
  by (rule waitReady_no_probe) (simp_all add: clock_ok_def)

text \<open>
  The spawn of one VMM implements the step of the pool model: it returns, and it changes the set
  of running processes exactly as \<open>spawn_with\<close> does for its outcome, so a VMM that was started but
  never answered is killed before the error is returned.
\<close>

theorem spawn_refines:
  assumes "clock_ok (se_now env)" "ps_next s \<notin> ps_alive s"
    and pid: "\<And>argv p. se_start env argv = Inr p \<Longrightarrow> p = ps_next s"
  shows "\<exists>r acts. spawnPrefixed env stateDir binary bootWait newid prefix = Some (r, acts) \<and> r \<noteq> Panic \<and>
     spawn_with (case r of Ok h \<Rightarrow> Some (h_id h, h_dir h) | _ \<Rightarrow> None) s =
       (case r of Ok h \<Rightarrow> Some h | _ \<Rightarrow> None,
        s\<lparr>ps_alive := acts_alive (ps_alive s) acts,
          ps_next := (if is_ok r then Suc (ps_next s) else ps_next s)\<rparr>)"
proof -
  obtain r acts where ra: "spawnPrefixed env stateDir binary bootWait newid prefix = Some (r, acts)"
    using spawn_returns [OF assms(1), of stateDir binary bootWait newid prefix] by auto
  show ?thesis
    using ra assms(2)
    by (intro exI [of _ r] exI [of _ acts])
      (auto simp: spawnPrefixed_def startVMMPrefixed_def spawn_with_def Let_def dest!: pid
        split: option.splits res.splits prod.splits sum.splits)
qed

text \<open>A machine on which every step of a spawn succeeds at once, and one whose VMM never answers.\<close>

definition good_env :: "nat \<Rightarrow> spawn_env" where
  "good_env pid = \<lparr>se_mkdir = (\<lambda>_. None), se_log = (\<lambda>_. None), se_start = (\<lambda>_. Inr pid),
     se_now = (\<lambda>k. 5 * int k), se_ping = (\<lambda>_ _. None), se_done = (\<lambda>_. None)\<rparr>"

theorem spawn_refines_witness:
  "\<exists>r acts. spawnPrefixed (good_env 0) ''/s'' ''ch'' 100 ''id'' [] = Some (r, acts) \<and> r \<noteq> Panic"
  using spawn_refines [of "good_env 0" "pool_init 1" "''/s''" "''ch''" 100 "''id''" "[]"]
  by (auto simp: good_env_def clock_ok_def pool_init_def)

end
