(* ===== verification/ChDriver.thy ===== *)
theory ChDriver
  imports ChClient Image VmmPool Agent Vmnet FakeDriver
begin

text \<open>
  The Cloud Hypervisor driver, \<open>driver.go\<close> and \<open>netguest.go\<close>: creating, restoring, snapshotting and
  stopping a microVM. The state is a world of instances, the VMM pool, the VMM processes that run and
  a machine state \<open>'g\<close> for everything else; what the machine does on the calls of the code (HTTP
  requests, dials, commands, files, time) is a parameter, the record \<open>machine\<close>.
\<close>

section \<open>Configuration\<close>

record ChConfig =
  BinaryPath :: string
  KernelPath :: string
  RootfsPath :: string
  StateDir :: string
  Cmdline :: string
  BootWait :: int
  PoolSize :: int
  RestoreMode :: string

text \<open>\<open>tmp\<close> is \<open>os.TempDir()\<close>; durations are in milliseconds.\<close>

definition withDefaults :: "string \<Rightarrow> ChConfig \<Rightarrow> ChConfig" where
  "withDefaults tmp c = c\<lparr>
     BinaryPath := (if BinaryPath c = [] then ''cloud-hypervisor'' else BinaryPath c),
     StateDir := (if StateDir c = [] then Join [tmp, ''vessel-ch''] else StateDir c),
     Cmdline := (if Cmdline c = [] then
        ''console=ttyS0 console=ttyAMA0 root=/dev/vda ro init=/sbin/init'' else Cmdline c),
     BootWait := (if BootWait c = 0 then 10000 else BootWait c),
     RestoreMode := (if RestoreMode c = [] then MemoryRestoreOnDemand else RestoreMode c)\<rparr>"

section \<open>The machine and the world\<close>

text \<open>
  \<open>m_probe g k\<close> is the machine at the \<open>k\<close>-th probe of a wait that starts in \<open>g\<close>, \<open>m_waited g\<close> after
  it, \<open>m_delay g k\<close> the time that passes in round \<open>k\<close> beyond the pause of 5 ms, \<open>m_done g k\<close> the error
  of the context. \<open>m_refill g\<close> is how many rounds the refill goroutine completes during a call of \<open>get\<close>.
\<close>

record 'g machine =
  m_mkdir :: "'g \<Rightarrow> string \<Rightarrow> err option"
  m_log :: "'g \<Rightarrow> string \<Rightarrow> err option"
  m_start :: "'g \<Rightarrow> string list \<Rightarrow> err option"
  m_delay :: "'g \<Rightarrow> nat \<Rightarrow> nat"
  m_done :: "'g \<Rightarrow> nat \<Rightarrow> err option"
  m_probe :: "'g \<Rightarrow> nat \<Rightarrow> 'g"
  m_waited :: "'g \<Rightarrow> 'g"
  m_refill :: "'g \<Rightarrow> nat"
  m_http :: "'g http"
  m_hv :: "string \<Rightarrow> 'g \<Rightarrow> hv_sys"
  m_agent :: "string \<Rightarrow> 'g conn"
  m_netns :: "'g runner"
  m_js :: net_json
  m_tap :: "'g \<Rightarrow> tap_sys"
  m_fd :: "string \<Rightarrow> 'g \<Rightarrow> fd_sys"
  m_fd_sent :: "fd_io list \<Rightarrow> 'g \<Rightarrow> 'g"
  m_img :: "'g img_os"
  m_RemoveAll :: "string \<Rightarrow> 'g \<Rightarrow> err option \<times> 'g"
  m_MkdirAll :: "string \<Rightarrow> 'g \<Rightarrow> err option \<times> 'g"
  m_ReadDir :: "string \<Rightarrow> 'g \<Rightarrow> err + (string \<times> bool) list"
  m_Link :: "string \<Rightarrow> string \<Rightarrow> 'g \<Rightarrow> err option \<times> 'g"
  m_ReadFile :: "string \<Rightarrow> 'g \<Rightarrow> err + string"
  m_WriteFile :: "string \<Rightarrow> string \<Rightarrow> 'g \<Rightarrow> err option \<times> 'g"
  m_unmarshal :: "string \<Rightarrow> err + (string \<times> json) list option"

record netSetup =
  ns_ns :: NS
  ns_tap :: string
  ns_cfg :: VmnetConfig

text \<open>
  A client of the guest agent: its counter, and whether its connection is open. A wait that ends
  without a probe leaves the connection nil.
\<close>

datatype agent_client = NilConn | Conn "64 word" bool

record ChInst =
  ci_id :: string
  ci_dir :: string
  ci_vsock :: string
  ci_pid :: nat
  ci_agent :: "agent_client option"
  ci_state :: State
  ci_netns :: string
  ci_netCfg :: "netSetup option"

record 'g ChWorld =
  cw_heap :: "nat \<rightharpoonup> ChInst"
  cw_next :: nat
  cw_pool :: Pool
  cw_procs :: "nat set"
  cw_pid :: nat
  cw_entropy :: "8 word list list"
  cw_g :: 'g

definition api_sock :: "ChInst \<Rightarrow> string" where
  "api_sock i = Join [ci_dir i, ''api.sock'']"

section \<open>Waiting\<close>

text \<open>The clock of a wait, by construction one that every round advances by at least 5 ms.\<close>

fun clock_of :: "(nat \<Rightarrow> nat) \<Rightarrow> nat \<Rightarrow> int" where
  "clock_of d 0 = 0"
| "clock_of d (Suc 0) = int (d 0)"
| "clock_of d (Suc (Suc k)) = clock_of d (Suc k) + 5 + int (d (Suc k))"

lemma clock_of_ok: "clock_ok (clock_of d)"
  by (simp add: clock_ok_def)

text \<open>\<open>None\<close> of \<open>waitReady\<close>, a wait that never ends, cannot happen on such a clock.\<close>

definition waitFor :: "'g machine \<Rightarrow> ChConfig \<Rightarrow> (nat \<Rightarrow> err option) \<Rightarrow> 'g \<Rightarrow> unit res \<times> 'g" where
  "waitFor M cfg fn g =
     (case waitReady (clock_of (m_delay M g)) (BootWait cfg) fn (m_done M g) of
        None \<Rightarrow> (Panic, g)
      | Some (Some e) \<Rightarrow> (Err e, m_waited M g)
      | Some None \<Rightarrow> (Ok (), m_waited M g))"

definition agentVsockPort :: nat where "agentVsockPort = 5000"
definition guestCID :: nat where "guestCID = 3"

definition wait_ping :: "'g machine \<Rightarrow> ChConfig \<Rightarrow> ChInst \<Rightarrow> 'g \<Rightarrow> unit res \<times> 'g" where
  "wait_ping M cfg i g = waitFor M cfg (\<lambda>k. fst (api_Ping (m_http M) (api_sock i) (m_probe M g k))) g"

text \<open>The wait that dials the agent: the last probe leaves its connection, if there was a probe.\<close>

definition dial_probe :: "'g machine \<Rightarrow> string \<Rightarrow> 'g \<Rightarrow> nat \<Rightarrow> err option" where
  "dial_probe M vsock g k =
     (case fst (DialHybridVsock (m_hv M vsock (m_probe M g k)) agentVsockPort) of
        Inl e \<Rightarrow> Some e
      | Inr _ \<Rightarrow> None)"

definition wait_dial :: "'g machine \<Rightarrow> ChConfig \<Rightarrow> ChInst \<Rightarrow> 'g \<Rightarrow> agent_client res \<times> 'g" where
  "wait_dial M cfg i g =
     (case waitFor M cfg (dial_probe M (ci_vsock i) g) g of
        (Panic, g') \<Rightarrow> (Panic, g')
      | (Err e, g') \<Rightarrow> (Err e, g')
      | (Ok _, g') \<Rightarrow> (Ok (if int (m_delay M g 0) < BootWait cfg then Conn 0 True else NilConn), g'))"

text \<open>A request to the agent: it panics on a nil connection and fails on a closed one.\<close>

definition on_agent ::
  "'g machine \<Rightarrow> string \<Rightarrow> agent_client \<Rightarrow> ('g conn \<Rightarrow> 64 word \<Rightarrow> 'g \<Rightarrow> 'a res \<times> 64 word \<times> 'g) \<Rightarrow> 'g \<Rightarrow>
   'a res \<times> agent_client \<times> 'g" where
  "on_agent M vsock c call g =
     (case c of
        NilConn \<Rightarrow> (Panic, NilConn, g)
      | Conn seq False \<Rightarrow>
          (Err (Wrapf ''agent send: %w'' [] (Ext ''use of closed network connection'')), Conn (seq + 1) False, g)
      | Conn seq True \<Rightarrow> (case call (m_agent M vsock) seq g of (r, seq', g') \<Rightarrow> (r, Conn seq' True, g')))"

section \<open>The pool in the driver\<close>

definition spawn_env_of :: "'g machine \<Rightarrow> 'g ChWorld \<Rightarrow> spawn_env" where
  "spawn_env_of M w = \<lparr>se_mkdir = m_mkdir M (cw_g w), se_log = m_log M (cw_g w),
     se_start = (\<lambda>argv. case m_start M (cw_g w) argv of Some e \<Rightarrow> Inl e | None \<Rightarrow> Inr (cw_pid w)),
     se_now = clock_of (m_delay M (cw_g w)),
     se_ping = (\<lambda>sock k. fst (api_Ping (m_http M) sock (m_probe M (cw_g w) k))),
     se_done = m_done M (cw_g w)\<rparr>"

text \<open>A spawn takes a fresh identifier and, if it comes to that, a fresh process number.\<close>

definition run_spawn ::
  "'g machine \<Rightarrow> (spawn_env \<Rightarrow> string \<Rightarrow> (vmmHandle res \<times> spawn_act list) option) \<Rightarrow> 'g ChWorld \<Rightarrow>
   vmmHandle res \<times> 'g ChWorld" where
  "run_spawn M spawn w =
     (let (b, rest) = rand_Read (cw_entropy w)
      in case spawn (spawn_env_of M w) (NewID b) of
           None \<Rightarrow> (Panic, w)
         | Some (r, acts) \<Rightarrow>
             (r, w\<lparr>cw_entropy := rest, cw_procs := acts_alive (cw_procs w) acts,
               cw_pid := Suc (cw_pid w), cw_g := m_waited M (cw_g w)\<rparr>))"

definition drv_spawn :: "'g machine \<Rightarrow> ChConfig \<Rightarrow> 'g ChWorld \<Rightarrow> vmmHandle res \<times> 'g ChWorld" where
  "drv_spawn M cfg =
     run_spawn M (\<lambda>env nid. pool_spawn env (StateDir cfg) (BinaryPath cfg) (BootWait cfg) nid)"

definition drv_spawnInNetns ::
  "'g machine \<Rightarrow> ChConfig \<Rightarrow> string \<Rightarrow> 'g ChWorld \<Rightarrow> vmmHandle res \<times> 'g ChWorld" where
  "drv_spawnInNetns M cfg netns =
     run_spawn M (\<lambda>env nid. spawnInNetns env (StateDir cfg) (BinaryPath cfg) (BootWait cfg) nid netns)"

definition kill_handle :: "'g machine \<Rightarrow> vmmHandle \<Rightarrow> 'g ChWorld \<Rightarrow> 'g ChWorld" where
  "kill_handle M h w =
     w\<lparr>cw_procs := cw_procs w - {h_pid h}, cw_g := snd (m_RemoveAll M (h_dir h) (cw_g w))\<rparr>"

text \<open>Rounds of the refill goroutine, and \<open>get\<close>, during which some of them happen.\<close>

fun refill_rounds :: "'g machine \<Rightarrow> ChConfig \<Rightarrow> nat \<Rightarrow> 'g ChWorld \<Rightarrow> 'g ChWorld" where
  "refill_rounds M cfg 0 w = w"
| "refill_rounds M cfg (Suc n) w =
     (if \<not> refill_more (cw_pool w) then w\<lparr>cw_pool := refill_done (cw_pool w)\<rparr>
      else case drv_spawn M cfg w of
             (Ok h, w1) \<Rightarrow>
               (case refill_put h (cw_pool w1) of
                  (True, p) \<Rightarrow> refill_rounds M cfg n (w1\<lparr>cw_pool := p\<rparr>)
                | (False, p) \<Rightarrow> kill_handle M h (w1\<lparr>cw_pool := refill_done p\<rparr>))
           | (_, w1) \<Rightarrow> w1\<lparr>cw_pool := refill_done (cw_pool w1)\<rparr>)"

definition drv_kick :: "'g machine \<Rightarrow> ChConfig \<Rightarrow> 'g ChWorld \<Rightarrow> 'g ChWorld" where
  "drv_kick M cfg w =
     (let w' = w\<lparr>cw_pool := snd (kickRefill (cw_pool w))\<rparr>
      in if refilling (cw_pool w') then refill_rounds M cfg (m_refill M (cw_g w')) w' else w')"

definition drv_get :: "'g machine \<Rightarrow> ChConfig \<Rightarrow> 'g ChWorld \<Rightarrow> vmmHandle res \<times> 'g ChWorld" where
  "drv_get M cfg w =
     (case get_pop (cw_pool w) of
        (Some h, p) \<Rightarrow> (Ok h, drv_kick M cfg (w\<lparr>cw_pool := p\<rparr>))
      | (None, p) \<Rightarrow> drv_spawn M cfg (drv_kick M cfg (w\<lparr>cw_pool := p\<rparr>)))"

definition ch_Close :: "'g machine \<Rightarrow> 'g ChWorld \<Rightarrow> 'g ChWorld" where
  "ch_Close M w =
     (case pool_close (cw_pool w) of (hs, p) \<Rightarrow> foldl (\<lambda>v h. kill_handle M h v) (w\<lparr>cw_pool := p\<rparr>) hs)"

section \<open>Pod networking\<close>

definition cniDev :: string where "cniDev = ''eth0''"
definition guestDev :: string where "guestDev = ''eth0''"

definition tapName :: "string \<Rightarrow> string" where
  "tapName sid = ''vtap'' @ (if length sid > 8 then take 8 sid else sid)"

text \<open>What \<open>setupNetwork\<close> and \<open>applyRestoredNetwork\<close> begin with: read the identity, mirror the TAP.\<close>

definition bridge :: "'g machine \<Rightarrow> ChInst \<Rightarrow> 'g \<Rightarrow> (err + netSetup) \<times> 'g" where
  "bridge M i g =
     (let ns = EnterNS (ci_netns i)
      in case ReadConfig (m_netns M) (m_js M) ns cniDev g of
           (Panic, g1) \<Rightarrow> (Inl (Ext ''unreachable''), g1)
         | (Err e, g1) \<Rightarrow> (Inl (Wrapf ''read %s in %s: %w'' [cniDev, ci_netns i] e), g1)
         | (Ok cfg, g1) \<Rightarrow>
             if net_IP cfg = [] then
               (Inl (New ''%s in %s has no IPv4 address (CNI not run?)'' [cniDev, ci_netns i]), g1)
             else
               (let tap = tapName (ci_id i)
                in case SetupTap (m_netns M) ns cniDev tap g1 of
                     (Some e, g2) \<Rightarrow> (Inl (Wrapf ''mirror %s->%s: %w'' [cniDev, tap] e), g2)
                   | (None, g2) \<Rightarrow> (Inr \<lparr>ns_ns = ns, ns_tap = tap, ns_cfg = cfg\<rparr>, g2)))"

definition setupNetwork ::
  "'g machine \<Rightarrow> ChInst \<Rightarrow> VMConfig \<Rightarrow> 'g \<Rightarrow> err option \<times> VMConfig \<times> ChInst \<times> 'g" where
  "setupNetwork M i vmCfg g =
     (case bridge M i g of
        (Inl e, g') \<Rightarrow> (Some e, vmCfg, i, g')
      | (Inr s, g') \<Rightarrow>
          (None, vmCfg\<lparr>vm_Net := vm_Net vmCfg @
             [\<lparr>nd_Tap = ns_tap s, nd_MAC = net_MAC (ns_cfg s), nd_NumFDs = 0, nd_ID = []\<rparr>]\<rparr>,
           i\<lparr>ci_netCfg := Some s\<rparr>, g'))"

definition guest_net :: "VmnetConfig \<Rightarrow> NetConfig" where
  "guest_net cfg = \<lparr>nc_Device = guestDev, nc_IP = net_IP cfg, nc_Gateway = net_Gateway cfg,
     nc_MTU = net_MTU cfg\<rparr>"

text \<open>\<open>i.agent\<close> as a receiver; nil panics.\<close>

definition agent_ConfigureNet_on ::
  "'g machine \<Rightarrow> ChInst \<Rightarrow> VmnetConfig \<Rightarrow> 'g \<Rightarrow> unit res \<times> ChInst \<times> 'g" where
  "agent_ConfigureNet_on M i cfg g =
     (case ci_agent i of
        None \<Rightarrow> (Panic, i, g)
      | Some c \<Rightarrow>
          (case on_agent M (ci_vsock i) c (\<lambda>conn. agent_ConfigureNet conn (Some (guest_net cfg))) g of
             (r, c', g') \<Rightarrow> (r, i\<lparr>ci_agent := Some c'\<rparr>, g')))"

definition applyGuestNetwork :: "'g machine \<Rightarrow> ChInst \<Rightarrow> 'g \<Rightarrow> unit res \<times> ChInst \<times> 'g" where
  "applyGuestNetwork M i g =
     (case ci_netCfg i of None \<Rightarrow> (Ok (), i, g) | Some s \<Rightarrow> agent_ConfigureNet_on M i (ns_cfg s) g)"

definition teardownNetwork :: "'g machine \<Rightarrow> ChInst \<Rightarrow> 'g \<Rightarrow> ChInst \<times> 'g" where
  "teardownNetwork M i g =
     (case ci_netCfg i of
        None \<Rightarrow> (i, g)
      | Some s \<Rightarrow> (i\<lparr>ci_netCfg := None\<rparr>, snd (TeardownTap (m_netns M) (ns_ns s) (ns_tap s) g)))"

definition applyRestoredNetwork :: "'g machine \<Rightarrow> ChInst \<Rightarrow> 'g \<Rightarrow> unit res \<times> ChInst \<times> 'g" where
  "applyRestoredNetwork M i g =
     (case bridge M i g of
        (Inl e, g1) \<Rightarrow> (Err e, i, g1)
      | (Inr s, g1) \<Rightarrow>
          (let i1 = i\<lparr>ci_netCfg := Some s\<rparr>
           in case fst (OpenTapFD (m_tap M g1) (ci_netns i) (ns_tap s)) of
                Inl e \<Rightarrow> (Err (Wrapf ''open tap fd in %s: %w'' [ci_netns i] e), i1, g1)
              | Inr fd \<Rightarrow>
                  (case AddNetWithFDs (m_fd M (api_sock i) g1)
                      \<lparr>nd_Tap = [], nd_MAC = net_MAC (ns_cfg s), nd_NumFDs = 1, nd_ID = ''_net0''\<rparr> [fd] of
                     (Some e, io) \<Rightarrow> (Err (Wrapf ''hotplug NIC: %w'' [] e), i1, m_fd_sent M io g1)
                   | (None, io) \<Rightarrow> agent_ConfigureNet_on M i1 (ns_cfg s) (m_fd_sent M io g1))))"

section \<open>Boot\<close>

definition try_do ::
  "err option \<times> 'g \<Rightarrow> (err \<Rightarrow> err) \<Rightarrow> ChInst \<Rightarrow> ('g \<Rightarrow> unit res \<times> ChInst \<times> 'g) \<Rightarrow>
   unit res \<times> ChInst \<times> 'g" where
  "try_do r wrap i k = (case r of (Some e, g) \<Rightarrow> (Err (wrap e), i, g) | (None, g) \<Rightarrow> k g)"

definition pack_rootfs :: "'g machine \<Rightarrow> ChInst \<Rightarrow> string \<Rightarrow> 'g \<Rightarrow> string res \<times> 'g" where
  "pack_rootfs M i rootfs g =
     (if rootfs = [] then (Ok rootfs, g)
      else case io_Stat (m_img M) rootfs g of
             Inl _ \<Rightarrow> (Ok rootfs, g)
           | Inr info \<Rightarrow>
               if \<not> fi_IsDir info then (Ok rootfs, g)
               else
                 (case PackDir (m_img M) rootfs (Join [ci_dir i, ''rootfs.img''])
                     \<lparr>opt_Format = [], opt_ExtraMiB = 0\<rparr> g of
                    (Err e, g') \<Rightarrow> (Err (Wrapf ''pack rootfs %s: %w'' [rootfs] e), g')
                  | (Panic, g') \<Rightarrow> (Panic, g')
                  | (Ok r, g') \<Rightarrow> (Ok (img_Path r), g')))"

definition vm_config :: "ChConfig \<Rightarrow> Spec \<Rightarrow> ChInst \<Rightarrow> string \<Rightarrow> VMConfig" where
  "vm_config cfg spec i rootfs =
     (let vcpus = (if spec_VCPUs spec = 0 then 1 else spec_VCPUs spec);
          mem = (if spec_MemMiB spec = 0 then 256 else spec_MemMiB spec)
      in \<lparr>vm_CPUs = \<lparr>BootVCPUs = vcpus, MaxVCPUs = vcpus\<rparr>,
          vm_Memory = \<lparr>mem_Size = push_bit 20 (word_of_int mem), mem_Shared = True\<rparr>,
          vm_Payload = \<lparr>pl_Kernel = KernelPath cfg, pl_Cmdline = Cmdline cfg\<rparr>,
          vm_Disks = [\<lparr>disk_Path = rootfs, disk_Readonly = True\<rparr>], vm_Net = [],
          vm_Vsock = Some \<lparr>vs_CID = guestCID, vs_Socket = ci_vsock i\<rparr>,
          vm_Serial = Some \<lparr>con_Mode = ''File'', con_File = Join [ci_dir i, ''serial.log'']\<rparr>,
          vm_Console = Some \<lparr>con_Mode = ''Off'', con_File = []\<rparr>\<rparr>)"

text \<open>From \<open>vm.create\<close> on: boot the VM, wait for the agent, ping it, give the guest its network.\<close>

definition boot_vm ::
  "'g machine \<Rightarrow> ChConfig \<Rightarrow> VMConfig \<Rightarrow> ChInst \<Rightarrow> 'g \<Rightarrow> unit res \<times> ChInst \<times> 'g" where
  "boot_vm M cfg vmCfg i g =
     try_do (CreateVM (m_http M) (api_sock i) vmCfg g) (\<lambda>e. e) i (\<lambda>g.
     try_do (BootVM (m_http M) (api_sock i) g) (\<lambda>e. e) i (\<lambda>g.
       case wait_dial M cfg i g of
         (Panic, g1) \<Rightarrow> (Panic, i, g1)
       | (Err e, g1) \<Rightarrow> (Err (Wrapf ''guest agent not reachable: %w'' [] e), i, g1)
       | (Ok c, g1) \<Rightarrow>
           (case on_agent M (ci_vsock i) c agent_Ping g1 of
              (Panic, c', g2) \<Rightarrow> (Panic, i\<lparr>ci_agent := Some c'\<rparr>, g2)
            | (Err e, c', g2) \<Rightarrow> (Err (Wrapf ''guest agent ping: %w'' [] e), i\<lparr>ci_agent := Some c'\<rparr>, g2)
            | (Ok _, c', g2) \<Rightarrow>
                (case applyGuestNetwork M (i\<lparr>ci_agent := Some c'\<rparr>) g2 of
                   (Panic, i3, g3) \<Rightarrow> (Panic, i3, g3)
                 | (Err e, i3, g3) \<Rightarrow> (Err (Wrapf ''guest network config: %w'' [] e), i3, g3)
                 | (Ok _, i3, g3) \<Rightarrow> (Ok (), i3\<lparr>ci_state := StateRunning\<rparr>, g3)))))"

definition boot ::
  "'g machine \<Rightarrow> ChConfig \<Rightarrow> Spec \<Rightarrow> ChInst \<Rightarrow> 'g \<Rightarrow> unit res \<times> ChInst \<times> 'g" where
  "boot M cfg spec i g =
     (case wait_ping M cfg i g of
        (Panic, g1) \<Rightarrow> (Panic, i, g1)
      | (Err e, g1) \<Rightarrow> (Err (Wrapf ''VMM API not ready: %w'' [] e), i, g1)
      | (Ok _, g1) \<Rightarrow>
          (case pack_rootfs M i (if spec_Rootfs spec = [] then RootfsPath cfg else spec_Rootfs spec) g1 of
             (Panic, g2) \<Rightarrow> (Panic, i, g2)
           | (Err e, g2) \<Rightarrow> (Err e, i, g2)
           | (Ok rootfs, g2) \<Rightarrow>
               (let vmCfg = vm_config cfg spec i rootfs
                in if ci_netns i \<noteq> [] then
                     (case setupNetwork M i vmCfg g2 of
                        (Some e, _, i', g3) \<Rightarrow> (Err (Wrapf ''pod network: %w'' [] e), i', g3)
                      | (None, vmCfg', i', g3) \<Rightarrow> boot_vm M cfg vmCfg' i' g3)
                   else boot_vm M cfg vmCfg i g2)))"

section \<open>The instance\<close>

definition ch_State :: "nat \<Rightarrow> 'g ChWorld \<Rightarrow> State" where
  "ch_State a w = (case cw_heap w a of None \<Rightarrow> StateCreated | Some i \<Rightarrow> ci_state i)"

definition ch_Exec ::
  "'g machine \<Rightarrow> nat \<Rightarrow> string list \<Rightarrow> 'g ChWorld \<Rightarrow> int res \<times> string \<times> string \<times> 'g ChWorld" where
  "ch_Exec M a cmd w =
     (case cw_heap w a of
        None \<Rightarrow> (Panic, [], [], w)
      | Some i \<Rightarrow>
          (case ci_agent i of
             None \<Rightarrow> (Err (New ''sandbox %s: agent not connected'' [ci_id i]), [], [], w)
           | Some c \<Rightarrow>
               (case on_agent M (ci_vsock i) c (\<lambda>conn. agent_Exec conn cmd []) (cw_g w) of
                  (r, c', g') \<Rightarrow>
                    (let w' = w\<lparr>cw_heap := (cw_heap w)(a \<mapsto> i\<lparr>ci_agent := Some c'\<rparr>), cw_g := g'\<rparr>
                     in case r of
                          Panic \<Rightarrow> (Panic, [], [], w')
                        | Err e \<Rightarrow> (Err e, [], [], w')
                        | Ok (code, out, errOut) \<Rightarrow> (Ok code, out, errOut, w')))))"

text \<open>The error of a snapshot wins over the error of the resume that follows it in any case.\<close>

definition take_snapshot :: "'g machine \<Rightarrow> string \<Rightarrow> string \<Rightarrow> 'g \<Rightarrow> err option \<times> 'g" where
  "take_snapshot M sock path g =
     (case m_RemoveAll M path g of
        (Some e, g1) \<Rightarrow> (Some (Wrapf ''clear snapshot dir: %w'' [] e), g1)
      | (None, g1) \<Rightarrow>
          (case m_MkdirAll M path g1 of
             (Some e, g2) \<Rightarrow> (Some e, g2)
           | (None, g2) \<Rightarrow>
               (case PauseVM (m_http M) sock g2 of
                  (Some e, g3) \<Rightarrow> (Some (Wrapf ''pause: %w'' [] e), g3)
                | (None, g3) \<Rightarrow>
                    (case SnapshotVM (m_http M) sock (''file://'' @ path) g3 of
                       (snapErr, g4) \<Rightarrow>
                         (case ResumeVM (m_http M) sock g4 of
                            (resErr, g5) \<Rightarrow>
                              (case (resErr, snapErr) of
                                 (Some e, None) \<Rightarrow> (Some (Wrapf ''resume: %w'' [] e), g5)
                               | (_, Some e) \<Rightarrow> (Some (Wrapf ''snapshot: %w'' [] e), g5)
                               | (None, None) \<Rightarrow> (None, g5)))))))"

definition ch_Snapshot :: "'g machine \<Rightarrow> nat \<Rightarrow> string \<Rightarrow> 'g ChWorld \<Rightarrow> unit res \<times> 'g ChWorld" where
  "ch_Snapshot M a path w =
     (case cw_heap w a of
        None \<Rightarrow> (Panic, w)
      | Some i \<Rightarrow>
          (case take_snapshot M (api_sock i) path (cw_g w) of
             (Some e, g') \<Rightarrow> (Err e, w\<lparr>cw_g := g'\<rparr>)
           | (None, g') \<Rightarrow>
               (Ok (), w\<lparr>cw_g := g', cw_heap := (cw_heap w)(a \<mapsto> i\<lparr>ci_state := StateRunning\<rparr>)\<rparr>)))"

text \<open>
  \<open>Stop\<close> asks the VMM to end, waits three seconds and kills it otherwise: either way its process is
  gone. Closing a nil connection panics before anything else happens.
\<close>

definition ch_Stop :: "'g machine \<Rightarrow> nat \<Rightarrow> 'g ChWorld \<Rightarrow> unit res \<times> 'g ChWorld" where
  "ch_Stop M a w =
     (case cw_heap w a of
        None \<Rightarrow> (Panic, w)
      | Some i \<Rightarrow>
          if ci_agent i = Some NilConn then (Panic, w)
          else
            (let closed_agent = (case ci_agent i of Some (Conn seq _) \<Rightarrow> Some (Conn seq False) | c \<Rightarrow> c);
                 (i1, g1) = teardownNetwork M (i\<lparr>ci_agent := closed_agent\<rparr>) (cw_g w);
                 (_, g2) = ShutdownVMM (m_http M) (api_sock i1) g1
             in (Ok (), w\<lparr>cw_heap := (cw_heap w)(a \<mapsto> i1\<lparr>ci_state := StateStopped\<rparr>),
                   cw_procs := cw_procs w - {ci_pid i1}, cw_g := g2\<rparr>)))"

definition ch_instance :: "'g machine \<Rightarrow> nat \<Rightarrow> string \<Rightarrow> 'g ChWorld Instance" where
  "ch_instance M a sid = \<lparr>inst_ref = a, inst_ID = sid, inst_State = ch_State a,
     inst_Exec = ch_Exec M a, inst_Snapshot = ch_Snapshot M a, inst_Stop = ch_Stop M a\<rparr>"

section \<open>The driver\<close>

definition new_inst :: "vmmHandle \<Rightarrow> string \<Rightarrow> ChInst" where
  "new_inst h netns = \<lparr>ci_id = h_id h, ci_dir = h_dir h, ci_vsock = Join [h_dir h, ''vsock.sock''],
     ci_pid = h_pid h, ci_agent = None, ci_state = StateCreated, ci_netns = netns, ci_netCfg = None\<rparr>"

text \<open>
  Running the rest of a constructor on a new instance: on an error it is stopped, and the error is
  returned; a panic passes through.
\<close>

definition finish_inst ::
  "'g machine \<Rightarrow> (ChInst \<Rightarrow> 'g \<Rightarrow> unit res \<times> ChInst \<times> 'g) \<Rightarrow> ChInst \<Rightarrow> 'g ChWorld \<Rightarrow>
   'g ChWorld Instance res \<times> 'g ChWorld" where
  "finish_inst M run i w =
     (let a = cw_next w; (r, i', g') = run i (cw_g w);
          w' = w\<lparr>cw_heap := (cw_heap w)(a \<mapsto> i'), cw_next := Suc a, cw_g := g'\<rparr>
      in case r of
           Ok _ \<Rightarrow> (Ok (ch_instance M a (ci_id i)), w')
         | Err e \<Rightarrow> (case ch_Stop M a w' of (Panic, v) \<Rightarrow> (Panic, v) | (_, v) \<Rightarrow> (Err e, v))
         | Panic \<Rightarrow> (Panic, w'))"

definition ch_Create ::
  "'g machine \<Rightarrow> ChConfig \<Rightarrow> Spec option \<Rightarrow> 'g ChWorld \<Rightarrow> 'g ChWorld Instance res \<times> 'g ChWorld" where
  "ch_Create M cfg spec w =
     (case spec of
        None \<Rightarrow> (Panic, w)
      | Some s \<Rightarrow>
          (case (if spec_Netns s \<noteq> [] then drv_spawnInNetns M cfg (spec_Netns s) w else drv_get M cfg w) of
             (Panic, w1) \<Rightarrow> (Panic, w1)
           | (Err e, w1) \<Rightarrow> (Err e, w1)
           | (Ok h, w1) \<Rightarrow> finish_inst M (boot M cfg s) (new_inst h (spec_Netns s)) w1))"

text \<open>One file of a template: a hard link, or a copy where linking fails.\<close>

definition link_or_copy ::
  "'g machine \<Rightarrow> string \<Rightarrow> string \<Rightarrow> string \<Rightarrow> 'g \<Rightarrow> err option \<times> 'g" where
  "link_or_copy M snapshotPath overlay name g =
     (let src = Join [snapshotPath, name]; dst = Join [overlay, name]
      in case m_Link M src dst g of
           (None, g1) \<Rightarrow> (None, g1)
         | (Some lerr, g1) \<Rightarrow>
             (case m_ReadFile M src g1 of
                Inl rerr \<Rightarrow> (Some (Wrapf ''link/copy %s: %v / %w'' [name] rerr), g1)
              | Inr data \<Rightarrow> m_WriteFile M dst data g1))"

fun link_all ::
  "'g machine \<Rightarrow> string \<Rightarrow> string \<Rightarrow> (string \<times> bool) list \<Rightarrow> 'g \<Rightarrow> err option \<times> 'g" where
  "link_all M snapshotPath overlay [] g = (None, g)"
| "link_all M snapshotPath overlay ((name, isdir) # es) g =
     (if isdir \<or> name = ''config.json'' then link_all M snapshotPath overlay es g
      else case link_or_copy M snapshotPath overlay name g of
             (Some e, g') \<Rightarrow> (Some e, g')
           | (None, g') \<Rightarrow> link_all M snapshotPath overlay es g')"

text \<open>The rewrite of the configuration; a nil map (JSON null) is written back as null.\<close>

definition rewrite_vsock :: "string \<Rightarrow> (string \<times> json) list \<Rightarrow> (string \<times> json) list" where
  "rewrite_vsock vsockPath cfg =
     (case map_of cfg ''vsock'' of
        Some (JObj vs) \<Rightarrow> map_put ''vsock'' (JObj (map_put ''socket'' (JStr vsockPath) vs)) cfg
      | _ \<Rightarrow> cfg)"

definition clone_config :: "string \<Rightarrow> (string \<times> json) list option \<Rightarrow> string" where
  "clone_config vsockPath cfg =
     (case cfg of None \<Rightarrow> render JNull | Some kvs \<Rightarrow> render (JObj (rewrite_vsock vsockPath kvs)))"

definition prepareCloneSnapshot ::
  "'g machine \<Rightarrow> string \<Rightarrow> string \<Rightarrow> string \<Rightarrow> 'g \<Rightarrow> (err + string) \<times> 'g" where
  "prepareCloneSnapshot M snapshotPath cloneDir vsockPath g =
     (let overlay = Join [cloneDir, ''snapshot'']
      in case m_MkdirAll M overlay g of
           (Some e, g1) \<Rightarrow> (Inl e, g1)
         | (None, g1) \<Rightarrow>
             (case m_ReadDir M snapshotPath g1 of
                Inl e \<Rightarrow> (Inl (Wrapf ''read snapshot dir: %w'' [] e), g1)
              | Inr entries \<Rightarrow>
                  (case link_all M snapshotPath overlay entries g1 of
                     (Some e, g2) \<Rightarrow> (Inl e, g2)
                   | (None, g2) \<Rightarrow>
                       (case m_ReadFile M (Join [snapshotPath, ''config.json'']) g2 of
                          Inl e \<Rightarrow> (Inl (Wrapf ''read snapshot config.json: %w'' [] e), g2)
                        | Inr data \<Rightarrow>
                            (case m_unmarshal M data of
                               Inl e \<Rightarrow> (Inl (Wrapf ''parse snapshot config.json: %w'' [] e), g2)
                             | Inr cfg \<Rightarrow>
                                 (case m_WriteFile M (Join [overlay, ''config.json'']) (clone_config vsockPath cfg) g2 of
                                    (Some e, g3) \<Rightarrow> (Inl e, g3)
                                  | (None, g3) \<Rightarrow> (Inr overlay, g3)))))))"

text \<open>The request, with one retry in the default mode when the first used the on-demand mode.\<close>

definition restore_cfg :: "string \<Rightarrow> string \<Rightarrow> RestoreConfig" where
  "restore_cfg overlay mode = \<lparr>rc_SourceURL = ''file://'' @ overlay, rc_MemoryRestoreMode = mode,
     rc_Resume = True, rc_NetFDs = []\<rparr>"

definition restore_request ::
  "'g machine \<Rightarrow> ChConfig \<Rightarrow> string \<Rightarrow> string \<Rightarrow> 'g \<Rightarrow> err option \<times> 'g" where
  "restore_request M cfg sock overlay g =
     (case RestoreVM (m_http M) sock (restore_cfg overlay (RestoreMode cfg)) g of
        (None, g1) \<Rightarrow> (None, g1)
      | (Some e, g1) \<Rightarrow>
          if RestoreMode cfg = MemoryRestoreOnDemand then RestoreVM (m_http M) sock (restore_cfg overlay []) g1
          else (Some e, g1))"

definition restore_inst ::
  "'g machine \<Rightarrow> ChConfig \<Rightarrow> string \<Rightarrow> ChInst \<Rightarrow> 'g \<Rightarrow> unit res \<times> ChInst \<times> 'g" where
  "restore_inst M cfg overlay i g =
     try_do (restore_request M cfg (api_sock i) overlay g) (Wrapf ''restore: %w'' []) i (\<lambda>g.
       case wait_dial M cfg i g of
         (Panic, g1) \<Rightarrow> (Panic, i, g1)
       | (Err e, g1) \<Rightarrow> (Err (Wrapf ''guest agent not reachable after restore: %w'' [] e), i, g1)
       | (Ok c, g1) \<Rightarrow>
           (let i1 = i\<lparr>ci_agent := Some c\<rparr>
            in if ci_netns i \<noteq> [] then
                 (case applyRestoredNetwork M i1 g1 of
                    (Panic, i2, g2) \<Rightarrow> (Panic, i2, g2)
                  | (Err e, i2, g2) \<Rightarrow> (Err (Wrapf ''pod network after restore: %w'' [] e), i2, g2)
                  | (Ok _, i2, g2) \<Rightarrow> (Ok (), i2\<lparr>ci_state := StateRunning\<rparr>, g2))
               else (Ok (), i1\<lparr>ci_state := StateRunning\<rparr>, g1)))"

definition ch_Restore ::
  "'g machine \<Rightarrow> ChConfig \<Rightarrow> string \<Rightarrow> RestoreOpts \<Rightarrow> 'g ChWorld \<Rightarrow>
   'g ChWorld Instance res \<times> 'g ChWorld" where
  "ch_Restore M cfg snapshotPath opts w =
     (case drv_get M cfg w of
        (Panic, w1) \<Rightarrow> (Panic, w1)
      | (Err e, w1) \<Rightarrow> (Err e, w1)
      | (Ok h, w1) \<Rightarrow>
          (let i = new_inst h (opts_Netns opts)
           in case prepareCloneSnapshot M snapshotPath (h_dir h) (ci_vsock i) (cw_g w1) of
                (Inl e, g) \<Rightarrow> (Err e, kill_handle M h (w1\<lparr>cw_g := g\<rparr>))
              | (Inr overlay, g) \<Rightarrow> finish_inst M (restore_inst M cfg overlay) i (w1\<lparr>cw_g := g\<rparr>)))"

definition ch_Driver :: "'g machine \<Rightarrow> ChConfig \<Rightarrow> 'g ChWorld Driver" where
  "ch_Driver M cfg = \<lparr>drv_Name = ''cloudhypervisor'', drv_Create = ch_Create M cfg,
     drv_Restore = Some (ch_Restore M cfg), drv_Close = Some (ch_Close M)\<rparr>"

definition ch_New :: "string \<Rightarrow> ChConfig \<Rightarrow> 'g machine \<Rightarrow> 8 word list list \<Rightarrow> 'g \<Rightarrow> 'g ChWorld Driver \<times> 'g ChWorld" where
  "ch_New tmp cfg M rnd g =
     (let c = withDefaults tmp cfg
      in (ch_Driver M c, \<lparr>cw_heap = Map.empty, cw_next = 0, cw_pool = newVMMPool (PoolSize c),
            cw_procs = {}, cw_pid = 0, cw_entropy = rnd, cw_g = g\<rparr>))"

definition ch_Warm :: "'g machine \<Rightarrow> ChConfig \<Rightarrow> 'g ChWorld \<Rightarrow> 'g ChWorld" where
  "ch_Warm M cfg w = drv_kick M cfg w"

end
