(* ===== verification/ChContract.thy ===== *)
theory ChContract
  imports ChDriver MgrThreads
begin

text \<open>
  The Cloud Hypervisor driver keeps the contract \<open>sandbox_drivers\<close>. The invariant of its world says
  who owns each VMM process: an idle entry of the pool, an instance, or, in the middle of a
  constructor, the code itself. So a path that forgets to end a process breaks the invariant.
\<close>

section \<open>The invariant\<close>

definition idle_pids :: "'g ChWorld \<Rightarrow> nat set" where
  "idle_pids w = h_pid ` set (idle (cw_pool w))"

definition cell_pids :: "'g ChWorld \<Rightarrow> nat set" where
  "cell_pids w = ci_pid ` ran (cw_heap w)"

text \<open>\<open>ch_inv H w\<close>: besides the pool and the instances, the code holds the processes \<open>H\<close>.\<close>

definition owned :: "nat set \<Rightarrow> nat set \<Rightarrow> nat set \<Rightarrow> nat set \<Rightarrow> bool" where
  "owned I C H P \<longleftrightarrow>
     I \<subseteq> P \<and> H \<subseteq> P \<and> P \<subseteq> I \<union> C \<union> H \<and> I \<inter> C = {} \<and> I \<inter> H = {} \<and> C \<inter> H = {}"

definition cells_ok :: "'g ChWorld \<Rightarrow> bool" where
  "cells_ok w \<longleftrightarrow>
     (\<forall>a \<ge> cw_next w. cw_heap w a = None) \<and>
     (\<forall>a b i j. cw_heap w a = Some i \<longrightarrow> cw_heap w b = Some j \<longrightarrow> ci_pid i = ci_pid j \<longrightarrow> a = b) \<and>
     (\<forall>i \<in> ran (cw_heap w). ci_agent i \<noteq> Some NilConn)"

definition ch_inv :: "nat set \<Rightarrow> 'g ChWorld \<Rightarrow> bool" where
  "ch_inv H w \<longleftrightarrow>
     cells_ok w \<and> (\<forall>p \<in> cell_pids w \<union> cw_procs w. p < cw_pid w) \<and>
     distinct (map h_pid (idle (cw_pool w))) \<and> owned (idle_pids w) (cell_pids w) H (cw_procs w)"

lemma owned_more: "owned I C H P \<Longrightarrow> p \<notin> P \<Longrightarrow> p \<notin> C \<Longrightarrow> owned I C (insert p H) (insert p P)"
  by (auto simp: owned_def)

lemma owned_kill: "owned I C (insert p H) P \<Longrightarrow> p \<notin> H \<Longrightarrow> owned I C H (P - {p})"
  by (auto simp: owned_def)

lemma owned_put: "owned I C (insert p H) P \<Longrightarrow> p \<notin> H \<Longrightarrow> owned (insert p I) C H P"
  by (auto simp: owned_def)

lemma owned_pop: "owned (insert p I) C H P \<Longrightarrow> p \<notin> I \<Longrightarrow> p \<notin> H \<and> owned I C (insert p H) P"
  by (auto simp: owned_def)

lemma owned_cell: "owned I C (insert p H) P \<Longrightarrow> p \<notin> H \<Longrightarrow> owned I (insert p C) H P"
  by (auto simp: owned_def)

lemma owned_stop: "owned I C H P \<Longrightarrow> p \<in> C \<Longrightarrow> owned I C H (P - {p})"
  by (auto simp: owned_def)

definition ch_live :: "'g ChWorld \<Rightarrow> nat set" where
  "ch_live w = {a. \<exists>i. cw_heap w a = Some i \<and> ci_pid i \<in> cw_procs w}"

definition same_cells :: "'g ChWorld \<Rightarrow> 'g ChWorld \<Rightarrow> bool" where
  "same_cells w w' \<longleftrightarrow> cw_heap w' = cw_heap w \<and> cw_next w' = cw_next w \<and> cw_procs w \<inter> cell_pids w = cw_procs w' \<inter> cell_pids w"

lemma same_cells_refl [simp]: "same_cells w w"
  by (simp add: same_cells_def)

lemma same_cells_trans: "same_cells u v \<Longrightarrow> same_cells v w \<Longrightarrow> same_cells u w"
  by (simp add: same_cells_def cell_pids_def)

lemma same_cells_live: "same_cells w w' \<Longrightarrow> ch_live w' = ch_live w"
  by (auto simp: same_cells_def ch_live_def cell_pids_def ran_def set_eq_iff)

text \<open>The machine state and the entropy are no part of the invariant.\<close>

lemma ch_inv_frame [simp]:
  "ch_inv H (w\<lparr>cw_g := g\<rparr>) = ch_inv H w" "ch_inv H (w\<lparr>cw_entropy := r\<rparr>) = ch_inv H w"
  by (simp_all add: ch_inv_def cells_ok_def idle_pids_def cell_pids_def)

lemma same_cells_frame [simp]:
  "same_cells w (v\<lparr>cw_g := g\<rparr>) = same_cells w v" "same_cells w (v\<lparr>cw_entropy := r\<rparr>) = same_cells w v"
  "same_cells w (v\<lparr>cw_pool := p\<rparr>) = same_cells w v" "same_cells w (v\<lparr>cw_pid := k\<rparr>) = same_cells w v"
  "same_cells (w\<lparr>cw_pool := p\<rparr>) v = same_cells w v" "same_cells (w\<lparr>cw_g := g\<rparr>) v = same_cells w v"
  by (simp_all add: same_cells_def cell_pids_def)

lemma ch_inv_pool:
  "ch_inv H w \<Longrightarrow> idle p = idle (cw_pool w) \<Longrightarrow> ch_inv H (w\<lparr>cw_pool := p\<rparr>)"
  by (simp add: ch_inv_def cells_ok_def idle_pids_def cell_pids_def)

section \<open>Spawning and the pool\<close>

lemma spawn_alive_in:
  assumes "spawnPrefixed env sd bin bw nid prefix = Some (r, acts)"
    and "\<And>argv p. se_start env argv = Inr p \<Longrightarrow> p = pid" and "pid \<notin> ps"
  shows "case r of Ok h \<Rightarrow> h_pid h = pid \<and> acts_alive ps acts = insert pid ps
           | Err e \<Rightarrow> acts_alive ps acts = ps | Panic \<Rightarrow> False"
  using assms
  by (auto simp: spawnPrefixed_def startVMMPrefixed_def Let_def
      split: option.splits res.splits prod.splits sum.splits)

lemma run_spawn_inv:
  assumes inv: "ch_inv H w"
    and s: "run_spawn M (\<lambda>env nid. spawnPrefixed env sd bin bw nid prefix) w = (r, w')"
  shows "same_cells w w' \<and> cw_pool w' = cw_pool w \<and> r \<noteq> Panic \<and>
     (case r of Ok h \<Rightarrow> h_pid h \<notin> H \<and> ch_inv (insert (h_pid h) H) w' | _ \<Rightarrow> ch_inv H w')"
proof -
  obtain b rest where b: "rand_Read (cw_entropy w) = (b, rest)" by fastforce
  let ?env = "spawn_env_of M w"
  have "spawnPrefixed ?env sd bin bw (NewID b) prefix \<noteq> None"
    by (rule spawn_returns) (simp add: spawn_env_of_def clock_of_ok)
  then obtain q acts where q: "spawnPrefixed ?env sd bin bw (NewID b) prefix = Some (q, acts)" by auto
  have w': "r = q" "w' = w\<lparr>cw_entropy := rest, cw_procs := acts_alive (cw_procs w) acts,
      cw_pid := Suc (cw_pid w), cw_g := m_waited M (cw_g w)\<rparr>"
    using s b q by (simp_all add: run_spawn_def)
  have fresh: "cw_pid w \<notin> cw_procs w" "cw_pid w \<notin> cell_pids w" using inv by (auto simp: ch_inv_def)
  have st: "se_start ?env argv = Inr p \<Longrightarrow> p = cw_pid w" for argv p
    by (simp add: spawn_env_of_def split: option.splits)
  have alive: "case q of Ok h \<Rightarrow> h_pid h = cw_pid w \<and> acts_alive (cw_procs w) acts = insert (cw_pid w) (cw_procs w)
      | Err e \<Rightarrow> acts_alive (cw_procs w) acts = cw_procs w | Panic \<Rightarrow> False"
    by (rule spawn_alive_in [OF q _ fresh(1)]) (rule st)
  have own: "owned (idle_pids w) (cell_pids w) (insert (cw_pid w) H) (insert (cw_pid w) (cw_procs w))"
    "cw_pid w \<notin> H"
    using inv fresh owned_more [of "idle_pids w" "cell_pids w" H "cw_procs w"]
    by (auto simp: ch_inv_def owned_def)
  show ?thesis
    using inv alive own fresh
    by (cases q)
      (auto simp: w' same_cells_def ch_inv_def cells_ok_def idle_pids_def cell_pids_def less_Suc_eq)
qed

lemma drv_spawn_inv:
  assumes "ch_inv H w" "drv_spawn M cfg w = (r, w')"
  shows "same_cells w w' \<and> cw_pool w' = cw_pool w \<and> r \<noteq> Panic \<and>
     (case r of Ok h \<Rightarrow> h_pid h \<notin> H \<and> ch_inv (insert (h_pid h) H) w' | _ \<Rightarrow> ch_inv H w')"
  using run_spawn_inv [OF assms(1)] assms(2) by (simp add: drv_spawn_def pool_spawn_def)

lemma drv_spawnInNetns_inv:
  assumes "ch_inv H w" "drv_spawnInNetns M cfg n w = (r, w')"
  shows "same_cells w w' \<and> cw_pool w' = cw_pool w \<and> r \<noteq> Panic \<and>
     (case r of Ok h \<Rightarrow> h_pid h \<notin> H \<and> ch_inv (insert (h_pid h) H) w' | _ \<Rightarrow> ch_inv H w')"
  using run_spawn_inv [OF assms(1)] assms(2) by (simp add: drv_spawnInNetns_def spawnInNetns_def)

lemma kill_handle_inv:
  assumes "ch_inv (insert (h_pid h) H) w" "h_pid h \<notin> H"
  shows "ch_inv H (kill_handle M h w) \<and> same_cells w (kill_handle M h w)"
proof -
  have own: "owned (idle_pids w) (cell_pids w) (insert (h_pid h) H) (cw_procs w)"
    using assms(1) by (simp add: ch_inv_def)
  then have "h_pid h \<notin> cell_pids w" by (auto simp: owned_def)
  then have "same_cells w (kill_handle M h w)"
    by (auto simp: kill_handle_def same_cells_def)
  moreover have "idle_pids (kill_handle M h w) = idle_pids w" "cell_pids (kill_handle M h w) = cell_pids w"
    by (simp_all add: kill_handle_def idle_pids_def cell_pids_def)
  ultimately show ?thesis
    using assms(1) owned_kill [OF own assms(2)]
    by (auto simp: ch_inv_def cells_ok_def kill_handle_def)
qed

lemma kill_handle_pool [simp]: "cw_pool (kill_handle M h w) = cw_pool w"
  by (simp add: kill_handle_def)

text \<open>Moving a process between the code and the idle list.\<close>

lemma put_inv:
  assumes "ch_inv (insert (h_pid h) H) w" "h_pid h \<notin> H" "idle p = idle (cw_pool w) @ [h]"
  shows "ch_inv H (w\<lparr>cw_pool := p\<rparr>)"
  using assms owned_put [of "idle_pids w" "cell_pids w" "h_pid h" H "cw_procs w"]
  by (auto simp: ch_inv_def cells_ok_def idle_pids_def cell_pids_def owned_def)

lemma pop_inv:
  assumes "ch_inv H w" "get_pop (cw_pool w) = (Some h, p)"
  shows "h_pid h \<notin> H \<and> ch_inv (insert (h_pid h) H) (w\<lparr>cw_pool := p\<rparr>)"
proof -
  have ne: "idle (cw_pool w) \<noteq> []" using assms(2) by (auto simp: get_pop_def Let_def split: if_splits)
  then obtain hs where hs: "idle (cw_pool w) = hs @ [h]" "idle p = hs"
    using assms(2) by (cases "idle (cw_pool w)" rule: rev_cases) (auto simp: get_pop_def Let_def)
  have own: "owned (insert (h_pid h) (h_pid ` set hs)) (cell_pids w) H (cw_procs w)" "h_pid h \<notin> h_pid ` set hs"
    using assms(1) hs by (auto simp: ch_inv_def idle_pids_def)
  from owned_pop [OF this] show ?thesis
    using assms(1) hs by (auto simp: ch_inv_def cells_ok_def idle_pids_def cell_pids_def)
qed

lemma refill_rounds_inv:
  "ch_inv H w \<Longrightarrow> ch_inv H (refill_rounds M cfg n w) \<and> same_cells w (refill_rounds M cfg n w)"
proof (induction n arbitrary: w)
  case (Suc n)
  show ?case
  proof (cases "refill_more (cw_pool w)")
    case False
    then show ?thesis using Suc.prems by (simp add: ch_inv_pool refill_done_def)
  next
    case True
    obtain r w1 where s: "drv_spawn M cfg w = (r, w1)" by fastforce
    note post = drv_spawn_inv [OF Suc.prems s]
    show ?thesis
    proof (cases r)
      case (Ok h)
      then have inv: "h_pid h \<notin> H" "ch_inv (insert (h_pid h) H) w1" using post by auto
      show ?thesis
      proof (cases "closed (cw_pool w1)")
        case True
        with kill_handle_inv [OF ch_inv_pool [OF inv(2), of "refill_done (cw_pool w1)"] inv(1)]
        show ?thesis using \<open>refill_more _\<close> s Ok post
          by (auto simp: refill_put_def refill_done_def intro: same_cells_trans)
      next
        case False
        let ?w2 = "w1\<lparr>cw_pool := (cw_pool w1)\<lparr>idle := idle (cw_pool w1) @ [h]\<rparr>\<rparr>"
        have "ch_inv H ?w2" using put_inv [OF inv(2,1)] by simp
        from Suc.IH [OF this] show ?thesis using True s Ok False post
          by (auto simp: refill_put_def intro: same_cells_trans)
      qed
    qed (use True s post in \<open>auto simp: ch_inv_pool refill_done_def\<close>)
  qed
qed simp

lemma drv_kick_inv:
  assumes "ch_inv H w" shows "ch_inv H (drv_kick M cfg w) \<and> same_cells w (drv_kick M cfg w)"
proof -
  have "ch_inv H (w\<lparr>cw_pool := snd (kickRefill (cw_pool w))\<rparr>)"
    using assms by (intro ch_inv_pool) (auto simp: kickRefill_def)
  from refill_rounds_inv [OF this] this show ?thesis by (auto simp: drv_kick_def Let_def)
qed

lemma drv_get_inv:
  assumes inv: "ch_inv {} w" and g: "drv_get M cfg w = (r, w')"
  shows "same_cells w w' \<and> r \<noteq> Panic \<and> (case r of Ok h \<Rightarrow> ch_inv {h_pid h} w' | _ \<Rightarrow> ch_inv {} w')"
proof -
  obtain h p where p: "get_pop (cw_pool w) = (h, p)" by fastforce
  show ?thesis
  proof (cases h)
    case (Some x)
    with pop_inv [OF inv, of x p] p have "ch_inv {h_pid x} (w\<lparr>cw_pool := p\<rparr>)" by simp
    from drv_kick_inv [OF this, of M cfg] show ?thesis using g p Some by (auto simp: drv_get_def)
  next
    case None
    then have "p = cw_pool w" using p by (auto simp: get_pop_def Let_def split: if_splits)
    then have "ch_inv {} (w\<lparr>cw_pool := p\<rparr>)" using inv by simp
    note k = drv_kick_inv [OF this, of M cfg]
    have "drv_spawn M cfg (drv_kick M cfg (w\<lparr>cw_pool := p\<rparr>)) = (r, w')"
      using g p None by (simp add: drv_get_def)
    from drv_spawn_inv [OF conjunct1 [OF k] this] k show ?thesis
      by (auto intro: same_cells_trans split: res.splits)
  qed
qed

section \<open>Constructors\<close>

text \<open>
  What the contract asks of the machine: the first test of a wait comes before its deadline, so that
  a wait that succeeds has probed; and a file that was just renamed into place can be stat'ed.
\<close>

definition sane :: "'g machine \<Rightarrow> ChConfig \<Rightarrow> bool" where
  "sane M cfg \<longleftrightarrow> (\<forall>g. int (m_delay M g 0) < BootWait cfg) \<and>
     (\<forall>p q g g'. io_Rename (m_img M) p q g = (None, g') \<longrightarrow> (\<exists>st. io_Stat (m_img M) q g' = Inr st))"

lemma waitFor_returns: "fst (waitFor M cfg fn g) \<noteq> Panic"
proof -
  obtain r where "waitReady (clock_of (m_delay M g)) (BootWait cfg) fn (m_done M g) = Some r"
    unfolding waitReady_def using clock_of_ok waitReady_loop_returns [of "clock_of (m_delay M g)"]
    by (fastforce simp: clock_ok_def)
  then show ?thesis by (simp add: waitFor_def split: option.split)
qed

lemma wait_dial_conn:
  assumes "sane M cfg" "wait_dial M cfg i g = (r, g')"
  shows "r \<noteq> Panic \<and> (\<forall>c. r = Ok c \<longrightarrow> c = Conn 0 True)"
  using assms waitFor_returns [of M cfg "dial_probe M (ci_vsock i) g" g]
  by (auto simp: wait_dial_def sane_def split: prod.splits res.splits)

lemma PackDir_returns:
  assumes "\<And>p q g g'. io_Rename os p q g = (None, g') \<Longrightarrow> \<exists>st. io_Stat os q g' = Inr st"
  shows "fst (PackDir os src dst opts g) \<noteq> Panic"
proof -
  have "io_Rename os p q h = (None, h') \<Longrightarrow> io_Stat os q h' \<noteq> Inl e" for p q h h' e
    using assms by fastforce
  then show ?thesis
    by (auto simp: PackDir_def Let_def split: sum.splits option.splits prod.splits)
qed

lemma roundTrip_returns: "fst (roundTrip conn req seq g) \<noteq> Panic"
  by (simp add: roundTrip_def Let_def split: prod.split wire.split)

lemma ReadConfig_returns: "fst (ReadConfig exec js ns dev g) \<noteq> Panic"
  by (simp add: ReadConfig_def split: prod.split sum.split option.split list.split)

text \<open>A call to the agent on a real connection keeps a real connection.\<close>

lemma on_agent_keeps:
  assumes "\<And>conn seq g. fst (call conn seq g) \<noteq> Panic" "on_agent M v c call g = (r, c', g')" "c \<noteq> NilConn"
  shows "r \<noteq> Panic \<and> c' \<noteq> NilConn"
proof -
  have "call (m_agent M v) s g = (q, s', h) \<Longrightarrow> q \<noteq> Panic" for s q s' h
    using assms(1) [of "m_agent M v" s g] by auto
  then show ?thesis
    using assms(2,3) by (auto simp: on_agent_def split: agent_client.splits bool.splits prod.splits)
qed

lemma on_ok_returns: "fst r \<noteq> Panic \<Longrightarrow> fst (on_ok f r) \<noteq> Panic"
  by (auto simp: on_ok_def split: prod.splits res.splits)

lemma agent_calls_return:
  "fst (agent_Ping conn seq g) \<noteq> Panic" "fst (agent_ConfigureNet conn nc seq g) \<noteq> Panic"
  "fst (agent_Exec conn cmd env seq g) \<noteq> Panic"
  by (simp_all add: agent_Ping_def agent_ConfigureNet_def agent_Exec_def on_ok_returns roundTrip_returns)

text \<open>A run of a constructor is good if it keeps the process, never panics, and ends running.\<close>

definition good_run :: "ChInst \<Rightarrow> unit res \<times> ChInst \<times> 'g \<Rightarrow> bool" where
  "good_run i q = (case q of (r, i', g') \<Rightarrow>
     r \<noteq> Panic \<and> ci_pid i' = ci_pid i \<and> ci_id i' = ci_id i \<and> ci_agent i' \<noteq> Some NilConn \<and>
     (is_ok r \<longrightarrow> ci_state i' = StateRunning))"

lemma good_run_simp [simp]:
  "good_run i (r, i', g') \<longleftrightarrow>
     r \<noteq> Panic \<and> ci_pid i' = ci_pid i \<and> ci_id i' = ci_id i \<and> ci_agent i' \<noteq> Some NilConn \<and>
     (is_ok r \<longrightarrow> ci_state i' = StateRunning)"
  by (simp add: good_run_def)

text \<open>The network steps keep all but the network and the counter of the client.\<close>

definition net_step :: "ChInst \<Rightarrow> unit res \<times> ChInst \<times> 'g \<Rightarrow> bool" where
  "net_step i q = (case q of (r, i', g') \<Rightarrow>
     r \<noteq> Panic \<and> ci_pid i' = ci_pid i \<and> ci_id i' = ci_id i \<and> ci_agent i' \<noteq> Some NilConn)"

lemma net_step_simp [simp]:
  "net_step i (r, i', g') \<longleftrightarrow>
     r \<noteq> Panic \<and> ci_pid i' = ci_pid i \<and> ci_id i' = ci_id i \<and> ci_agent i' \<noteq> Some NilConn"
  by (simp add: net_step_def)

lemma configure_step:
  assumes "ci_agent j = Some c" "c \<noteq> NilConn" "ci_pid j = ci_pid i" "ci_id j = ci_id i"
  shows "net_step i (agent_ConfigureNet_on M j cfg g)"
proof -
  obtain r c' g' where q: "on_agent M (ci_vsock j) c (\<lambda>conn. agent_ConfigureNet conn (Some (guest_net cfg))) g = (r, c', g')"
    by (metis prod_cases3)
  from on_agent_keeps [where call = "\<lambda>conn. agent_ConfigureNet conn (Some (guest_net cfg))",
      OF agent_calls_return(2) q assms(2)] q assms(1,3,4) show ?thesis
    by (simp add: agent_ConfigureNet_on_def)
qed

lemma guest_step:
  assumes "ci_agent i = Some c" "c \<noteq> NilConn"
  shows "net_step i (applyGuestNetwork M i g)"
  using assms
  by (cases "ci_netCfg i") (simp_all add: applyGuestNetwork_def configure_step [OF assms refl refl])

lemma restored_step:
  assumes "ci_agent i = Some c" "c \<noteq> NilConn"
  shows "net_step i (applyRestoredNetwork M i g)"
proof -
  have "net_step i (agent_ConfigureNet_on M (i\<lparr>ci_netCfg := s\<rparr>) cfg h)" for s cfg h
    using configure_step [of "i\<lparr>ci_netCfg := s\<rparr>" c i M cfg h] assms by simp
  then show ?thesis
    using assms by (auto simp: applyRestoredNetwork_def Let_def split: prod.split sum.split option.split)
qed

lemma boot_vm_good:
  assumes "sane M cfg" "ci_agent i \<noteq> Some NilConn"
  shows "good_run i (boot_vm M cfg vmCfg i g)"
proof -
  have dial: "wait_dial M cfg i h = (r, h') \<Longrightarrow> r \<noteq> Panic \<and> (\<forall>c. r = Ok c \<longrightarrow> c = Conn 0 True)" for h r h'
    by (rule wait_dial_conn [OF assms(1)])
  have ping: "on_agent M v (Conn s b) agent_Ping h = (r, c', h') \<Longrightarrow> r \<noteq> Panic \<and> c' \<noteq> NilConn" for v s b h r c' h'
    by (rule on_agent_keeps [OF agent_calls_return(1)]) auto
  have net: "applyGuestNetwork M (i\<lparr>ci_agent := Some c\<rparr>) h = (r, i', h') \<Longrightarrow> c \<noteq> NilConn \<Longrightarrow>
      r \<noteq> Panic \<and> ci_pid i' = ci_pid i \<and> ci_id i' = ci_id i \<and> ci_agent i' \<noteq> Some NilConn" for c h r i' h'
    using guest_step [of "i\<lparr>ci_agent := Some c\<rparr>" c M h] by simp
  show ?thesis
    using assms(2)
    by (auto simp: boot_vm_def try_do_def good_run_def split: prod.splits option.splits res.splits
        dest!: dial ping net)
qed

lemma boot_good:
  assumes "sane M cfg" "ci_agent i \<noteq> Some NilConn"
  shows "good_run i (boot M cfg spec i g)"
proof -
  have ping: "wait_ping M cfg i g \<noteq> (Panic, h)" for h
    using waitFor_returns [of M cfg "\<lambda>k. fst (api_Ping (m_http M) (api_sock i) (m_probe M g k))" g]
    by (auto simp: wait_ping_def)
  have "fst (PackDir (m_img M) s d x h) \<noteq> Panic" for s d x h
    using assms(1) by (intro PackDir_returns) (auto simp: sane_def)
  then have pack: "pack_rootfs M i root h \<noteq> (Panic, h')" for root h h'
    by (auto simp: pack_rootfs_def split: sum.splits prod.splits res.splits) (metis fst_conv)
  have net: "setupNetwork M i vc h = (e, vc', i', h') \<Longrightarrow>
      ci_pid i' = ci_pid i \<and> ci_id i' = ci_id i \<and> ci_agent i' = ci_agent i" for vc h e vc' i' h'
    by (auto simp: setupNetwork_def split: prod.splits sum.splits)
  have bv: "good_run i (boot_vm M cfg vc i' h)"
    if "ci_pid i' = ci_pid i" "ci_id i' = ci_id i" "ci_agent i' = ci_agent i" for vc i' h
    using boot_vm_good [OF assms(1), of i' vc h] that assms(2) by (simp add: good_run_def)
  define root where "root = (if spec_Rootfs spec = [] then RootfsPath cfg else spec_Rootfs spec)"
  show ?thesis
    unfolding boot_def root_def [symmetric] Let_def
    using assms(2) ping pack
    by (auto split: prod.split res.split option.split intro!: bv dest: net)
qed

lemma restore_good:
  assumes "sane M cfg" "ci_agent i \<noteq> Some NilConn"
  shows "good_run i (restore_inst M cfg overlay i g)"
proof -
  have dial: "wait_dial M cfg i h = (r, h') \<Longrightarrow> r \<noteq> Panic \<and> (\<forall>c. r = Ok c \<longrightarrow> c = Conn 0 True)" for h r h'
    by (rule wait_dial_conn [OF assms(1)])
  have net: "applyRestoredNetwork M (i\<lparr>ci_agent := Some c\<rparr>) h = (r, i', h') \<Longrightarrow> c \<noteq> NilConn \<Longrightarrow>
      r \<noteq> Panic \<and> ci_pid i' = ci_pid i \<and> ci_id i' = ci_id i \<and> ci_agent i' \<noteq> Some NilConn" for c h r i' h'
    using restored_step [of "i\<lparr>ci_agent := Some c\<rparr>" c M h] by simp
  show ?thesis
    using assms(2)
    by (auto simp: restore_inst_def try_do_def good_run_def Let_def split: prod.splits option.splits res.splits
        dest!: dial net)
qed

section \<open>The contract\<close>

definition ch_handle :: "'g machine \<Rightarrow> 'g ChWorld \<Rightarrow> 'g ChWorld Instance \<Rightarrow> bool" where
  "ch_handle M w i \<longleftrightarrow> (\<exists>a c. cw_heap w a = Some c \<and> i = ch_instance M a (ci_id c))"

lemma ch_instance_sel [simp]:
  "inst_ref (ch_instance M a s) = a" "inst_ID (ch_instance M a s) = s"
  "inst_State (ch_instance M a s) = ch_State a" "inst_Stop (ch_instance M a s) = ch_Stop M a"
  "inst_Snapshot (ch_instance M a s) = ch_Snapshot M a" "inst_Exec (ch_instance M a s) = ch_Exec M a"
  by (simp_all add: ch_instance_def)

lemma same_cells_handle: "same_cells w w' \<Longrightarrow> ch_handle M w' = ch_handle M w"
  by (simp add: same_cells_def ch_handle_def fun_eq_iff)

lemma ch_frame [simp]:
  "ch_live (w\<lparr>cw_g := g\<rparr>) = ch_live w" "ch_handle M (w\<lparr>cw_g := g\<rparr>) = ch_handle M w"
  by (simp_all add: ch_live_def ch_handle_def fun_eq_iff)

lemma handle_mono:
  assumes "\<And>a c. cw_heap w a = Some c \<Longrightarrow> \<exists>c'. cw_heap w' a = Some c' \<and> ci_id c' = ci_id c"
  shows "ch_handle M w \<le> ch_handle M w'"
proof (rule predicate1I)
  fix x assume "ch_handle M w x"
  then obtain a c where "cw_heap w a = Some c" "x = ch_instance M a (ci_id c)"
    by (auto simp: ch_handle_def)
  with assms [of a c] obtain c' where "cw_heap w' a = Some c'" "x = ch_instance M a (ci_id c')" by auto
  then show "ch_handle M w' x" unfolding ch_handle_def by blast
qed

lemma in_pids: "h a = Some i \<Longrightarrow> ci_pid i \<in> ci_pid ` ran h"
  by (auto simp: ran_def)

lemma pids_upd:
  assumes "h a = Some i" "ci_pid i' = ci_pid i"
  shows "ci_pid ` ran (h(a \<mapsto> i')) = ci_pid ` ran h"
proof (rule set_eqI, rule iffI)
  fix p assume "p \<in> ci_pid ` ran (h(a \<mapsto> i'))"
  then obtain b c where "(h(a \<mapsto> i')) b = Some c" "p = ci_pid c" by (auto simp: ran_def)
  then show "p \<in> ci_pid ` ran h"
    using assms by (cases "b = a") (auto simp: ran_def image_iff)
next
  fix p assume "p \<in> ci_pid ` ran h"
  then obtain b c where "h b = Some c" "p = ci_pid c" by (auto simp: ran_def)
  then obtain d where "(h(a \<mapsto> i')) b = Some d" "p = ci_pid d" using assms by (cases "b = a") auto
  then show "p \<in> ci_pid ` ran (h(a \<mapsto> i'))" by (simp only: in_pids)
qed

text \<open>Updating an instance in place, and giving a held process to a new one.\<close>

lemma update_cell:
  assumes inv: "ch_inv H w" and a: "cw_heap w a = Some i"
    and i': "ci_pid i' = ci_pid i" "ci_id i' = ci_id i" "ci_agent i' \<noteq> Some NilConn"
    and w': "w' = w\<lparr>cw_heap := (cw_heap w)(a \<mapsto> i')\<rparr>"
  shows "ch_inv H w'" "ch_handle M w \<le> ch_handle M w'" "ch_live w' = ch_live w"
proof -
  have cells: "cell_pids w' = cell_pids w"
    using pids_upd [of "cw_heap w" a i i', OF a i'(1)] by (simp add: w' cell_pids_def)
  have idles: "idle_pids w' = idle_pids w" by (simp add: w' idle_pids_def)
  have pid: "cw_heap w' b = Some j \<Longrightarrow> \<exists>k. cw_heap w b = Some k \<and> ci_pid k = ci_pid j" for b j
    using a i'(1) by (auto simp: w' split: if_splits)
  have "cells_ok w'"
    unfolding cells_ok_def
  proof (intro conjI allI impI ballI)
    show "cw_heap w' b = None" if "cw_next w' \<le> b" for b
      using that inv a by (auto simp: w' ch_inv_def cells_ok_def)
    show "b = c" if "cw_heap w' b = Some j" "cw_heap w' c = Some k" "ci_pid j = ci_pid k" for b c j k
      using pid [OF that(1)] pid [OF that(2)] that(3) inv by (auto simp: ch_inv_def cells_ok_def)
    show "ci_agent j \<noteq> Some NilConn" if "j \<in> ran (cw_heap w')" for j
      using that inv i'(3) by (auto simp: w' ch_inv_def cells_ok_def ran_def split: if_splits)
  qed
  then show "ch_inv H w'" using inv by (simp add: ch_inv_def cells idles) (simp add: w')
  show "ch_handle M w \<le> ch_handle M w'"
    by (rule handle_mono) (use a i'(2) in \<open>auto simp: w'\<close>)
  show "ch_live w' = ch_live w" using a i'(1) by (auto simp: ch_live_def w')
qed

lemma add_cell:
  assumes inv: "ch_inv {ci_pid i} w" and i': "ci_pid i' = ci_pid i" "ci_agent i' \<noteq> Some NilConn"
    and w': "w' = w\<lparr>cw_heap := (cw_heap w)(cw_next w \<mapsto> i'), cw_next := Suc (cw_next w)\<rparr>"
  shows "ch_inv {} w'" "ch_handle M w \<le> ch_handle M w'" "cw_next w \<notin> ch_live w"
    "ch_live w' = insert (cw_next w) (ch_live w)"
proof -
  have none: "cw_heap w (cw_next w) = None" using inv by (simp add: ch_inv_def cells_ok_def)
  have own: "owned (idle_pids w) (cell_pids w) {ci_pid i} (cw_procs w)" using inv by (simp add: ch_inv_def)
  then have pid: "ci_pid i \<in> cw_procs w" "ci_pid i \<notin> cell_pids w" by (auto simp: owned_def)
  have cells: "cell_pids w' = insert (ci_pid i) (cell_pids w)"
    using none i'(1) by (simp add: w' cell_pids_def)
  have idles: "idle_pids w' = idle_pids w" by (simp add: w' idle_pids_def)
  have old: "cw_heap w b = Some j \<Longrightarrow> b \<noteq> cw_next w \<and> ci_pid j \<noteq> ci_pid i" for b j
    using none pid(2) by (auto simp: cell_pids_def ran_def image_iff)
  have "cells_ok w'"
    unfolding cells_ok_def
  proof (intro conjI allI impI ballI)
    show "cw_heap w' b = None" if "cw_next w' \<le> b" for b
      using that inv by (auto simp: w' ch_inv_def cells_ok_def)
    show "b = c" if "cw_heap w' b = Some j" "cw_heap w' c = Some k" "ci_pid j = ci_pid k" for b c j k
      using that old i'(1) inv by (auto simp: w' ch_inv_def cells_ok_def split: if_splits)
    show "ci_agent j \<noteq> Some NilConn" if "j \<in> ran (cw_heap w')" for j
      using that inv i'(2) by (auto simp: w' ch_inv_def cells_ok_def ran_def split: if_splits)
  qed
  moreover have "owned (idle_pids w) (insert (ci_pid i) (cell_pids w)) {} (cw_procs w)"
    using owned_cell [OF own] by simp
  ultimately show "ch_inv {} w'"
    using inv pid(1) by (simp add: ch_inv_def cells idles) (simp add: w')
  show "ch_handle M w \<le> ch_handle M w'"
    by (rule handle_mono) (use none in \<open>auto simp: w'\<close>)
  show "cw_next w \<notin> ch_live w" using none by (simp add: ch_live_def)
  show "ch_live w' = insert (cw_next w) (ch_live w)"
    using none i'(1) pid(1) by (auto simp: ch_live_def w')
qed

lemma end_process:
  assumes inv: "ch_inv {} w" and a: "cw_heap w a = Some i"
    and w': "w' = w\<lparr>cw_procs := cw_procs w - {ci_pid i}\<rparr>"
  shows "ch_inv {} w'" "ch_handle M w' = ch_handle M w" "ch_live w' = ch_live w - {a}"
proof -
  have same: "cells_ok w' = cells_ok w" "cell_pids w' = cell_pids w" "idle_pids w' = idle_pids w"
    by (simp_all add: w' cells_ok_def cell_pids_def idle_pids_def)
  have "ci_pid i \<in> cell_pids w" using in_pids [of "cw_heap w", OF a] by (simp add: cell_pids_def)
  then have "owned (idle_pids w) (cell_pids w) {} (cw_procs w - {ci_pid i})"
    using inv by (intro owned_stop) (simp_all add: ch_inv_def)
  moreover have "cw_pid w' = cw_pid w" "cw_pool w' = cw_pool w" "cw_procs w' = cw_procs w - {ci_pid i}"
    by (simp_all add: w')
  ultimately show "ch_inv {} w'" using inv by (auto simp: ch_inv_def same)
  show "ch_handle M w' = ch_handle M w" by (simp add: w' ch_handle_def fun_eq_iff)
  have uniq: "b = a" if "cw_heap w b = Some c" "ci_pid c = ci_pid i" for b c
  proof -
    have "cells_ok w" using inv by (simp add: ch_inv_def)
    then show ?thesis using that a unfolding cells_ok_def by blast
  qed
  show "ch_live w' = ch_live w - {a}"
  proof (rule set_eqI)
    fix b show "b \<in> ch_live w' \<longleftrightarrow> b \<in> ch_live w - {a}"
    proof (cases "b = a")
      case False
      then have "cw_heap w b = Some c \<Longrightarrow> ci_pid c \<noteq> ci_pid i" for c using uniq by blast
      with False show ?thesis by (auto simp: ch_live_def w')
    qed (use a in \<open>simp add: ch_live_def w'\<close>)
  qed
qed

lemma ch_Stop_contract:
  assumes inv: "ch_inv {} w" and a: "cw_heap w a = Some i"
  shows "\<exists>w'. ch_Stop M a w = (Ok (), w') \<and> ch_inv {} w' \<and> ch_handle M w \<le> ch_handle M w' \<and>
     ch_live w' = ch_live w - {a} \<and> ch_State a w' = StateStopped"
proof -
  have nil: "ci_agent i \<noteq> Some NilConn" using inv a by (auto simp: ch_inv_def cells_ok_def ran_def)
  define j where "j = i\<lparr>ci_agent := (case ci_agent i of Some (Conn seq _) \<Rightarrow> Some (Conn seq False) | c \<Rightarrow> c)\<rparr>"
  obtain j1 g1 where t: "teardownNetwork M j (cw_g w) = (j1, g1)" by fastforce
  obtain e g2 where s: "ShutdownVMM (m_http M) (api_sock j1) g1 = (e, g2)" by fastforce
  let ?k = "j1\<lparr>ci_state := StateStopped\<rparr>"
  have k: "ci_pid ?k = ci_pid i" "ci_id ?k = ci_id i" "ci_agent ?k \<noteq> Some NilConn" "ci_pid j1 = ci_pid i"
    using t nil by (auto simp: teardownNetwork_def j_def split: option.splits agent_client.splits)
  let ?v = "w\<lparr>cw_heap := (cw_heap w)(a \<mapsto> ?k)\<rparr>"
  note upd = update_cell [OF inv a k(1-3) refl]
  have v: "cw_heap ?v a = Some ?k" by simp
  note fin = end_process [OF upd(1) v refl]
  let ?x = "?v\<lparr>cw_procs := cw_procs ?v - {ci_pid ?k}\<rparr>"
  have "ch_Stop M a w = (Ok (), ?x\<lparr>cw_g := g2\<rparr>)"
    using a nil t s by (simp add: ch_Stop_def j_def)
  moreover have "ch_State a (?x\<lparr>cw_g := g2\<rparr>) = StateStopped" by (simp add: ch_State_def)
  moreover have "ch_inv {} (?x\<lparr>cw_g := g2\<rparr>)" using fin(1) by (simp only: ch_inv_frame)
  moreover have "ch_handle M w \<le> ch_handle M (?x\<lparr>cw_g := g2\<rparr>)"
    using upd(2) [of M] fin(2) [of M] by (simp only: ch_frame)
  moreover have "ch_live (?x\<lparr>cw_g := g2\<rparr>) = ch_live w - {a}"
    using upd(3) fin(3) by (simp only: ch_frame)
  ultimately show ?thesis by blast
qed

lemma finish_contract:
  assumes inv: "ch_inv {ci_pid i} w" and good: "good_run i (run i (cw_g w))"
    and f: "finish_inst M run i w = (r, w')"
  shows "ch_inv {} w' \<and> ch_handle M w \<le> ch_handle M w' \<and> r \<noteq> Panic \<and>
     (case r of
        Ok x \<Rightarrow> ch_handle M w' x \<and> cw_heap w (inst_ref x) = None \<and>
          ch_live w' = insert (inst_ref x) (ch_live w) \<and> inst_State x w' = StateRunning
      | _ \<Rightarrow> ch_live w' = ch_live w)"
proof -
  let ?a = "cw_next w"
  obtain q i' g' where q: "run i (cw_g w) = (q, i', g')" by (metis prod_cases3)
  with good have g: "q \<noteq> Panic" "ci_pid i' = ci_pid i" "ci_id i' = ci_id i" "ci_agent i' \<noteq> Some NilConn"
    "is_ok q \<Longrightarrow> ci_state i' = StateRunning" by simp_all
  let ?u = "w\<lparr>cw_heap := (cw_heap w)(?a \<mapsto> i'), cw_next := Suc ?a\<rparr>" and
    ?v = "w\<lparr>cw_heap := (cw_heap w)(?a \<mapsto> i'), cw_next := Suc ?a, cw_g := g'\<rparr>"
  note add = add_cell [OF inv g(2,4) refl]
  have v: "ch_inv {} ?v" "ch_handle M w \<le> ch_handle M ?v" "ch_live ?v = insert ?a (ch_live w)"
    using add(1,4) add(2) [of M] ch_inv_frame(1) [of "{}" g' ?u] ch_frame(1) [of g' ?u] ch_frame(2) [of M g' ?u] by simp_all
  show ?thesis
  proof (cases q)
    case (Ok u)
    then have "r = Ok (ch_instance M ?a (ci_id i))" "w' = ?v"
      using f q by (simp_all add: finish_inst_def Let_def)
    moreover have "cw_heap w ?a = None" using inv by (simp add: ch_inv_def cells_ok_def)
    ultimately show ?thesis
      using v add(3) g(3,5) Ok by (auto simp: ch_handle_def ch_State_def)
  next
    case (Err e)
    from ch_Stop_contract [OF v(1), of ?a i' M] obtain x where
      x: "ch_Stop M ?a ?v = (Ok (), x)" "ch_inv {} x" "ch_handle M ?v \<le> ch_handle M x"
        "ch_live x = ch_live ?v - {?a}" by auto
    then have "r = Err e" "w' = x" using f q Err by (simp_all add: finish_inst_def Let_def)
    then show ?thesis using x v add(3) by (auto intro: order_trans)
  qed (use g(1) in simp)
qed

text \<open>\<open>Create\<close> and \<open>Restore\<close>: the shared part, and what comes before the instance exists.\<close>

definition made :: "'g machine \<Rightarrow> 'g ChWorld \<Rightarrow> 'g ChWorld Instance res \<times> 'g ChWorld \<Rightarrow> bool" where
  "made M w q = (case q of (r, w') \<Rightarrow>
     ch_inv {} w' \<and> ch_handle M w \<le> ch_handle M w' \<and>
     (case r of
        Ok x \<Rightarrow> ch_handle M w' x \<and> cw_heap w (inst_ref x) = None \<and>
          ch_live w' = insert (inst_ref x) (ch_live w) \<and> inst_State x w' = StateRunning
      | _ \<Rightarrow> ch_live w' = ch_live w))"

lemma made_after:
  assumes "same_cells w v" "made M v q"
  shows "made M w q"
  using assms same_cells_live [OF assms(1)] same_cells_handle [OF assms(1), of M]
  by (cases q; cases "fst q") (auto simp: made_def same_cells_def)

lemma made_new:
  assumes "made M w (Ok x, w')"
  shows "inst_ref x \<notin> ch_live w" "ch_handle M w j \<Longrightarrow> inst_ref j \<noteq> inst_ref x"
  using assms by (auto simp: made_def ch_live_def ch_handle_def)

lemma made_fail: "ch_inv {} v \<Longrightarrow> same_cells w v \<Longrightarrow> \<not> is_ok r \<Longrightarrow> made M w (r, v)"
  by (cases r) (simp_all add: made_def same_cells_live same_cells_handle)

lemma new_inst_sel [simp]: "ci_pid (new_inst h n) = h_pid h" "ci_agent (new_inst h n) = None"
  by (simp_all add: new_inst_def)

lemma finish_made:
  assumes "ch_inv {h_pid h} w" "\<And>i g. ci_agent i \<noteq> Some NilConn \<Longrightarrow> good_run i (run i g)"
  shows "made M w (finish_inst M run (new_inst h n) w)"
proof -
  obtain r w' where f: "finish_inst M run (new_inst h n) w = (r, w')" by fastforce
  from finish_contract [OF _ _ f] assms show ?thesis by (auto simp: made_def f)
qed

lemma ch_Create_made:
  assumes inv: "ch_inv {} w" and sane: "sane M cfg"
  shows "made M w (ch_Create M cfg spec w)"
proof (cases spec)
  case None
  then show ?thesis using made_fail [OF inv] by (simp add: ch_Create_def)
next
  case (Some s)
  obtain r w1 where g: "(if spec_Netns s \<noteq> [] then drv_spawnInNetns M cfg (spec_Netns s) w else drv_get M cfg w) = (r, w1)"
    by fastforce
  then have post: "same_cells w w1 \<and> r \<noteq> Panic \<and> (case r of Ok h \<Rightarrow> ch_inv {h_pid h} w1 | _ \<Rightarrow> ch_inv {} w1)"
    using drv_get_inv [OF inv, of M cfg r w1] drv_spawnInNetns_inv [OF inv, of M cfg "spec_Netns s" r w1]
    by (auto split: if_splits res.splits)
  show ?thesis
  proof (cases r)
    case (Ok h)
    have "made M w1 (finish_inst M (boot M cfg s) (new_inst h (spec_Netns s)) w1)"
      using post Ok by (intro finish_made boot_good [OF sane]) auto
    from made_after [OF conjunct1 [OF post] this] show ?thesis using Some g Ok by (simp add: ch_Create_def)
  qed (use post Some g in \<open>auto simp: ch_Create_def intro: made_fail\<close>)
qed

lemma ch_Restore_made:
  assumes inv: "ch_inv {} w" and sane: "sane M cfg"
  shows "made M w (ch_Restore M cfg path opts w)"
proof -
  obtain r w1 where g: "drv_get M cfg w = (r, w1)" by fastforce
  note post = drv_get_inv [OF inv g]
  show ?thesis
  proof (cases r)
    case (Ok h)
    obtain q g' where p: "prepareCloneSnapshot M path (h_dir h) (ci_vsock (new_inst h (opts_Netns opts))) (cw_g w1) = (q, g')"
      by fastforce
    have h: "ch_inv {h_pid h} (w1\<lparr>cw_g := g'\<rparr>)" "same_cells w (w1\<lparr>cw_g := g'\<rparr>)" using post Ok by simp_all
    show ?thesis
    proof (cases q)
      case (Inl e)
      have "ch_inv {} (kill_handle M h (w1\<lparr>cw_g := g'\<rparr>))" "same_cells w (kill_handle M h (w1\<lparr>cw_g := g'\<rparr>))"
        using kill_handle_inv [of h "{}" "w1\<lparr>cw_g := g'\<rparr>" M] h by (auto intro: same_cells_trans)
      from made_fail [OF this, of "Err e"] show ?thesis using g p Ok Inl by (simp add: ch_Restore_def Let_def)
    next
      case (Inr overlay)
      have "made M (w1\<lparr>cw_g := g'\<rparr>)
          (finish_inst M (restore_inst M cfg overlay) (new_inst h (opts_Netns opts)) (w1\<lparr>cw_g := g'\<rparr>))"
        by (intro finish_made restore_good [OF sane] h(1))
      then show ?thesis using made_after [OF h(2)] g p Ok Inr by (simp add: ch_Restore_def Let_def)
    qed
  qed (use post g in \<open>auto simp: ch_Restore_def intro: made_fail\<close>)
qed

lemma ch_Snapshot_contract:
  assumes inv: "ch_inv {} w" and "ch_handle M w i" and s: "inst_Snapshot i path w = (r, w')"
  shows "ch_inv {} w' \<and> ch_handle M w \<le> ch_handle M w' \<and> ch_live w' = ch_live w"
proof -
  from assms(2) obtain a c where a: "cw_heap w a = Some c" "i = ch_instance M a (ci_id c)"
    by (auto simp: ch_handle_def)
  have nil: "ci_agent c \<noteq> Some NilConn" using inv a(1) by (auto simp: ch_inv_def cells_ok_def ran_def)
  obtain e g' where t: "take_snapshot M (api_sock c) path (cw_g w) = (e, g')" by fastforce
  show ?thesis
  proof (cases e)
    case None
    let ?u = "w\<lparr>cw_g := g'\<rparr>" and ?c = "c\<lparr>ci_state := StateRunning\<rparr>"
    have w': "w' = ?u\<lparr>cw_heap := (cw_heap ?u)(a \<mapsto> ?c)\<rparr>" using s a t None by (simp add: ch_Snapshot_def)
    have "ch_inv {} ?u" "cw_heap ?u a = Some c" using inv a(1) by simp_all
    from update_cell [OF this _ _ _ w'] show ?thesis using nil by simp
  next
    case (Some x)
    then have "w' = w\<lparr>cw_g := g'\<rparr>" using s a t by (simp add: ch_Snapshot_def)
    then show ?thesis using inv by simp
  qed
qed

lemma ch_Exec_contract:
  assumes inv: "ch_inv {} w" and a: "cw_heap w a = Some c" and x: "ch_Exec M a cmd w = (code, out, errout, w')"
  shows "ch_inv {} w' \<and> ch_handle M w \<le> ch_handle M w' \<and> ch_live w' = ch_live w"
proof (cases "ci_agent c")
  case None
  with a x inv show ?thesis by (simp add: ch_Exec_def)
next
  case (Some k)
  obtain r k' g' where c: "on_agent M (ci_vsock c) k (\<lambda>conn. agent_Exec conn cmd []) (cw_g w) = (r, k', g')"
    by (metis prod_cases3)
  have "k \<noteq> NilConn" using inv a Some by (auto simp: ch_inv_def cells_ok_def ran_def)
  from on_agent_keeps [OF agent_calls_return(3) c this] have k': "Some k' \<noteq> Some NilConn" by simp
  let ?u = "w\<lparr>cw_g := g'\<rparr>"
  have w': "w' = ?u\<lparr>cw_heap := (cw_heap ?u)(a \<mapsto> c\<lparr>ci_agent := Some k'\<rparr>)\<rparr>"
    using x a Some c by (auto simp: ch_Exec_def Let_def split: res.splits)
  have "ch_inv {} ?u" "cw_heap ?u a = Some c" using inv a by simp_all
  from update_cell [OF this _ _ _ w'] k' show ?thesis by simp
qed

lemma kill_all_inv:
  "ch_inv (h_pid ` set hs) w \<Longrightarrow> distinct (map h_pid hs) \<Longrightarrow>
   ch_inv {} (foldl (\<lambda>v h. kill_handle M h v) w hs) \<and> same_cells w (foldl (\<lambda>v h. kill_handle M h v) w hs) \<and>
   cw_pool (foldl (\<lambda>v h. kill_handle M h v) w hs) = cw_pool w"
proof (induction hs arbitrary: w)
  case (Cons h hs)
  have "ch_inv (h_pid ` set hs) (kill_handle M h w)" "same_cells w (kill_handle M h w)"
    using kill_handle_inv [of h "h_pid ` set hs" w M] Cons.prems by auto
  with Cons.IH [of "kill_handle M h w"] Cons.prems show ?case by (auto intro: same_cells_trans)
qed simp

lemma ch_Close_inv:
  assumes "ch_inv {} w"
  shows "ch_inv {} (ch_Close M w) \<and> same_cells w (ch_Close M w) \<and> idle (cw_pool (ch_Close M w)) = []"
proof -
  obtain hs p where p: "pool_close (cw_pool w) = (hs, p)" by fastforce
  then have hs: "hs = idle (cw_pool w)" "idle p = []" by (auto simp: pool_close_def)
  have "owned {} (cell_pids w) (idle_pids w) (cw_procs w)"
    using assms by (auto simp: ch_inv_def owned_def)
  then have "ch_inv (h_pid ` set hs) (w\<lparr>cw_pool := p\<rparr>)"
    using assms hs by (simp add: ch_inv_def cells_ok_def idle_pids_def cell_pids_def)
  moreover have "distinct (map h_pid hs)" using assms hs by (simp add: ch_inv_def)
  ultimately show ?thesis
    using kill_all_inv [of hs "w\<lparr>cw_pool := p\<rparr>" M] hs(2) by (simp add: ch_Close_def p)
qed

lemma ch_Driver_sel [simp]:
  "drv_Name (ch_Driver M cfg) = ''cloudhypervisor''" "drv_Create (ch_Driver M cfg) = ch_Create M cfg"
  "drv_Restore (ch_Driver M cfg) = Some (ch_Restore M cfg)" "drv_Close (ch_Driver M cfg) = Some (ch_Close M)"
  by (simp_all add: ch_Driver_def)

definition is_ch :: "'g machine \<Rightarrow> ChConfig \<Rightarrow> 'g ChWorld Driver \<Rightarrow> bool" where
  "is_ch M cfg d \<longleftrightarrow> sane M cfg \<and> d = ch_Driver M cfg"

interpretation ch: sandbox_drivers "is_ch M cfg" "ch_inv {}" ch_live "ch_handle M"
  for M :: "'g machine" and cfg :: ChConfig
proof
  fix d :: "'g ChWorld Driver" and w w' spec i
  assume "is_ch M cfg d" "ch_inv {} w" "drv_Create d spec w = (Ok i, w')"
  then show "ch_inv {} w' \<and> ch_handle M w' i \<and> ch_handle M w \<le> ch_handle M w' \<and>
     inst_ref i \<notin> ch_live w \<and> ch_live w' = insert (inst_ref i) (ch_live w) \<and> inst_State i w' = StateRunning"
    using ch_Create_made [of w M cfg spec] made_new(1) [of M w i w'] by (auto simp: is_ch_def made_def)
next
  fix d :: "'g ChWorld Driver" and w w' spec q
  assume "is_ch M cfg d" "ch_inv {} w" "drv_Create d spec w = (q, w')" "\<not> is_ok q"
  then show "ch_inv {} w' \<and> ch_handle M w \<le> ch_handle M w' \<and> ch_live w' = ch_live w"
    using ch_Create_made [of w M cfg spec] by (cases q) (auto simp: is_ch_def made_def)
next
  fix d :: "'g ChWorld Driver" and w w' f path opts i
  assume "is_ch M cfg d" "ch_inv {} w" "drv_Restore d = Some f" "f path opts w = (Ok i, w')"
  then show "ch_inv {} w' \<and> ch_handle M w' i \<and> ch_handle M w \<le> ch_handle M w' \<and>
     inst_ref i \<notin> ch_live w \<and> ch_live w' = insert (inst_ref i) (ch_live w) \<and> inst_State i w' = StateRunning"
    using ch_Restore_made [of w M cfg path opts] made_new(1) [of M w i w'] by (auto simp: is_ch_def made_def)
next
  fix d :: "'g ChWorld Driver" and w w' f path opts q
  assume "is_ch M cfg d" "ch_inv {} w" "drv_Restore d = Some f" "f path opts w = (q, w')" "\<not> is_ok q"
  then show "ch_inv {} w' \<and> ch_handle M w \<le> ch_handle M w' \<and> ch_live w' = ch_live w"
    using ch_Restore_made [of w M cfg path opts] by (cases q) (auto simp: is_ch_def made_def)
next
  fix w w' :: "'g ChWorld" and i r
  assume "ch_handle M w i" and inv: "ch_inv {} w" and s: "inst_Stop i w = (r, w')"
  then obtain a c where "cw_heap w a = Some c" "i = ch_instance M a (ci_id c)" by (auto simp: ch_handle_def)
  with ch_Stop_contract [OF inv, of a c M] s
  show "ch_inv {} w' \<and> ch_handle M w \<le> ch_handle M w' \<and> ch_live w' = ch_live w - {inst_ref i} \<and>
     r \<noteq> Panic \<and> inst_State i w' = StateStopped"
    by auto
next
  fix w w' :: "'g ChWorld" and i path r
  assume "ch_handle M w i" "ch_inv {} w" "inst_Snapshot i path w = (r, w')"
  from ch_Snapshot_contract [OF this(2,1,3)]
  show "ch_inv {} w' \<and> ch_handle M w \<le> ch_handle M w' \<and> ch_live w' \<subseteq> insert (inst_ref i) (ch_live w)"
    by auto
next
  fix w w' :: "'g ChWorld" and i cmd code out errout
  assume h: "ch_handle M w i" and inv: "ch_inv {} w" and x: "inst_Exec i cmd w = (code, out, errout, w')"
  from h obtain a c where "cw_heap w a = Some c" "i = ch_instance M a (ci_id c)" by (auto simp: ch_handle_def)
  with ch_Exec_contract [OF inv, of a c M] x
  show "ch_inv {} w' \<and> ch_handle M w \<le> ch_handle M w' \<and> ch_live w' \<subseteq> ch_live w" by auto
next
  fix d :: "'g ChWorld Driver" and w :: "'g ChWorld" and c
  assume "is_ch M cfg d" "ch_inv {} w" "drv_Close d = Some c"
  then show "ch_inv {} (c w) \<and> ch_handle M w \<le> ch_handle M (c w) \<and> ch_live (c w) = ch_live w"
    using ch_Close_inv [of w M] by (auto simp: is_ch_def same_cells_live same_cells_handle)
qed

text \<open>Cells are never reused, and a snapshot does not end a VMM: the stronger contract holds too.\<close>

interpretation ch_owned: owned_drivers "is_ch M cfg" "ch_inv {}" ch_live "ch_handle M"
  for M :: "'g machine" and cfg :: ChConfig
proof
  fix d :: "'g ChWorld Driver" and w w' spec i j
  assume "is_ch M cfg d" "ch_inv {} w" "drv_Create d spec w = (Ok i, w')" "ch_handle M w j"
  then show "inst_ref j \<noteq> inst_ref i"
    using ch_Create_made [of w M cfg spec] made_new(2) [of M w i w' j] by (auto simp: is_ch_def)
next
  fix d :: "'g ChWorld Driver" and w w' f path opts i j
  assume "is_ch M cfg d" "ch_inv {} w" "drv_Restore d = Some f" "f path opts w = (Ok i, w')" "ch_handle M w j"
  then show "inst_ref j \<noteq> inst_ref i"
    using ch_Restore_made [of w M cfg path opts] made_new(2) [of M w i w' j] by (auto simp: is_ch_def)
next
  fix w w' :: "'g ChWorld" and i path r
  assume "ch_handle M w i" "ch_inv {} w" "inst_Snapshot i path w = (r, w')"
  from ch_Snapshot_contract [OF this(2,1,3)] show "ch_live w' = ch_live w" by simp
qed

end
