(* ===== verification/ChProps.thy ===== *)
theory ChProps
  imports ChContract
begin

text \<open>
  Properties of the Cloud Hypervisor driver: no VMM process outlives \<open>Shutdown\<close>, a snapshot resumes
  what it paused, a restore falls back at most once, a clone has the files of its template and leaves it as it is; and what
  the driver does not do.
\<close>

section \<open>No leak\<close>

definition ch_manager :: "'g machine \<Rightarrow> ChConfig \<Rightarrow> 'g ChWorld Manager" where
  "ch_manager M cfg = RegisterDriver NewManager (ch_Driver M cfg)"

lemma ch_New_inv: "ch_inv {} (snd (ch_New tmp cfg M rnd g)) \<and> ch_live (snd (ch_New tmp cfg M rnd g)) = {}"
  by (simp add: ch_New_def Let_def ch_inv_def cells_ok_def cell_pids_def idle_pids_def newVMMPool_def
      owned_def ch_live_def)

lemma ch_manager_ok:
  assumes "sane M cfg" "ch_inv {} w" "ch_live w = {}"
  shows "mgr_ok (is_ch M cfg) (ch_inv {}) ch_live (ch_handle M) (ch_manager M cfg) w"
  using assms by (auto simp: mgr_ok_def ch_manager_def RegisterDriver_def NewManager_def is_ch_def split: if_splits)

lemma idle_procs:
  assumes "ch_inv {} w" "ch_live w = {}"
  shows "cw_procs w \<subseteq> idle_pids w"
proof -
  have "cw_procs w \<subseteq> idle_pids w \<union> cell_pids w" using assms(1) by (auto simp: ch_inv_def owned_def)
  moreover have "p \<notin> cw_procs w" if "p \<in> cell_pids w" for p
    using that assms(2) by (auto simp: cell_pids_def ch_live_def ran_def)
  ultimately show ?thesis by blast
qed

lemma no_procs:
  assumes "ch_inv {} w" "ch_live w = {}" "idle (cw_pool w) = []"
  shows "cw_procs w = {}"
  using idle_procs [OF assms(1,2)] assms(3) by (simp add: idle_pids_def)

lemma ch_Close_idle: "idle (cw_pool (ch_Close M w)) = []"
proof -
  have "cw_pool (foldl (\<lambda>v h. kill_handle M h v) u hs) = cw_pool u" for hs and u :: "'a ChWorld"
    by (induction hs arbitrary: u) simp_all
  then show ?thesis by (simp add: ch_Close_def pool_close_def)
qed

lemma single_order:
  assumes "range_order [k \<mapsto> v] ks" shows "ks = [k]"
proof (cases ks)
  case (Cons a as)
  with assms have "a = k" "set as \<subseteq> {k}" "k \<notin> set as" by (auto simp: range_order_def)
  then show ?thesis using Cons by (cases as) auto
qed (use assms in \<open>auto simp: range_order_def\<close>)

text \<open>
  C5. No VMM process leaks: after any run of creates, restores, forks, snapshots and deletes on the Cloud
  Hypervisor driver, whatever the VMM, the guest, the network and the file system answer and whatever
  the pool spawns in the background, \<open>Shutdown\<close> does not panic and leaves no VMM process at all - of
  sandboxes, of failed attempts or of the pool - and no entry in the table.
\<close>

theorem ch_manager_no_leak:
  assumes "sane M (withDefaults tmp cfg)"
    and "ch_New tmp cfg M rnd g = (d, w0)"
    and "ids_fresh xs (RegisterDriver NewManager d) w0"
    and "mgr_run xs (RegisterDriver NewManager d) w0 = (m, w)"
    and "range_order (instances m) iks" "range_order (drivers m) dks"
    and "mgr_Shutdown m iks dks w = (r, m', w')"
  shows "r = Ok () \<and> cw_procs w' = {} \<and> instances m' = Map.empty"
proof -
  let ?cfg = "withDefaults tmp cfg"
  have d': "d = ch_Driver M ?cfg" using assms(2) by (auto simp: ch_New_def Let_def)
  then have d: "RegisterDriver NewManager d = ch_manager M ?cfg"
    by (simp add: ch_manager_def)
  have "ch_inv {} w0" "ch_live w0 = {}" using ch_New_inv [of tmp cfg M rnd g] assms(2) by simp_all
  note ok = ch_manager_ok [OF assms(1) this]
  note shut = ch.shutdown_live [OF ch.ok_run [OF ok assms(3,4) [unfolded d]] assms(5-7)]
  have drv: "drivers m = [''cloudhypervisor'' \<mapsto> ch_Driver M ?cfg]"
    using mgr_run_drivers [OF assms(4)] by (simp add: d' RegisterDriver_def NewManager_def)
  with single_order assms(6) have "dks = [''cloudhypervisor'']" by simp
  with drv assms(7) shut have "\<exists>v. w' = ch_Close M v"
    by (auto simp: mgr_Shutdown_def Let_def split: prod.splits res.splits)
  then have "idle (cw_pool w') = []" using ch_Close_idle by blast
  moreover have "ch_inv {} w'" using shut by (auto simp: mgr_ok_def)
  ultimately show ?thesis using shut no_procs by blast
qed

text \<open>A machine on which everything succeeds at once, and a pool of one.\<close>

definition plain_machine :: "'g http \<Rightarrow> 'g machine" where
  "plain_machine http = \<lparr>m_mkdir = (\<lambda>g d. None), m_log = (\<lambda>g f. None), m_start = (\<lambda>g c. None), m_delay = (\<lambda>g k. 0),
     m_done = (\<lambda>g k. None), m_probe = (\<lambda>g k. g), m_waited = (\<lambda>g. g), m_refill = (\<lambda>g. 1),
     m_http = http,
     m_hv = (\<lambda>s g. \<lparr>hv_dial = None, hv_deadline = None, hv_send = (\<lambda>d. None),
        hv_in = [''OK 1'' @ [CHR 0x0A]], hv_eof = Ext ''EOF'', hv_clear = None\<rparr>),
     m_agent = (\<lambda>s req g. (Got (reply_to req), g)), m_netns = (\<lambda>c g. (Inr [], g)),
     m_js = \<lparr>nj_links = (\<lambda>s. None), nj_addrs = (\<lambda>s. None), nj_routes = (\<lambda>s. None)\<rparr>,
     m_tap = (\<lambda>g. \<lparr>ts_gettid = 1, ts_open = (\<lambda>p. Inr 3), ts_setns = (\<lambda>f. None), ts_tun = Inr 4,
        ts_ifreq = (\<lambda>t. None), ts_tunsetiff = (\<lambda>f t. None)\<rparr>),
     m_fd = (\<lambda>s g. ok_fd_sys), m_fd_sent = (\<lambda>io g. g),
     m_img = \<lparr>io_Stat = (\<lambda>p g. Inr \<lparr>fi_IsDir = False, fi_Size = 0\<rparr>), io_LookPath = (\<lambda>p g. None),
        io_Walk = (\<lambda>p g. []), io_MkdirAll = (\<lambda>p g. (None, g)), io_Remove = (\<lambda>p g. (None, g)),
        io_Create = (\<lambda>p g. (None, g)), io_Truncate = (\<lambda>p n g. (None, g)), io_Run = (\<lambda>c g. (None, g)),
        io_Rename = (\<lambda>p q g. (None, g))\<rparr>,
     m_RemoveAll = (\<lambda>p g. (None, g)), m_MkdirAll = (\<lambda>p g. (None, g)), m_ReadDir = (\<lambda>p g. Inr []),
     m_Link = (\<lambda>p q g. (None, g)), m_ReadFile = (\<lambda>p g. Inr ''{}''), m_WriteFile = (\<lambda>p d g. (None, g)),
     m_unmarshal = (\<lambda>d. Inr (Some []))\<rparr>"

definition happy :: "nat machine" where
  "happy = plain_machine (\<lambda>s r g. (HttpStatus 204 [], g))"

definition small_cfg :: ChConfig where
  "small_cfg = \<lparr>BinaryPath = [], KernelPath = ''/k'', RootfsPath = ''/r'', StateDir = ''/s'', Cmdline = [],
     BootWait = 0, PoolSize = 1, RestoreMode = []\<rparr>"


lemma waitFor_first:
  "fn 0 = None \<Longrightarrow> int (m_delay M g 0) < BootWait cfg \<Longrightarrow> waitFor M cfg fn g = (Ok (), m_waited M g)"
  by (simp add: waitFor_def waitReady_def waitReady_loop.simps)

lemma happy_sane: "0 < BootWait cfg \<Longrightarrow> sane happy cfg"
  by (simp add: sane_def happy_def plain_machine_def)

lemma happy_api: "api_err (m_http happy) s m e b g = (None, g)"
  by (simp add: api_err_def api_call_def happy_def plain_machine_def)

lemma happy_sel:
  "m_mkdir happy g d = None" "m_log happy g d = None" "m_start happy g c = None" "m_delay happy g = (\<lambda>k. 0)"
  "m_done happy g = (\<lambda>k. None)" "m_waited happy g = g" "m_refill happy g = 1"
  by (simp_all add: happy_def plain_machine_def)

lemma happy_env:
  "spawn_env_of happy w = \<lparr>se_mkdir = (\<lambda>d. None), se_log = (\<lambda>f. None), se_start = (\<lambda>c. Inr (cw_pid w)),
     se_now = clock_of (\<lambda>k. 0), se_ping = (\<lambda>s k. None), se_done = (\<lambda>k. None)\<rparr>"
  by (simp add: spawn_env_of_def api_Ping_def happy_api happy_sel fun_eq_iff)

lemma happy_spawn:
  assumes "0 < BootWait cfg" "rand_Read (cw_entropy w) = (b, rest)"
  shows "drv_spawn happy cfg w =
    (Ok \<lparr>h_id = NewID b, h_dir = Join [StateDir cfg, NewID b], h_pid = cw_pid w\<rparr>,
     w\<lparr>cw_entropy := rest, cw_procs := insert (cw_pid w) (cw_procs w), cw_pid := Suc (cw_pid w)\<rparr>)"
proof -
  have "waitReady (clock_of (\<lambda>k. 0)) (BootWait cfg) (\<lambda>k. None) d = Some None" for d
    using assms(1) by (simp add: waitReady_def waitReady_loop.simps)
  then show ?thesis
    using assms(2)
    by (simp add: drv_spawn_def run_spawn_def pool_spawn_def spawnPrefixed_def startVMMPrefixed_def
        happy_env happy_sel Let_def)
qed

definition happy_cfg :: ChConfig where
  "happy_cfg = withDefaults ''/tmp'' small_cfg"

lemma happy_cfg_sel: "BootWait happy_cfg = 10000" "PoolSize happy_cfg = 1" "RootfsPath happy_cfg = ''/r''"
  by (simp_all add: happy_cfg_def withDefaults_def small_cfg_def)

lemma happy_boot:
  assumes "ci_netns i = []" "ci_netCfg i = None"
  shows "boot happy happy_cfg zero_Spec i g = (Ok (), i\<lparr>ci_agent := Some (Conn 1 True), ci_state := StateRunning\<rparr>, g)"
proof -
  have root: "pack_rootfs happy i s g = (Ok s, g)" for s
    by (simp add: pack_rootfs_def happy_def plain_machine_def)
  have "dial_probe happy v g k = None" for v k
    by (simp add: dial_probe_def DialHybridVsock_def happy_def plain_machine_def split1_simps)
  then have dial: "wait_dial happy happy_cfg i g = (Ok (Conn 0 True), g)"
    by (simp add: wait_dial_def waitFor_first happy_sel happy_cfg_sel)
  have ping: "wait_ping happy happy_cfg i g = (Ok (), g)"
    by (simp add: wait_ping_def waitFor_first api_Ping_def happy_api happy_sel happy_cfg_sel)
  have agent: "on_agent happy v (Conn 0 True) agent_Ping g = (Ok (), Conn 1 True, g)" for v
    by (simp add: on_agent_def agent_Ping_def on_ok_def roundTrip_def Let_def happy_def plain_machine_def reply_to_def)
  show ?thesis
    using assms
    by (simp add: boot_def ping root boot_vm_def try_do_def CreateVM_def BootVM_def happy_api dial agent
        applyGuestNetwork_def Let_def)
qed

definition happy_start :: "nat ChWorld Driver \<times> nat ChWorld" where
  "happy_start = ch_New ''/tmp'' small_cfg happy [[1, 2, 3, 4, 5, 6], [7, 8, 9, 10, 11, 12]] 0"

definition happy_run :: "nat ChWorld Manager \<times> nat ChWorld" where
  "happy_run = mgr_run [OpCreate ''cloudhypervisor'' (Some zero_Spec)]
     (RegisterDriver NewManager (fst happy_start)) (snd happy_start)"

lemma happy_create:
  "\<exists>w. ch_Create happy happy_cfg (Some zero_Spec) (snd happy_start) =
     (Ok (ch_instance happy 0 ''0708090a0b0c''), w) \<and> cw_procs w = {0, 1} \<and> length (idle (cw_pool w)) = 1"
proof -
  have [simp]: "spec_Netns zero_Spec = []" by (simp add: zero_Spec_def)
  show ?thesis
    by (simp add: happy_start_def ch_New_def happy_cfg_def [symmetric] ch_Create_def drv_get_def get_pop_def
        newVMMPool_def drv_kick_def kickRefill_def happy_sel happy_cfg_sel refill_more_def happy_spawn
        refill_put_def finish_inst_def new_inst_def happy_boot Let_def example_ids insert_commute)
qed

lemma happy_made:
  "instances (fst happy_run) =
     [''0708090a0b0c'' \<mapsto> \<lparr>entry_inst = ch_instance happy 0 ''0708090a0b0c'', entry_driver = ch_Driver happy happy_cfg\<rparr>]"
  "drivers (fst happy_run) = [''cloudhypervisor'' \<mapsto> ch_Driver happy happy_cfg]"
  "cw_procs (snd happy_run) = {0, 1}"
  "ids_fresh [OpCreate ''cloudhypervisor'' (Some zero_Spec)] (RegisterDriver NewManager (fst happy_start)) (snd happy_start)"
proof -
  obtain w where w: "ch_Create happy happy_cfg (Some zero_Spec) (snd happy_start) =
     (Ok (ch_instance happy 0 ''0708090a0b0c''), w)" "cw_procs w = {0, 1}"
    using happy_create by blast
  have d: "fst happy_start = ch_Driver happy happy_cfg"
    by (simp add: happy_start_def ch_New_def happy_cfg_def Let_def)
  show "instances (fst happy_run) =
     [''0708090a0b0c'' \<mapsto> \<lparr>entry_inst = ch_instance happy 0 ''0708090a0b0c'', entry_driver = ch_Driver happy happy_cfg\<rparr>]"
    "drivers (fst happy_run) = [''cloudhypervisor'' \<mapsto> ch_Driver happy happy_cfg]"
    "cw_procs (snd happy_run) = {0, 1}"
    "ids_fresh [OpCreate ''cloudhypervisor'' (Some zero_Spec)] (RegisterDriver NewManager (fst happy_start)) (snd happy_start)"
    by (simp_all add: happy_run_def d RegisterDriver_def NewManager_def mgr_Create_def w track_def)
qed

theorem ch_manager_no_leak_witness:
  "cw_procs (snd happy_run) = {0, 1} \<and>
   cw_procs (snd (snd (mgr_Shutdown (fst happy_run) [''0708090a0b0c''] [''cloudhypervisor''] (snd happy_run)))) = {}"
proof -
  have "sane happy (withDefaults ''/tmp'' small_cfg)"
    using happy_sane [of happy_cfg] by (simp add: happy_cfg_sel) (simp add: happy_cfg_def)
  moreover have "ch_New ''/tmp'' small_cfg happy [[1, 2, 3, 4, 5, 6], [7, 8, 9, 10, 11, 12]] 0 =
      (fst happy_start, snd happy_start)" by (simp add: happy_start_def)
  moreover have "mgr_run [OpCreate ''cloudhypervisor'' (Some zero_Spec)]
     (RegisterDriver NewManager (fst happy_start)) (snd happy_start) = (fst happy_run, snd happy_run)"
    by (simp add: happy_run_def)
  moreover have "range_order (instances (fst happy_run)) [''0708090a0b0c'']"
    "range_order (drivers (fst happy_run)) [''cloudhypervisor'']"
    by (simp_all add: happy_made range_order_def)
  moreover obtain r m' w' where
    s: "mgr_Shutdown (fst happy_run) [''0708090a0b0c''] [''cloudhypervisor''] (snd happy_run) = (r, m', w')"
    by (metis prod_cases3)
  ultimately have "cw_procs w' = {}"
    using ch_manager_no_leak [of happy "''/tmp''" small_cfg _ 0 _ _ _ _ _ _ _ r m' w'] happy_made(4) by blast
  then show ?thesis using s happy_made(3) by simp
qed

section \<open>Waits that never probe\<close>

text \<open>
  A wait whose time is already over succeeds without asking: with a negative \<open>BootWait\<close> the driver
  takes a VMM that never answered for ready, and the agent connection it never made panics in the
  first request, inside \<open>Create\<close>, which leaves the VMM process running.
\<close>

theorem ch_unprobed_panics:
  "let cfg = happy_cfg\<lparr>BootWait := - 1, PoolSize := 0\<rparr>;
       (r, w) = ch_Create happy cfg (Some zero_Spec)
         (snd (ch_New ''/tmp'' (small_cfg\<lparr>BootWait := - 1, PoolSize := 0\<rparr>) happy [[1, 2, 3, 4, 5, 6]] 0))
   in r = Panic \<and> cw_procs w = {0}"
proof -
  let ?cfg = "happy_cfg\<lparr>BootWait := - 1, PoolSize := 0\<rparr>"
  have wait: "waitFor happy ?cfg fn g = (Ok (), g)" for fn and g :: nat
    by (simp add: waitFor_def waitReady_def waitReady_loop.simps happy_sel)
  have ready: "waitReady (clock_of (\<lambda>k. 0)) (- 1) (\<lambda>k. None) d = Some None" for d
    by (simp add: waitReady_def waitReady_loop.simps)
  have [simp]: "spec_Netns zero_Spec = []" "spec_Rootfs zero_Spec = []" by (simp_all add: zero_Spec_def)
  have root: "pack_rootfs happy i s g = (Ok s, g)" for i s g
    by (simp add: pack_rootfs_def happy_def plain_machine_def)
  have boot: "boot happy ?cfg zero_Spec (new_inst h []) g = (Panic, (new_inst h [])\<lparr>ci_agent := Some NilConn\<rparr>, g)" for h g
    by (simp add: boot_def wait_ping_def wait root boot_vm_def try_do_def CreateVM_def BootVM_def happy_api
        wait_dial_def happy_sel on_agent_def new_inst_def Let_def)
  have cfg: "withDefaults ''/tmp'' (small_cfg\<lparr>BootWait := - 1, PoolSize := 0\<rparr>) = ?cfg"
    by (simp add: happy_cfg_def withDefaults_def small_cfg_def)
  show ?thesis
    by (simp add: ch_New_def cfg ch_Create_def drv_get_def get_pop_def newVMMPool_def drv_kick_def
        kickRefill_def drv_spawn_def run_spawn_def pool_spawn_def spawnPrefixed_def startVMMPrefixed_def
        happy_env happy_sel ready finish_inst_def boot Let_def)
qed

section \<open>Snapshot and restore\<close>

text \<open>HTTP that logs its requests; \<open>ans\<close> gives each answer from the requests before it.\<close>

definition log_http :: "(http_request list \<Rightarrow> http_request \<Rightarrow> http_answer) \<Rightarrow> http_request list http" where
  "log_http ans sock req log = (ans log req, log @ [req])"

definition put_req :: "string \<Rightarrow> json option \<Rightarrow> http_request" where
  "put_req endpoint body = \<lparr>hq_Method = ''PUT'', hq_URL = ''http://localhost/api/v1/'' @ endpoint,
     hq_Body = map_option render body, hq_ContentType = (if body = None then [] else ''application/json'')\<rparr>"

text \<open>An answer is good when it has a status in the two hundreds.\<close>

fun good_answer :: "http_answer \<Rightarrow> bool" where
  "good_answer (HttpErr e) = False"
| "good_answer (HttpStatus n d) = (200 \<le> n \<and> n \<le> 299)"

lemma api_err_log:
  "\<exists>e. api_err (log_http ans) sock ''PUT'' ep body log = (e, log @ [put_req ep body]) \<and>
     (e = None \<longleftrightarrow> good_answer (ans log (put_req ep body)))"
  by (auto simp: api_err_def api_call_def log_http_def put_req_def split: http_answer.splits)

text \<open>
  C17. A snapshot never leaves the VM paused without asking it to resume: nothing follows a pause that
  failed, and after a pause that succeeded the snapshot is requested and then, whatever came of it, the
  resume, last; the call succeeds exactly if all three do, and the error of the snapshot wins over
  that of the resume. A snapshot that fails does not change the recorded state.
\<close>

theorem ch_snapshot_resumes:
  assumes "m_http M = log_http ans" "cw_heap w a = Some i" "cw_g w = []"
    and "\<And>p g. m_RemoveAll M p g = (None, g)" "\<And>p g. m_MkdirAll M p g = (None, g)"
    and "ch_Snapshot M a path w = (r, w')"
  shows "let pause = put_req ''vm.pause'' None;
       snap = put_req ''vm.snapshot'' (Some (json_Snapshot \<lparr>sn_DestinationURL = ''file://'' @ path\<rparr>));
       resume = put_req ''vm.resume'' None;
       paused = good_answer (ans [] pause); snapped = good_answer (ans [pause] snap);
       resumed = good_answer (ans [pause, snap] resume)
     in cw_g w' = (if paused then [pause, snap, resume] else [pause]) \<and>
        (r = Ok () \<longleftrightarrow> paused \<and> snapped \<and> resumed) \<and>
        (\<not> paused \<longrightarrow> (\<exists>e. r = Err (Wrapf ''pause: %w'' [] e))) \<and>
        (paused \<and> \<not> snapped \<longrightarrow> (\<exists>e. r = Err (Wrapf ''snapshot: %w'' [] e))) \<and>
        (paused \<and> snapped \<and> \<not> resumed \<longrightarrow> (\<exists>e. r = Err (Wrapf ''resume: %w'' [] e))) \<and>
        (r \<noteq> Ok () \<longrightarrow> cw_heap w' = cw_heap w)"
proof -
  let ?p = "put_req ''vm.pause'' None" and ?r = "put_req ''vm.resume'' None"
    and ?s = "put_req ''vm.snapshot'' (Some (json_Snapshot \<lparr>sn_DestinationURL = ''file://'' @ path\<rparr>))"
  obtain e1 where e1: "PauseVM (m_http M) (api_sock i) [] = (e1, [?p])" "e1 = None \<longleftrightarrow> good_answer (ans [] ?p)"
    using api_err_log [of ans "api_sock i" "''vm.pause''" None "[]"] assms(1) by (auto simp: PauseVM_def)
  obtain e2 where e2: "SnapshotVM (m_http M) (api_sock i) (''file://'' @ path) [?p] = (e2, [?p, ?s])"
    "e2 = None \<longleftrightarrow> good_answer (ans [?p] ?s)"
    using api_err_log [of ans "api_sock i" "''vm.snapshot''" _ "[?p]"] assms(1) by (auto simp: SnapshotVM_def)
  obtain e3 where e3: "ResumeVM (m_http M) (api_sock i) [?p, ?s] = (e3, [?p, ?s, ?r])"
    "e3 = None \<longleftrightarrow> good_answer (ans [?p, ?s] ?r)"
    using api_err_log [of ans "api_sock i" "''vm.resume''" None "[?p, ?s]"] assms(1) by (auto simp: ResumeVM_def)
  have "ch_Snapshot M a path w = (r, w')" by fact
  then show ?thesis
    using assms(2-5) e1 e2 e3
    by (cases e1; cases e2; cases e3) (auto simp: ch_Snapshot_def take_snapshot_def Let_def)
qed

text \<open>A VMM whose snapshots fail.\<close>

definition full_disk :: "http_request list \<Rightarrow> http_request \<Rightarrow> http_answer" where
  "full_disk log req = HttpStatus (if hq_Body req = None then 204 else 500) []"

definition one_vm :: "http_request list ChWorld" where
  "one_vm = \<lparr>cw_heap = [0 \<mapsto> new_inst \<lparr>h_id = ''vm'', h_dir = ''/s/vm'', h_pid = 0\<rparr> []], cw_next = 1,
     cw_pool = newVMMPool 0, cw_procs = {0}, cw_pid = 1, cw_entropy = [], cw_g = []\<rparr>"

theorem ch_snapshot_resumes_witness:
  "\<exists>snap. cw_g (snd (ch_Snapshot (plain_machine (log_http full_disk)) 0 ''/d'' one_vm)) =
       [put_req ''vm.pause'' None, snap, put_req ''vm.resume'' None] \<and>
     (\<exists>e. fst (ch_Snapshot (plain_machine (log_http full_disk)) 0 ''/d'' one_vm) = Err (Wrapf ''snapshot: %w'' [] e))"
proof -
  let ?M = "plain_machine (log_http full_disk)"
  obtain r w' where s: "ch_Snapshot ?M 0 ''/d'' one_vm = (r, w')" by fastforce
  have "m_http ?M = log_http full_disk" "cw_heap one_vm 0 = Some (new_inst \<lparr>h_id = ''vm'', h_dir = ''/s/vm'', h_pid = 0\<rparr> [])"
    "cw_g one_vm = []" "\<And>p g. m_RemoveAll ?M p g = (None, g)" "\<And>p g. m_MkdirAll ?M p g = (None, g)"
    by (simp_all add: plain_machine_def one_vm_def)
  from ch_snapshot_resumes [OF this s] show ?thesis
    by (simp add: s full_disk_def put_req_def Let_def)
qed

text \<open>
  C18. A restore asks the VMM once, or twice: a second request is sent only if the first one, in the
  on-demand mode, failed; it names the same snapshot and leaves the mode to the VMM; and the outcome
  is that of the last request.
\<close>

theorem ch_restore_fallback:
  assumes "m_http M = log_http ans" "restore_request M cfg sock overlay [] = (r, log)"
  shows "let first = put_req ''vm.restore'' (Some (json_Restore (restore_cfg overlay (RestoreMode cfg))));
       second = put_req ''vm.restore'' (Some (JObj [(''source_url'', JStr (''file://'' @ overlay)), (''resume'', JBool True)]))
     in if good_answer (ans [] first) then log = [first] \<and> r = None
        else if RestoreMode cfg = ''OnDemand'' then log = [first, second] \<and> (r = None \<longleftrightarrow> good_answer (ans [first] second))
        else log = [first] \<and> r \<noteq> None"
proof -
  let ?b = "\<lambda>mode. Some (json_Restore (restore_cfg overlay mode))"
  let ?f = "put_req ''vm.restore'' (?b (RestoreMode cfg))"
  have second: "json_Restore (restore_cfg overlay []) =
      JObj [(''source_url'', JStr (''file://'' @ overlay)), (''resume'', JBool True)]"
    by (simp add: json_Restore_def restore_cfg_def omitempty_def)
  obtain e1 where e1: "RestoreVM (m_http M) sock (restore_cfg overlay (RestoreMode cfg)) [] = (e1, [?f])"
    "e1 = None \<longleftrightarrow> good_answer (ans [] ?f)"
    using api_err_log [of ans sock "''vm.restore''" "?b (RestoreMode cfg)" "[]"] assms(1)
    by (auto simp: RestoreVM_def)
  obtain e2 where e2: "RestoreVM (m_http M) sock (restore_cfg overlay []) [?f] = (e2, [?f, put_req ''vm.restore'' (?b [])])"
    "e2 = None \<longleftrightarrow> good_answer (ans [?f] (put_req ''vm.restore'' (?b [])))"
    using api_err_log [of ans sock "''vm.restore''" "?b []" "[?f]"] assms(1) by (auto simp: RestoreVM_def)
  show ?thesis
    using assms(2) e1 e2 [unfolded second]
    by (auto simp: restore_request_def MemoryRestoreOnDemand_def Let_def split: option.splits if_splits)
qed

text \<open>A VMM that does not know the on-demand mode.\<close>

definition old_vmm :: "http_request list \<Rightarrow> http_request \<Rightarrow> http_answer" where
  "old_vmm log req = HttpStatus (if log = [] then 400 else 204) []"

theorem ch_restore_fallback_witness:
  "fst (restore_request (plain_machine (log_http old_vmm)) happy_cfg ''/s'' ''/o'' []) = None"
proof -
  let ?M = "plain_machine (log_http old_vmm)"
  obtain r log where s: "restore_request ?M happy_cfg ''/s'' ''/o'' [] = (r, log)" by fastforce
  have mode: "RestoreMode happy_cfg = ''OnDemand''"
    by (simp add: happy_cfg_def withDefaults_def small_cfg_def MemoryRestoreOnDemand_def)
  have "m_http ?M = log_http old_vmm" by (simp add: plain_machine_def)
  from ch_restore_fallback [OF this s] show ?thesis by (simp add: s mode old_vmm_def Let_def)
qed

section \<open>Clones\<close>

text \<open>
  A volume: names refer to inodes, and a hard link is a second name of an inode, so a write through one
  name changes the file under all of them. Every call may fail (\<open>ft_act\<close>, at a time of its own); a write
  that fails can leave a file with anything in it (\<open>ft_torn\<close>), or none.
\<close>

datatype fs_act = FsMkdir string | FsLink string string | FsWrite string

record volume =
  vo_names :: "string \<rightharpoonup> nat"
  vo_data :: "nat \<Rightarrow> string"
  vo_next :: nat
  vo_time :: nat

record vol_faults =
  ft_act :: "nat \<Rightarrow> fs_act \<Rightarrow> err option"
  ft_torn :: "nat \<Rightarrow> string option"
  ft_read :: "nat \<Rightarrow> string \<Rightarrow> err option"

definition vol_tick :: "volume \<Rightarrow> volume" where
  "vol_tick k = k\<lparr>vo_time := vo_time k + 1\<rparr>"

definition file_of :: "volume \<Rightarrow> string \<Rightarrow> string option" where
  "file_of k p = map_option (vo_data k) (vo_names k p)"

definition vol_write :: "string \<Rightarrow> string \<Rightarrow> volume \<Rightarrow> volume" where
  "vol_write p s k =
     (case vo_names k p of
        Some n \<Rightarrow> k\<lparr>vo_data := (vo_data k)(n := s)\<rparr>
      | None \<Rightarrow> k\<lparr>vo_names := (vo_names k)(p \<mapsto> vo_next k), vo_data := (vo_data k)(vo_next k := s), vo_next := vo_next k + 1\<rparr>)"

definition vol_link :: "vol_faults \<Rightarrow> string \<Rightarrow> string \<Rightarrow> volume \<Rightarrow> err option \<times> volume" where
  "vol_link ft p q k =
     (case (ft_act ft (vo_time k) (FsLink p q), vo_names k p, vo_names k q) of
        (None, Some n, None) \<Rightarrow> (None, vol_tick (k\<lparr>vo_names := (vo_names k)(q \<mapsto> n)\<rparr>))
      | (Some e, _, _) \<Rightarrow> (Some e, vol_tick k)
      | (None, None, _) \<Rightarrow> (Some (Ext ''no such file or directory''), vol_tick k)
      | (None, _, Some _) \<Rightarrow> (Some (Ext ''file exists''), vol_tick k))"

definition on_volume :: "vol_faults \<Rightarrow> volume machine \<Rightarrow> volume machine" where
  "on_volume ft M = M\<lparr>m_MkdirAll := (\<lambda>d k. (ft_act ft (vo_time k) (FsMkdir d), vol_tick k)),
     m_Link := vol_link ft,
     m_ReadFile := (\<lambda>p k. case ft_read ft (vo_time k) p of Some e \<Rightarrow> Inl e
        | None \<Rightarrow> (case file_of k p of None \<Rightarrow> Inl (Ext ''no such file or directory'') | Some s \<Rightarrow> Inr s)),
     m_WriteFile := (\<lambda>p s k. case ft_act ft (vo_time k) (FsWrite p) of
          None \<Rightarrow> (None, vol_tick (vol_write p s k))
        | Some e \<Rightarrow> (Some e, vol_tick (case ft_torn ft (vo_time k) of None \<Rightarrow> k | Some t \<Rightarrow> vol_write p t k)))\<rparr>"

lemma on_volume_sel:
  "m_MkdirAll (on_volume ft M) d k = (ft_act ft (vo_time k) (FsMkdir d), vol_tick k)"
  "m_Link (on_volume ft M) = vol_link ft"
  "m_ReadFile (on_volume ft M) p k = (case ft_read ft (vo_time k) p of Some e \<Rightarrow> Inl e
      | None \<Rightarrow> (case file_of k p of None \<Rightarrow> Inl (Ext ''no such file or directory'') | Some s \<Rightarrow> Inr s))"
  "m_WriteFile (on_volume ft M) p s k = (case ft_act ft (vo_time k) (FsWrite p) of
          None \<Rightarrow> (None, vol_tick (vol_write p s k))
        | Some e \<Rightarrow> (Some e, vol_tick (case ft_torn ft (vo_time k) of None \<Rightarrow> k | Some t \<Rightarrow> vol_write p t k)))"
  "m_ReadDir (on_volume ft M) = m_ReadDir M" "m_unmarshal (on_volume ft M) = m_unmarshal M"
  by (simp_all add: on_volume_def)

text \<open>The volume grew only by the names \<open>S\<close>: no other name and no inode that was there has changed.\<close>

definition vol_ok :: "volume \<Rightarrow> bool" where
  "vol_ok k \<longleftrightarrow> (\<forall>n \<in> ran (vo_names k). n < vo_next k)"

definition grown :: "string set \<Rightarrow> volume \<Rightarrow> volume \<Rightarrow> bool" where
  "grown S k k' \<longleftrightarrow>
     vol_ok k \<and> vol_ok k' \<and> vo_next k \<le> vo_next k' \<and> (\<forall>n < vo_next k. vo_data k' n = vo_data k n) \<and>
     (\<forall>p. p \<notin> S \<longrightarrow> vo_names k' p = vo_names k p)"

lemma grown_file: "grown S k k' \<Longrightarrow> p \<notin> S \<Longrightarrow> file_of k' p = file_of k p"
  by (cases "vo_names k p") (auto simp: grown_def file_of_def vol_ok_def ran_def)

lemma grown_trans: "grown S k k1 \<Longrightarrow> grown T k1 k2 \<Longrightarrow> grown (S \<union> T) k k2"
  by (auto simp: grown_def)

lemma grown_mono: "grown S k k' \<Longrightarrow> S \<subseteq> T \<Longrightarrow> grown T k k'"
  by (auto simp: grown_def)

lemma grown_vol_tick [simp]: "grown S k (vol_tick k') = grown S k k'" "file_of (vol_tick k) p = file_of k p"
  by (simp_all add: grown_def vol_ok_def vol_tick_def file_of_def)

lemma grown_refl: "vol_ok k \<Longrightarrow> grown S k k"
  by (simp add: grown_def)

lemma grown_write: "vol_ok k \<Longrightarrow> vo_names k p = None \<Longrightarrow> grown {p} k (vol_write p s k)"
  by (auto simp: grown_def vol_write_def vol_ok_def ran_def less_SucI split: if_splits)

lemma file_of_write [simp]: "file_of (vol_write p s k) p = Some s"
  by (simp add: file_of_def vol_write_def split: option.split)

text \<open>One file of the template: when its name in the overlay is new, only that name appears, and with success as the same file.\<close>

lemma link_or_copy_vol:
  assumes "link_or_copy (on_volume ft M) snap overlay name k = (r, k')"
    and "vol_ok k" "vo_names k (Join [overlay, name]) = None"
  shows "grown {Join [overlay, name]} k k' \<and>
     (r = None \<longrightarrow> file_of k' (Join [overlay, name]) = file_of k (Join [snap, name]) \<and> file_of k (Join [snap, name]) \<noteq> None)"
proof -
  let ?src = "Join [snap, name]" and ?dst = "Join [overlay, name]"
  obtain e k1 where l: "vol_link ft ?src ?dst k = (e, k1)" by (cases "vol_link ft ?src ?dst k")
  show ?thesis
  proof (cases e)
    case None
    with l assms(3) obtain n where n: "vo_names k ?src = Some n" "k1 = vol_tick (k\<lparr>vo_names := (vo_names k)(?dst \<mapsto> n)\<rparr>)"
      by (auto simp: vol_link_def split: option.splits)
    have "grown {?dst} k k1" using assms(2,3) n by (auto simp: grown_def vol_ok_def ran_def vol_tick_def split: if_splits)
    moreover have "file_of k1 ?dst = file_of k ?src" "file_of k ?src \<noteq> None" using n by (simp_all add: file_of_def vol_tick_def)
    ultimately show ?thesis using assms(1) l None by (simp add: link_or_copy_def on_volume_sel Let_def)
  next
    case (Some lerr)
    with l have k1: "k1 = vol_tick k" by (auto simp: vol_link_def split: option.splits)
    then have "vol_ok k1" "vo_names k1 ?dst = None" "grown {?dst} k k1" "file_of k1 = file_of k"
      using assms(2,3) by (simp_all add: vol_ok_def vol_tick_def grown_refl fun_eq_iff file_of_def grown_def)
    note start = this grown_write [OF this(1,2)]
    have wr: "grown {?dst} k (vol_write ?dst s k1)" for s
      using grown_trans [OF start(3) start(5) [of s]] by simp
    show ?thesis using assms(1) l Some start(3,4) wr
      by (auto simp: link_or_copy_def on_volume_sel Let_def split: option.splits sum.splits)
  qed
qed

definition dir_files :: "(string \<times> bool) list \<Rightarrow> string list" where
  "dir_files es = filter (\<lambda>n. n \<noteq> ''config.json'') (map fst (filter (\<lambda>e. \<not> snd e) es))"

lemma link_all_vol:
  assumes "vol_ok k" "distinct (map (\<lambda>n. Join [overlay, n]) (dir_files es))"
    and "\<forall>n \<in> set (dir_files es). vo_names k (Join [overlay, n]) = None"
    and "\<forall>n \<in> set (dir_files es). \<forall>q \<in> set (dir_files es). Join [snap, n] \<noteq> Join [overlay, q]"
    and "link_all (on_volume ft M) snap overlay es k = (r, k')"
  shows "grown ((\<lambda>n. Join [overlay, n]) ` set (dir_files es)) k k' \<and>
     (r = None \<longrightarrow> (\<forall>n \<in> set (dir_files es).
        file_of k' (Join [overlay, n]) = file_of k (Join [snap, n]) \<and> file_of k (Join [snap, n]) \<noteq> None))"
  using assms
proof (induction es arbitrary: k)
  case Nil
  then show ?case by (simp add: grown_refl dir_files_def)
next
  case (Cons e es)
  obtain name isdir where e: "e = (name, isdir)" by fastforce
  show ?case
  proof (cases "isdir \<or> name = ''config.json''")
    case True
    then have "dir_files (e # es) = dir_files es" by (auto simp: dir_files_def e)
    with Cons e True show ?thesis by auto
  next
    case False
    then have fs: "dir_files (e # es) = name # dir_files es" by (simp add: dir_files_def e)
    let ?dst = "Join [overlay, name]"
    obtain q k1 where q: "link_or_copy (on_volume ft M) snap overlay name k = (q, k1)"
      by (cases "link_or_copy (on_volume ft M) snap overlay name k")
    note one = link_or_copy_vol [OF q Cons.prems(1)]
    then have one: "grown {?dst} k k1" "q = None \<Longrightarrow> file_of k1 ?dst = file_of k (Join [snap, name])"
      "q = None \<Longrightarrow> file_of k (Join [snap, name]) \<noteq> None"
      using Cons.prems(3) by (simp_all add: fs)
    show ?thesis
    proof (cases q)
      case (Some err)
      then have "k' = k1" "r = Some err" using Cons.prems(5) q False by (auto simp: e)
      then show ?thesis using grown_mono [OF one(1)] by (auto simp: fs)
    next
      case None
      have rest: "link_all (on_volume ft M) snap overlay es k1 = (r, k')"
        using Cons.prems(5) q None False by (simp add: e)
      have "Join [overlay, n] \<noteq> ?dst" if "n \<in> set (dir_files es)" for n
        using Cons.prems(2) imageI [OF that, of "\<lambda>n. Join [overlay, n]"] unfolding fs list.map distinct.simps set_map by metis
      then have "vol_ok k1" "\<forall>n \<in> set (dir_files es). vo_names k1 (Join [overlay, n]) = None"
        using one(1) Cons.prems(3) by (simp_all add: grown_def fs)
      then have all: "grown ((\<lambda>n. Join [overlay, n]) ` set (dir_files es)) k1 k'"
        "r = None \<Longrightarrow> n \<in> set (dir_files es) \<Longrightarrow> file_of k' (Join [overlay, n]) = file_of k1 (Join [snap, n]) \<and>
           file_of k1 (Join [snap, n]) \<noteq> None" for n
        using Cons.IH [of k1] Cons.prems(2,4) rest by (simp_all add: fs)
      have "file_of k' ?dst = file_of k1 ?dst"
        using Cons.prems(2) by (intro grown_file [OF all(1)]) (auto simp: fs)
      moreover have "file_of k1 (Join [snap, n]) = file_of k (Join [snap, n])" if "n \<in> set (dir_files es)" for n
        using Cons.prems(4) that by (intro grown_file [OF one(1)]) (auto simp: fs)
      ultimately show ?thesis using grown_trans [OF one(1) all(1)] all(2) one(2,3) None by (auto simp: fs)
    qed
  qed
qed

text \<open>
  What a call comes to: it fails before it links anything, or it links, and then fails with the
  configuration written partly or not at all, or succeeds with the configuration written.
\<close>

lemma prepare_steps:
  assumes "prepareCloneSnapshot (on_volume ft M) snap cloneDir vsockPath k = (r, k')"
    and o: "overlay = Join [cloneDir, ''snapshot'']" and dst: "dst = Join [overlay, ''config.json'']"
  obtains (early) e where "r = Inl e" "k' = vol_tick k"
  | (failed) es q k2 e where "m_ReadDir M snap (vol_tick k) = Inr es" "link_all (on_volume ft M) snap overlay es (vol_tick k) = (q, k2)"
      "r = Inl e" "k' = k2 \<or> k' = vol_tick k2 \<or> (\<exists>s. k' = vol_tick (vol_write dst s k2))"
  | (made) es k2 data cfg where "m_ReadDir M snap (vol_tick k) = Inr es" "link_all (on_volume ft M) snap overlay es (vol_tick k) = (None, k2)"
      "r = Inr overlay" "file_of k2 (Join [snap, ''config.json'']) = Some data" "m_unmarshal M data = Inr cfg"
      "k' = vol_tick (vol_write dst (clone_config vsockPath cfg) k2)"
proof (cases "(\<exists>e. ft_act ft (vo_time k) (FsMkdir overlay) = Some e) \<or> (\<exists>e. m_ReadDir M snap (vol_tick k) = Inl e)")
  case True
  then have "k' = vol_tick k \<and> (\<exists>e. r = Inl e)"
    using assms(1) by (auto simp: prepareCloneSnapshot_def on_volume_sel Let_def o split: option.splits)
  with early show thesis by blast
next
  case False
  then obtain es where dir: "ft_act ft (vo_time k) (FsMkdir overlay) = None" "m_ReadDir M snap (vol_tick k) = Inr es"
    by (cases "m_ReadDir M snap (vol_tick k)") auto
  obtain q k2 where l: "link_all (on_volume ft M) snap overlay es (vol_tick k) = (q, k2)"
    by (cases "link_all (on_volume ft M) snap overlay es (vol_tick k)")
  have run: "(case q of Some e \<Rightarrow> (Inl e, k2)
      | None \<Rightarrow> (case m_ReadFile (on_volume ft M) (Join [snap, ''config.json'']) k2 of
          Inl e \<Rightarrow> (Inl (Wrapf ''read snapshot config.json: %w'' [] e), k2)
        | Inr data \<Rightarrow> (case m_unmarshal M data of
            Inl e \<Rightarrow> (Inl (Wrapf ''parse snapshot config.json: %w'' [] e), k2)
          | Inr cfg \<Rightarrow> (case m_WriteFile (on_volume ft M) dst (clone_config vsockPath cfg) k2 of
              (Some e, k3) \<Rightarrow> (Inl e, k3) | (None, k3) \<Rightarrow> (Inr overlay, k3))))) = (r, k')"
    using assms(1) dir l unfolding prepareCloneSnapshot_def on_volume_sel(5,6) dst
    by (simp add: on_volume_sel(1) Let_def o [symmetric])
  show thesis
  proof (cases r)
    case (Inl e)
    have "k' = k2 \<or> k' = vol_tick k2 \<or> (\<exists>s. k' = vol_tick (vol_write dst s k2))"
      using run by (auto simp: on_volume_sel(3,4) split: option.splits sum.splits)
    with failed dir(2) l Inl show thesis by blast
  next
    case (Inr out)
    obtain data cfg where "q = None" "out = overlay" "file_of k2 (Join [snap, ''config.json'']) = Some data"
      "m_unmarshal M data = Inr cfg" "k' = vol_tick (vol_write dst (clone_config vsockPath cfg) k2)"
      using run Inr by (auto simp: on_volume_sel(3,4) split: option.splits sum.splits)
    with made dir(2) l Inr show thesis by blast
  qed
qed

lemma prepare_vol:
  assumes "prepareCloneSnapshot (on_volume ft M) snap cloneDir vsockPath k = (r, k')" "vol_ok k"
    and o: "overlay = Join [cloneDir, ''snapshot'']"
    and es: "es = (case m_ReadDir M snap (vol_tick k) of Inl e \<Rightarrow> [] | Inr es \<Rightarrow> es)"
    and ns: "ns = ''config.json'' # dir_files es" "distinct (map (\<lambda>n. Join [overlay, n]) ns)"
      "\<forall>n \<in> set ns. vo_names k (Join [overlay, n]) = None"
      "\<forall>n \<in> set ns. \<forall>q \<in> set ns. Join [snap, n] \<noteq> Join [overlay, q]"
  shows "grown ((\<lambda>n. Join [overlay, n]) ` set ns) k k' \<and>
    (\<forall>out. r = Inr out \<longrightarrow> out = overlay \<and>
       (\<forall>n \<in> set (dir_files es). file_of k' (Join [overlay, n]) = file_of k (Join [snap, n]) \<and> file_of k (Join [snap, n]) \<noteq> None) \<and>
       (\<exists>data cfg. file_of k (Join [snap, ''config.json'']) = Some data \<and> m_unmarshal M data = Inr cfg \<and>
          file_of k' (Join [overlay, ''config.json'']) = Some (clone_config vsockPath cfg)))"
proof -
  let ?dst = "Join [overlay, ''config.json'']" and ?F = "(\<lambda>n. Join [overlay, n]) ` set (dir_files es)"
  have F: "insert ?dst ?F = (\<lambda>n. Join [overlay, n]) ` set ns" using ns(1) by simp
  have linked: "grown ?F k k2 \<and> vol_ok k2 \<and> vo_names k2 ?dst = None \<and> ?dst \<notin> ?F \<and>
      (q = None \<longrightarrow> (\<forall>n \<in> set (dir_files es). file_of k2 (Join [overlay, n]) = file_of k (Join [snap, n]) \<and>
        file_of k (Join [snap, n]) \<noteq> None))"
    if l: "link_all (on_volume ft M) snap overlay es (vol_tick k) = (q, k2)" for q k2
  proof -
    have "vol_ok (vol_tick k)" using assms(2) by (simp add: vol_ok_def vol_tick_def)
    from link_all_vol [OF this _ _ _ l] ns show ?thesis by (auto simp: vol_tick_def grown_def vol_ok_def file_of_def)
  qed
  have wr: "grown ((\<lambda>n. Join [overlay, n]) ` set ns) k (vol_write ?dst s k2)"
    "grown ((\<lambda>n. Join [overlay, n]) ` set ns) k k2"
    if "grown ?F k k2" "vol_ok k2" "vo_names k2 ?dst = None" for s k2
    using grown_trans [OF that(1) grown_write [OF that(2,3)]] grown_mono [OF that(1)]
    by (simp_all add: F [symmetric] subset_insertI)
  show ?thesis
  proof (cases rule: prepare_steps [OF assms(1) o refl, case_names early failed made])
    case (early e)
    then show ?thesis using grown_refl [OF assms(2)] by simp
  next
    case (failed es' q k2 e)
    then have "link_all (on_volume ft M) snap overlay es (vol_tick k) = (q, k2)" by (simp add: es)
    note new = linked [OF this]
    have "grown ((\<lambda>n. Join [overlay, n]) ` set ns) k k'"
      using failed(4) wr [of k2] new by (elim disjE exE) (simp_all only: grown_vol_tick simp_thms)
    then show ?thesis using failed(3) by simp
  next
    case (made es' k2 data cfg)
    then have "link_all (on_volume ft M) snap overlay es (vol_tick k) = (None, k2)" by (simp add: es)
    note new = linked [OF this]
    have "file_of (vol_write ?dst s k2) (Join [overlay, n]) = file_of k2 (Join [overlay, n])" if "n \<in> set (dir_files es)" for s n
    proof -
      have "Join [overlay, n] \<noteq> ?dst" using new imageI [OF that, of "\<lambda>n. Join [overlay, n]"] by metis
      then show ?thesis using new by (intro grown_file [OF grown_write [of k2 ?dst s]]) simp_all
    qed
    moreover have "file_of k2 (Join [snap, ''config.json'']) = file_of k (Join [snap, ''config.json''])"
      using ns new by (intro grown_file [of ?F]) auto
    then have "file_of k (Join [snap, ''config.json'']) = Some data" using made(4) by simp
    ultimately show ?thesis using made(3,5,6) new wr by simp
  qed
qed


text \<open>
  A template with a memory file, a configuration with a vsock device and a directory, on another device
  than the clone: every link fails, and the memory is copied.
\<close>

definition template_machine :: "volume machine" where
  "template_machine = (plain_machine (\<lambda>s r g. (HttpStatus 204 [], g)))\<lparr>
     m_ReadDir := (\<lambda>p g. Inr [(''config.json'', False), (''memory'', False), (''sub'', True)]),
     m_unmarshal := (\<lambda>d. Inr (Some [(''custom'', JBool True), (''vsock'', JObj [(''cid'', JNum 3), (''socket'', JStr ''/old'')])]))\<rparr>"

definition two_devices :: vol_faults where
  "two_devices = \<lparr>ft_act = (\<lambda>t a. case a of FsLink p q \<Rightarrow> Some (Ext ''invalid cross-device link'') | _ \<Rightarrow> None),
     ft_torn = (\<lambda>t. None), ft_read = (\<lambda>t p. None)\<rparr>"

definition template_volume :: volume where
  "template_volume = \<lparr>vo_names = [''/t/config.json'' \<mapsto> 0, ''/t/memory'' \<mapsto> 1],
     vo_data = (\<lambda>n. if n = 0 then ''{}'' else ''pages''), vo_next = 2, vo_time = 0\<rparr>"

lemma clone_paths:
  "Join [''/c'', ''snapshot''] = ''/c/snapshot''" "Join [''/c/snapshot'', ''memory''] = ''/c/snapshot/memory''"
  "Join [''/c/snapshot'', ''config.json''] = ''/c/snapshot/config.json''" "Join [''/t'', ''config.json''] = ''/t/config.json''"
  "Join [''/t'', ''memory''] = ''/t/memory''" "Join [''/t'', ''sub''] = ''/t/sub''" "clean_abs ''/c''"
  by code_simp+

lemma template_clone:
  "\<exists>k'. prepareCloneSnapshot (on_volume two_devices template_machine) ''/t'' ''/c'' ''/c/v.sock'' template_volume =
     (Inr ''/c/snapshot'', k')"
proof -
  have M: "m_ReadDir template_machine p k = Inr [(''config.json'', False), (''memory'', False), (''sub'', True)]"
    "\<exists>cfg. m_unmarshal template_machine d = Inr cfg" for p k d
    by (simp_all add: template_machine_def)
  then obtain cfg where cfg: "m_unmarshal template_machine ''{}'' = Inr cfg" by blast
  have dev: "ft_act two_devices t (FsLink p q) = Some (Ext ''invalid cross-device link'')"
    "ft_act two_devices t (FsMkdir p) = None" "ft_act two_devices t (FsWrite p) = None" "ft_read two_devices t p = None" for t p q
    by (simp_all add: two_devices_def)
  have files: "file_of template_volume ''/t/memory'' = Some ''pages''" "file_of template_volume ''/t/config.json'' = Some ''{}''"
    "vo_names template_volume ''/c/snapshot/memory'' = None"
    by (simp_all add: file_of_def template_volume_def)
  have copied: "file_of (vol_write ''/c/snapshot/memory'' ''pages'' (vol_tick (vol_tick template_volume))) ''/t/config.json'' = Some ''{}''"
    by (simp add: file_of_def vol_write_def vol_tick_def template_volume_def)
  show ?thesis
    by (simp add: prepareCloneSnapshot_def on_volume_sel M(1) link_or_copy_def clone_paths dev files vol_link_def copied cfg Let_def)
qed


section \<open>What the driver does not do\<close>

lemma agent_Exec_no_env:
  "agent_Exec (\<lambda>req. conn (req\<lparr>rq_Env := []\<rparr>)) cmd [] seq g = agent_Exec conn cmd [] seq g"
  by (simp add: agent_Exec_def roundTrip_def zero_Request_def Let_def)

lemma on_agent_cong:
  assumes "\<And>seq g. call (m_agent M' v) seq g = call (m_agent M v) seq g"
  shows "on_agent M' v c call g = on_agent M v c call g"
  using assms by (auto simp: on_agent_def split: agent_client.split bool.split)

text \<open>
  The driver gives the guest nothing of a spec but its rootfs, its size and its network: two specs
  that differ in name, command, environment and lifetime make the same calls on the machine and yield
  the same sandbox; and \<open>Exec\<close> sends the guest an empty environment: the guest could drop the
  environment of every request without a difference.
\<close>

theorem ch_spec_ignored:
  "ch_Create M cfg (Some (s\<lparr>spec_Name := n, spec_Cmd := c, spec_Env := e, spec_Timeout := t\<rparr>)) w =
     ch_Create M cfg (Some s) w \<and>
   ch_Exec (M\<lparr>m_agent := (\<lambda>v req. m_agent M v (req\<lparr>rq_Env := []\<rparr>))\<rparr>) a cmd w = ch_Exec M a cmd w"
proof -
  let ?s = "s\<lparr>spec_Name := n, spec_Cmd := c, spec_Env := e, spec_Timeout := t\<rparr>"
  have vm: "vm_config cfg (s\<lparr>spec_Name := n, spec_Cmd := c, spec_Env := e, spec_Timeout := t\<rparr>) = vm_config cfg s"
    by (simp add: vm_config_def fun_eq_iff)
  have "spec_Rootfs ?s = spec_Rootfs s" by simp
  then have "boot M cfg ?s = boot M cfg s" unfolding boot_def vm by (simp only:)
  moreover have "on_agent (M\<lparr>m_agent := (\<lambda>v req. m_agent M v (req\<lparr>rq_Env := []\<rparr>))\<rparr>) v cl (\<lambda>conn. agent_Exec conn cmd []) g =
      on_agent M v cl (\<lambda>conn. agent_Exec conn cmd []) g" for v cl g
    by (rule on_agent_cong) (simp add: agent_Exec_no_env)
  ultimately have boots: "boot M cfg ?s = boot M cfg s" and calls: "on_agent (M\<lparr>m_agent := (\<lambda>v req. m_agent M v (req\<lparr>rq_Env := []\<rparr>))\<rparr>) v cl (\<lambda>conn. agent_Exec conn cmd []) g =
      on_agent M v cl (\<lambda>conn. agent_Exec conn cmd []) g" for v cl g
    by blast+
  have "spec_Netns ?s = spec_Netns s" by simp
  then have "ch_Create M cfg (Some ?s) w = ch_Create M cfg (Some s) w"
    unfolding ch_Create_def option.case boots by (simp only:)
  moreover have "ch_Exec (M\<lparr>m_agent := (\<lambda>v req. m_agent M v (req\<lparr>rq_Env := []\<rparr>))\<rparr>) a cmd w = ch_Exec M a cmd w"
    unfolding ch_Exec_def calls by (rule refl)
  ultimately show ?thesis by blast
qed

text \<open>
  \<open>Stop\<close> removes no file, whatever the file system would answer: the directory of the sandbox, with
  its packed rootfs and its view of the template, stays behind.
\<close>

theorem ch_stop_keeps_files:
  "ch_Stop (M\<lparr>m_RemoveAll := rm, m_img := (m_img M)\<lparr>io_Remove := rm\<rparr>\<rparr>) a w = ch_Stop M a w"
proof -
  have "teardownNetwork (M\<lparr>m_RemoveAll := rm, m_img := (m_img M)\<lparr>io_Remove := rm\<rparr>\<rparr>) i g = teardownNetwork M i g" for i g
    by (cases "ci_netCfg i") (simp_all add: teardownNetwork_def)
  then show ?thesis by (cases "cw_heap w a") (simp_all add: ch_Stop_def Let_def)
qed

end
