(* ===== verification/DriverSum.thy ===== *)
theory DriverSum
  imports ChContract
begin

text \<open>
  A Manager on which two drivers are registered, each with a world of its own: the drivers are moved
  to the product of the worlds, and the contract of the Manager is proved for the two of them
  together (the locale \<open>two_drivers\<close>).
\<close>

section \<open>A driver as a part of a larger world\<close>

text \<open>
  \<open>get\<close> and \<open>put\<close> read and write the part of the world that the driver lives in; \<open>tag\<close> keeps the
  pointers of different drivers apart.
\<close>

definition inst_at :: "('w \<Rightarrow> 'a) \<Rightarrow> ('a \<Rightarrow> 'w \<Rightarrow> 'w) \<Rightarrow> (nat \<Rightarrow> nat) \<Rightarrow> 'a Instance \<Rightarrow> 'w Instance" where
  "inst_at get put tag i = \<lparr>inst_ref = tag (inst_ref i), inst_ID = inst_ID i,
     inst_State = (\<lambda>w. inst_State i (get w)),
     inst_Exec = (\<lambda>cmd w. case inst_Exec i cmd (get w) of (c, out, e, a) \<Rightarrow> (c, out, e, put a w)),
     inst_Snapshot = (\<lambda>p w. case inst_Snapshot i p (get w) of (r, a) \<Rightarrow> (r, put a w)),
     inst_Stop = (\<lambda>w. case inst_Stop i (get w) of (r, a) \<Rightarrow> (r, put a w))\<rparr>"

definition made_at ::
  "('w \<Rightarrow> 'a) \<Rightarrow> ('a \<Rightarrow> 'w \<Rightarrow> 'w) \<Rightarrow> (nat \<Rightarrow> nat) \<Rightarrow> 'w \<Rightarrow> 'a Instance res \<times> 'a \<Rightarrow> 'w Instance res \<times> 'w" where
  "made_at get put tag w q = (map_res (inst_at get put tag) (fst q), put (snd q) w)"

definition drv_at :: "('w \<Rightarrow> 'a) \<Rightarrow> ('a \<Rightarrow> 'w \<Rightarrow> 'w) \<Rightarrow> (nat \<Rightarrow> nat) \<Rightarrow> 'a Driver \<Rightarrow> 'w Driver" where
  "drv_at get put tag d = \<lparr>drv_Name = drv_Name d,
     drv_Create = (\<lambda>spec w. made_at get put tag w (drv_Create d spec (get w))),
     drv_Restore = map_option (\<lambda>f p opts w. made_at get put tag w (f p opts (get w))) (drv_Restore d),
     drv_Close = map_option (\<lambda>c w. put (c (get w)) w) (drv_Close d)\<rparr>"

lemma inst_at_sel [simp]:
  "inst_ref (inst_at get put tag i) = tag (inst_ref i)" "inst_ID (inst_at get put tag i) = inst_ID i"
  "inst_State (inst_at get put tag i) w = inst_State i (get w)"
  "inst_Exec (inst_at get put tag i) cmd w = (case inst_Exec i cmd (get w) of (c, out, e, a) \<Rightarrow> (c, out, e, put a w))"
  "inst_Snapshot (inst_at get put tag i) p w = (case inst_Snapshot i p (get w) of (r, a) \<Rightarrow> (r, put a w))"
  "inst_Stop (inst_at get put tag i) w = (case inst_Stop i (get w) of (r, a) \<Rightarrow> (r, put a w))"
  by (simp_all add: inst_at_def)

lemma drv_at_sel [simp]:
  "drv_Name (drv_at get put tag d) = drv_Name d"
  "drv_Create (drv_at get put tag d) spec w = made_at get put tag w (drv_Create d spec (get w))"
  "drv_Restore (drv_at get put tag d) =
     map_option (\<lambda>f p opts w. made_at get put tag w (f p opts (get w))) (drv_Restore d)"
  "drv_Close (drv_at get put tag d) = map_option (\<lambda>c w. put (c (get w)) w) (drv_Close d)"
  by (simp_all add: drv_at_def)

lemma made_at_ok:
  "made_at get put tag w q = (Ok i, w') \<longleftrightarrow>
   (\<exists>j a. q = (Ok j, a) \<and> i = inst_at get put tag j \<and> w' = put a w)"
  by (cases q; cases "fst q") (auto simp: made_at_def)

lemma made_at_fail:
  "made_at get put tag w q = (r, w') \<Longrightarrow> \<not> is_ok r \<Longrightarrow> \<exists>r' a. q = (r', a) \<and> \<not> is_ok r' \<and> w' = put a w"
  by (cases q; cases "fst q") (auto simp: made_at_def)

section \<open>Two drivers\<close>

definition put_fst :: "'a \<Rightarrow> 'a \<times> 'b \<Rightarrow> 'a \<times> 'b" where "put_fst a w = (a, snd w)"
definition put_snd :: "'b \<Rightarrow> 'a \<times> 'b \<Rightarrow> 'a \<times> 'b" where "put_snd b w = (fst w, b)"

lemma put_sel [simp]:
  "fst (put_fst a w) = a" "snd (put_fst a w) = snd w" "fst (put_snd b w) = fst w" "snd (put_snd b w) = b"
  by (simp_all add: put_fst_def put_snd_def)

abbreviation tag_fst :: "nat \<Rightarrow> nat" where "tag_fst n \<equiv> 2 * n"
abbreviation tag_snd :: "nat \<Rightarrow> nat" where "tag_snd n \<equiv> 2 * n + 1"

definition drv_fst :: "'a Driver \<Rightarrow> ('a \<times> 'b) Driver" where "drv_fst = drv_at fst put_fst tag_fst"
definition drv_snd :: "'b Driver \<Rightarrow> ('a \<times> 'b) Driver" where "drv_snd = drv_at snd put_snd tag_snd"

definition both_D :: "('a Driver \<Rightarrow> bool) \<Rightarrow> ('b Driver \<Rightarrow> bool) \<Rightarrow> ('a \<times> 'b) Driver \<Rightarrow> bool" where
  "both_D D E d \<longleftrightarrow> (\<exists>x. D x \<and> d = drv_fst x) \<or> (\<exists>y. E y \<and> d = drv_snd y)"

definition both_wf :: "('a \<Rightarrow> bool) \<Rightarrow> ('b \<Rightarrow> bool) \<Rightarrow> 'a \<times> 'b \<Rightarrow> bool" where
  "both_wf P Q w \<longleftrightarrow> P (fst w) \<and> Q (snd w)"

definition both_live :: "('a \<Rightarrow> nat set) \<Rightarrow> ('b \<Rightarrow> nat set) \<Rightarrow> 'a \<times> 'b \<Rightarrow> nat set" where
  "both_live L K w = tag_fst ` L (fst w) \<union> tag_snd ` K (snd w)"

definition both_handle ::
  "('a \<Rightarrow> 'a Instance \<Rightarrow> bool) \<Rightarrow> ('b \<Rightarrow> 'b Instance \<Rightarrow> bool) \<Rightarrow> 'a \<times> 'b \<Rightarrow> ('a \<times> 'b) Instance \<Rightarrow> bool" where
  "both_handle H K w i \<longleftrightarrow>
     (\<exists>x. H (fst w) x \<and> i = inst_at fst put_fst tag_fst x) \<or> (\<exists>y. K (snd w) y \<and> i = inst_at snd put_snd tag_snd y)"

lemma both_handle_mono:
  "H (fst w) \<le> H (fst w') \<Longrightarrow> K (snd w) \<le> K (snd w') \<Longrightarrow> both_handle H K w \<le> both_handle H K w'"
  by (auto simp: both_handle_def le_fun_def)

lemma tags:
  "tag_fst m \<noteq> tag_snd n" "tag_fst m \<noteq> Suc (tag_fst n)" "Suc (tag_fst n) \<noteq> tag_fst m" "tag_snd n \<noteq> tag_fst m" "tag_fst m = tag_fst n \<longleftrightarrow> m = n" "tag_snd m = tag_snd n \<longleftrightarrow> m = n"
  by presburger+

lemma both_live_iff [simp]:
  "tag_fst m \<in> both_live L K w \<longleftrightarrow> m \<in> L (fst w)" "Suc (tag_fst m) \<in> both_live L K w \<longleftrightarrow> m \<in> K (snd w)"
  using tags by (auto simp: both_live_def image_iff)

lemma both_live_fst:
  "snd w' = snd w \<Longrightarrow> L (fst w') = insert m (L (fst w)) \<Longrightarrow> both_live L K w' = insert (tag_fst m) (both_live L K w)"
  "snd w' = snd w \<Longrightarrow> L (fst w') = L (fst w) - {m} \<Longrightarrow> both_live L K w' = both_live L K w - {tag_fst m}"
  using tags by (auto simp: both_live_def)

lemma both_live_snd:
  "fst w' = fst w \<Longrightarrow> K (snd w') = insert m (K (snd w)) \<Longrightarrow> both_live L K w' = insert (tag_snd m) (both_live L K w)"
  "fst w' = fst w \<Longrightarrow> K (snd w') = K (snd w) - {m} \<Longrightarrow> both_live L K w' = both_live L K w - {tag_snd m}"
  using tags by (auto simp: both_live_def)

locale two_drivers =
  A: sandbox_drivers D P L H + B: sandbox_drivers E Q K J
  for D :: "'a Driver \<Rightarrow> bool" and P L H and E :: "'b Driver \<Rightarrow> bool" and Q K J
begin

lemma handle_cases:
  assumes "both_handle H J w i"
  obtains (left) x where "H (fst w) x" "i = inst_at fst put_fst tag_fst x"
    | (right) y where "J (snd w) y" "i = inst_at snd put_snd tag_snd y"
  using assms by (auto simp: both_handle_def)

text \<open>A sandbox made by either driver is new, tracked by its tagged pointer and running.\<close>

lemma made_fst:
  assumes "both_wf P Q w" "made_at fst put_fst tag_fst w q = (Ok i, w')"
    and "\<And>j a. q = (Ok j, a) \<Longrightarrow> P a \<and> H a j \<and> H (fst w) \<le> H a \<and> inst_ref j \<notin> L (fst w) \<and>
      L a = insert (inst_ref j) (L (fst w)) \<and> inst_State j a = StateRunning"
  shows "both_wf P Q w' \<and> both_handle H J w' i \<and> both_handle H J w \<le> both_handle H J w' \<and>
    inst_ref i \<notin> both_live L K w \<and> both_live L K w' = insert (inst_ref i) (both_live L K w) \<and>
    inst_State i w' = StateRunning"
proof -
  obtain j a where j: "q = (Ok j, a)" "i = inst_at fst put_fst tag_fst j" "w' = put_fst a w"
    using assms(2) by (auto simp: made_at_ok)
  note post = assms(3) [OF j(1)]
  have "both_live L K w' = insert (inst_ref i) (both_live L K w)"
    using post j both_live_fst(1) [of w' w L "inst_ref j" K] by simp
  moreover have "both_handle H J w \<le> both_handle H J w'" using post j by (intro both_handle_mono) auto
  ultimately show ?thesis using assms(1) post j by (auto simp: both_wf_def both_handle_def)
qed

lemma made_snd:
  assumes "both_wf P Q w" "made_at snd put_snd tag_snd w q = (Ok i, w')"
    and "\<And>j a. q = (Ok j, a) \<Longrightarrow> Q a \<and> J a j \<and> J (snd w) \<le> J a \<and> inst_ref j \<notin> K (snd w) \<and>
      K a = insert (inst_ref j) (K (snd w)) \<and> inst_State j a = StateRunning"
  shows "both_wf P Q w' \<and> both_handle H J w' i \<and> both_handle H J w \<le> both_handle H J w' \<and>
    inst_ref i \<notin> both_live L K w \<and> both_live L K w' = insert (inst_ref i) (both_live L K w) \<and>
    inst_State i w' = StateRunning"
proof -
  obtain j a where j: "q = (Ok j, a)" "i = inst_at snd put_snd tag_snd j" "w' = put_snd a w"
    using assms(2) by (auto simp: made_at_ok)
  note post = assms(3) [OF j(1)]
  have "both_live L K w' = insert (inst_ref i) (both_live L K w)"
    using post j both_live_snd(1) [of w' w K "inst_ref j" L] by simp
  moreover have "both_handle H J w \<le> both_handle H J w'" using post j by (intro both_handle_mono) auto
  ultimately show ?thesis using assms(1) post j by (auto simp: both_wf_def both_handle_def)
qed

text \<open>Any step inside one part that keeps its invariant and handles keeps those of the whole.\<close>

lemma step_fst:
  assumes "both_wf P Q w" "P a" "H (fst w) \<le> H a"
  shows "both_wf P Q (put_fst a w)" "both_handle H J w \<le> both_handle H J (put_fst a w)"
  using assms both_handle_mono [of H w "put_fst a w" J] by (simp_all add: both_wf_def)

lemma step_snd:
  assumes "both_wf P Q w" "Q a" "J (snd w) \<le> J a"
  shows "both_wf P Q (put_snd a w)" "both_handle H J w \<le> both_handle H J (put_snd a w)"
  using assms both_handle_mono [of H w "put_snd a w" J] by (simp_all add: both_wf_def)

lemma both_live_put:
  "L a = L (fst w) \<Longrightarrow> both_live L K (put_fst a w) = both_live L K w"
  "K b = K (snd w) \<Longrightarrow> both_live L K (put_snd b w) = both_live L K w"
  by (simp_all add: both_live_def)

end

sublocale two_drivers \<subseteq> both: sandbox_drivers "both_D D E" "both_wf P Q" "both_live L K" "both_handle H J"
proof
  fix d :: "('a \<times> 'b) Driver" and spec i w w'
  assume "both_D D E d" and w: "both_wf P Q w" and c: "drv_Create d spec w = (Ok i, w')"
  then consider x where "D x" "d = drv_fst x" | y where "E y" "d = drv_snd y" by (auto simp: both_D_def)
  then show "both_wf P Q w' \<and> both_handle H J w' i \<and> both_handle H J w \<le> both_handle H J w' \<and>
    inst_ref i \<notin> both_live L K w \<and> both_live L K w' = insert (inst_ref i) (both_live L K w) \<and>
    inst_State i w' = StateRunning"
  proof cases
    case 1
    show ?thesis
      by (rule made_fst [OF w, of "drv_Create x spec (fst w)"])
        (use c w 1 A.create_ok [OF 1(1)] in \<open>auto simp: drv_fst_def both_wf_def\<close>)
  next
    case 2
    show ?thesis
      by (rule made_snd [OF w, of "drv_Create y spec (snd w)"])
        (use c w 2 B.create_ok [OF 2(1)] in \<open>auto simp: drv_snd_def both_wf_def\<close>)
  qed
next
  fix d :: "('a \<times> 'b) Driver" and f p opts i w w'
  assume "both_D D E d" and w: "both_wf P Q w" and f: "drv_Restore d = Some f" and c: "f p opts w = (Ok i, w')"
  then consider x g where "D x" "drv_Restore x = Some g" "f p opts w = made_at fst put_fst tag_fst w (g p opts (fst w))"
    | y g where "E y" "drv_Restore y = Some g" "f p opts w = made_at snd put_snd tag_snd w (g p opts (snd w))"
    by (auto simp: both_D_def drv_fst_def drv_snd_def)
  then show "both_wf P Q w' \<and> both_handle H J w' i \<and> both_handle H J w \<le> both_handle H J w' \<and>
    inst_ref i \<notin> both_live L K w \<and> both_live L K w' = insert (inst_ref i) (both_live L K w) \<and>
    inst_State i w' = StateRunning"
  proof cases
    case (1 x g)
    show ?thesis
      by (rule made_fst [OF w, of "g p opts (fst w)"])
        (use c w 1 A.restore_ok [OF 1(1)] in \<open>auto simp: both_wf_def\<close>)
  next
    case (2 y g)
    show ?thesis
      by (rule made_snd [OF w, of "g p opts (snd w)"])
        (use c w 2 B.restore_ok [OF 2(1)] in \<open>auto simp: both_wf_def\<close>)
  qed
next
  fix d :: "('a \<times> 'b) Driver" and spec q w w'
  assume "both_D D E d" and w: "both_wf P Q w" and c: "drv_Create d spec w = (q, w')" "\<not> is_ok q"
  then consider x where "D x" "made_at fst put_fst tag_fst w (drv_Create x spec (fst w)) = (q, w')"
    | y where "E y" "made_at snd put_snd tag_snd w (drv_Create y spec (snd w)) = (q, w')"
    by (auto simp: both_D_def drv_fst_def drv_snd_def)
  then show "both_wf P Q w' \<and> both_handle H J w \<le> both_handle H J w' \<and> both_live L K w' = both_live L K w"
  proof cases
    case (1 x)
    obtain q' a where a: "drv_Create x spec (fst w) = (q', a)" "\<not> is_ok q'" "w' = put_fst a w"
      using made_at_fail [OF 1(2) c(2)] by blast
    have wf: "P (fst w)" using w by (simp add: both_wf_def)
    from A.create_fail [OF 1(1) wf a(1,2)] show ?thesis using step_fst [OF w, of a] both_live_put by (auto simp: a(3))
  next
    case (2 y)
    obtain q' a where a: "drv_Create y spec (snd w) = (q', a)" "\<not> is_ok q'" "w' = put_snd a w"
      using made_at_fail [OF 2(2) c(2)] by blast
    have wf: "Q (snd w)" using w by (simp add: both_wf_def)
    from B.create_fail [OF 2(1) wf a(1,2)] show ?thesis using step_snd [OF w, of a] both_live_put by (auto simp: a(3))
  qed
next
  fix d :: "('a \<times> 'b) Driver" and f p opts q w w'
  assume "both_D D E d" and w: "both_wf P Q w" and f: "drv_Restore d = Some f" and c: "f p opts w = (q, w')" "\<not> is_ok q"
  then consider x g where "D x" "drv_Restore x = Some g" "made_at fst put_fst tag_fst w (g p opts (fst w)) = (q, w')"
    | y g where "E y" "drv_Restore y = Some g" "made_at snd put_snd tag_snd w (g p opts (snd w)) = (q, w')"
    by (auto simp: both_D_def drv_fst_def drv_snd_def)
  then show "both_wf P Q w' \<and> both_handle H J w \<le> both_handle H J w' \<and> both_live L K w' = both_live L K w"
  proof cases
    case (1 x g)
    obtain q' a where a: "g p opts (fst w) = (q', a)" "\<not> is_ok q'" "w' = put_fst a w"
      using made_at_fail [OF 1(3) c(2)] by blast
    have wf: "P (fst w)" using w by (simp add: both_wf_def)
    from A.restore_fail [OF 1(1) wf 1(2) a(1,2)] show ?thesis using step_fst [OF w, of a] both_live_put by (auto simp: a(3))
  next
    case (2 y g)
    obtain q' a where a: "g p opts (snd w) = (q', a)" "\<not> is_ok q'" "w' = put_snd a w"
      using made_at_fail [OF 2(3) c(2)] by blast
    have wf: "Q (snd w)" using w by (simp add: both_wf_def)
    from B.restore_fail [OF 2(1) wf 2(2) a(1,2)] show ?thesis using step_snd [OF w, of a] both_live_put by (auto simp: a(3))
  qed
next
  fix i w r w'
  assume "both_handle H J w i" and w: "both_wf P Q w" and s: "inst_Stop i w = (r, w')"
  then show "both_wf P Q w' \<and> both_handle H J w \<le> both_handle H J w' \<and>
    both_live L K w' = both_live L K w - {inst_ref i} \<and> r \<noteq> Panic \<and> inst_State i w' = StateStopped"
  proof (cases rule: handle_cases)
    case (left x)
    obtain q a where q: "inst_Stop x (fst w) = (q, a)" by fastforce
    have wf: "P (fst w)" using w by (simp add: both_wf_def)
    note post = A.stop [OF left(1) wf q]
    have w': "w' = put_fst a w" "r = q" using s left q by auto
    then have "both_live L K w' = both_live L K w - {inst_ref i}"
      using post left both_live_fst(2) [of w' w L "inst_ref x" K] by simp
    with post left w' step_fst [OF w, of a] show ?thesis by auto
  next
    case (right y)
    obtain q a where q: "inst_Stop y (snd w) = (q, a)" by fastforce
    have wf: "Q (snd w)" using w by (simp add: both_wf_def)
    note post = B.stop [OF right(1) wf q]
    have w': "w' = put_snd a w" "r = q" using s right q by auto
    then have "both_live L K w' = both_live L K w - {inst_ref i}"
      using post right both_live_snd(2) [of w' w K "inst_ref y" L] by simp
    with post right w' step_snd [OF w, of a] show ?thesis by auto
  qed
next
  fix i p w r w'
  assume "both_handle H J w i" and w: "both_wf P Q w" and s: "inst_Snapshot i p w = (r, w')"
  then show "both_wf P Q w' \<and> both_handle H J w \<le> both_handle H J w' \<and>
    both_live L K w' \<subseteq> insert (inst_ref i) (both_live L K w)"
  proof (cases rule: handle_cases)
    case (left x)
    obtain q a where q: "inst_Snapshot x p (fst w) = (q, a)" by fastforce
    have wf: "P (fst w)" using w by (simp add: both_wf_def)
    show ?thesis using A.snapshot [OF left(1) wf q] s left q step_fst [OF w, of a] by (auto simp: both_live_def)
  next
    case (right y)
    obtain q a where q: "inst_Snapshot y p (snd w) = (q, a)" by fastforce
    have wf: "Q (snd w)" using w by (simp add: both_wf_def)
    show ?thesis using B.snapshot [OF right(1) wf q] s right q step_snd [OF w, of a] by (auto simp: both_live_def)
  qed
next
  fix i cmd w code out errout w'
  assume "both_handle H J w i" and w: "both_wf P Q w" and s: "inst_Exec i cmd w = (code, out, errout, w')"
  then show "both_wf P Q w' \<and> both_handle H J w \<le> both_handle H J w' \<and> both_live L K w' \<subseteq> both_live L K w"
  proof (cases rule: handle_cases)
    case (left x)
    obtain c o1 o2 a where q: "inst_Exec x cmd (fst w) = (c, o1, o2, a)" by (metis prod_cases4)
    have wf: "P (fst w)" using w by (simp add: both_wf_def)
    show ?thesis using A.exec [OF left(1) wf q] s left q step_fst [OF w, of a] by (auto simp: both_live_def)
  next
    case (right y)
    obtain c o1 o2 a where q: "inst_Exec y cmd (snd w) = (c, o1, o2, a)" by (metis prod_cases4)
    have wf: "Q (snd w)" using w by (simp add: both_wf_def)
    show ?thesis using B.exec [OF right(1) wf q] s right q step_snd [OF w, of a] by (auto simp: both_live_def)
  qed
next
  fix d :: "('a \<times> 'b) Driver" and w c
  assume "both_D D E d" and w: "both_wf P Q w" and c: "drv_Close d = Some c"
  then consider x g where "D x" "drv_Close x = Some g" "c w = put_fst (g (fst w)) w"
    | y g where "E y" "drv_Close y = Some g" "c w = put_snd (g (snd w)) w"
    by (auto simp: both_D_def drv_fst_def drv_snd_def)
  then show "both_wf P Q (c w) \<and> both_handle H J w \<le> both_handle H J (c w) \<and> both_live L K (c w) = both_live L K w"
  proof cases
    case (1 x g)
    with A.close [OF 1(1) _ 1(2)] w step_fst [OF w, of "g (fst w)"] show ?thesis by (auto simp: both_live_def both_wf_def)
  next
    case (2 y g)
    with B.close [OF 2(1) _ 2(2)] w step_snd [OF w, of "g (snd w)"] show ?thesis by (auto simp: both_live_def both_wf_def)
  qed
qed

text \<open>If both drivers keep the stronger contract, so do they together.\<close>

locale two_owned =
  A: owned_drivers D P L H + B: owned_drivers E Q K J
  for D :: "'a Driver \<Rightarrow> bool" and P L H and E :: "'b Driver \<Rightarrow> bool" and Q K J

sublocale two_owned \<subseteq> two: two_drivers D P L H E Q K J
  by unfold_locales

sublocale two_owned \<subseteq> both_owned: owned_drivers "both_D D E" "both_wf P Q" "both_live L K" "both_handle H J"
proof
  fix d :: "('a \<times> 'b) Driver" and spec i j w w'
  assume "both_D D E d" and w: "both_wf P Q w" and c: "drv_Create d spec w = (Ok i, w')" and j: "both_handle H J w j"
  then consider x where "D x" "made_at fst put_fst tag_fst w (drv_Create x spec (fst w)) = (Ok i, w')"
    | y where "E y" "made_at snd put_snd tag_snd w (drv_Create y spec (snd w)) = (Ok i, w')"
    by (auto simp: both_D_def drv_fst_def drv_snd_def)
  then show "inst_ref j \<noteq> inst_ref i"
  proof cases
    case 1
    then show ?thesis
      using w j A.create_new [OF 1(1)] by (auto simp: made_at_ok both_wf_def both_handle_def tags)
  next
    case 2
    then show ?thesis
      using w j B.create_new [OF 2(1)] by (auto simp: made_at_ok both_wf_def both_handle_def tags)
  qed
next
  fix d :: "('a \<times> 'b) Driver" and f p opts i j w w'
  assume "both_D D E d" and w: "both_wf P Q w" and f: "drv_Restore d = Some f" and c: "f p opts w = (Ok i, w')"
    and j: "both_handle H J w j"
  then consider x g where "D x" "drv_Restore x = Some g" "made_at fst put_fst tag_fst w (g p opts (fst w)) = (Ok i, w')"
    | y g where "E y" "drv_Restore y = Some g" "made_at snd put_snd tag_snd w (g p opts (snd w)) = (Ok i, w')"
    by (auto simp: both_D_def drv_fst_def drv_snd_def)
  then show "inst_ref j \<noteq> inst_ref i"
  proof cases
    case (1 x g)
    then show ?thesis
      using w j A.restore_new [OF 1(1) _ 1(2)] by (auto simp: made_at_ok both_wf_def both_handle_def tags)
  next
    case (2 y g)
    then show ?thesis
      using w j B.restore_new [OF 2(1) _ 2(2)] by (auto simp: made_at_ok both_wf_def both_handle_def tags)
  qed
next
  fix i p w r w'
  assume "both_handle H J w i" and w: "both_wf P Q w" and s: "inst_Snapshot i p w = (r, w')"
  then show "both_live L K w' = both_live L K w"
  proof (cases rule: two.handle_cases)
    case (left x)
    obtain q a where q: "inst_Snapshot x p (fst w) = (q, a)" by fastforce
    have "L a = L (fst w)" using A.snapshot_live [OF left(1) _ q] w by (simp add: both_wf_def)
    then show ?thesis using two.both_live_put(1) [of a w] s left q by simp
  next
    case (right y)
    obtain q a where q: "inst_Snapshot y p (snd w) = (q, a)" by fastforce
    have "K a = K (snd w)" using B.snapshot_live [OF right(1) _ q] w by (simp add: both_wf_def)
    then show ?thesis using two.both_live_put(2) [of a w] s right q by simp
  qed
qed

end
