(* ===== verification/Rest.thy ===== *)
theory Rest
  imports Sandbox Json
begin

text \<open>
  The two REST interfaces: \<open>pkg/api/server.go\<close> (native) and \<open>pkg/e2b/e2b.go\<close> (compatible with E2B).
  The response writer and the request multiplexer of \<open>net/http\<close> are modelled as far as the code uses
  them; how a request body decodes is a parameter. A handler maps the Manager and the world to a
  response, or to \<open>None\<close> when it panics (\<open>net/http\<close> then drops the connection). Requests are served
  one after another.
\<close>

section \<open>Responses\<close>

text \<open>
  What a handler writes: bytes, the text of an error on a line of its own (\<open>http.Error\<close>), or the
  E2B error object around the text of an error. Error texts stay structured, as everywhere.
\<close>

datatype body = Bytes string | ErrorLine err | ErrorObject nat err

text \<open>
  \<open>http.ResponseWriter\<close>: the status once the header is written, the header map that the handler
  sees, the copy of it that was sent with the status, and the body. A response that is sent without
  a content type gets one guessed from its body, which for JSON is \<open>text/plain\<close>.
\<close>

record response =
  rw_status :: "nat option"
  rw_header :: "string \<rightharpoonup> string"
  rw_sent :: "string \<rightharpoonup> string"
  rw_body :: "body list"

definition new_writer :: response where
  "new_writer = \<lparr>rw_status = None, rw_header = Map.empty, rw_sent = Map.empty, rw_body = []\<rparr>"

definition WriteHeader :: "nat \<Rightarrow> response \<Rightarrow> response" where
  "WriteHeader code rw =
     (if rw_status rw = None then rw\<lparr>rw_status := Some code, rw_sent := rw_header rw\<rparr> else rw)"

definition http_Write :: "body \<Rightarrow> response \<Rightarrow> response" where
  "http_Write b rw = (let rw' = WriteHeader 200 rw in rw'\<lparr>rw_body := rw_body rw' @ [b]\<rparr>)"

definition set_header :: "string \<Rightarrow> string \<Rightarrow> response \<Rightarrow> response" where
  "set_header k v rw = rw\<lparr>rw_header := (rw_header rw)(k \<mapsto> v)\<rparr>"

definition http_Error :: "err \<Rightarrow> nat \<Rightarrow> response \<Rightarrow> response" where
  "http_Error e code rw = http_Write (ErrorLine e) (WriteHeader code
     (set_header ''X-Content-Type-Options'' ''nosniff'' (set_header ''Content-Type'' ''text/plain; charset=utf-8'' rw)))"

text \<open>\<open>json.Encoder\<close> ends a value with a newline.\<close>

definition encoded :: "json \<Rightarrow> body" where
  "encoded v = Bytes (render v @ [CHR 0x0A])"

definition writeJSON :: "json \<Rightarrow> response \<Rightarrow> response" where
  "writeJSON v rw = http_Write (encoded v) (set_header ''Content-Type'' ''application/json'' rw)"

section \<open>Routing\<close>

text \<open>
  A pattern of \<open>http.ServeMux\<close>: a method and segments, some of them wildcards. A wildcard takes one
  non-empty segment, a \<open>GET\<close> pattern also serves \<open>HEAD\<close>; a path that only other methods know is 405.
\<close>

datatype seg = Lit string | Var

fun seg_match :: "seg list \<Rightarrow> string list \<Rightarrow> string list option" where
  "seg_match [] [] = Some []"
| "seg_match (Lit s # ps) (x # xs) = (if s = x then seg_match ps xs else None)"
| "seg_match (Var # ps) (x # xs) = (if x = [] then None else map_option (Cons x) (seg_match ps xs))"
| "seg_match (p # ps) [] = None"
| "seg_match [] (x # xs) = None"

definition method_ok :: "string \<Rightarrow> string \<Rightarrow> bool" where
  "method_ok pat m \<longleftrightarrow> m = pat \<or> (pat = ''GET'' \<and> m = ''HEAD'')"

datatype 'h routed = Handled 'h "string list" | NoHandler nat

fun mux_route :: "(string \<times> seg list \<times> 'h) list \<Rightarrow> nat \<Rightarrow> string \<Rightarrow> string list \<Rightarrow> 'h routed" where
  "mux_route [] code m path = NoHandler code"
| "mux_route ((pm, pat, h) # rs) code m path =
     (case seg_match pat path of
        None \<Rightarrow> mux_route rs code m path
      | Some vs \<Rightarrow> if method_ok pm m then Handled h vs else mux_route rs 405 m path)"

definition no_handler :: "nat \<Rightarrow> response" where
  "no_handler code =
     http_Error (New (if code = 405 then ''Method Not Allowed'' else ''404 page not found'') []) code new_writer"

record request =
  hi_Method :: string
  hi_Path :: "string list"
  hi_Body :: string

section \<open>The native API\<close>

record createReq =
  cr_Driver :: string
  cr_Spec :: "Spec option"

record execReq =
  xr_Cmd :: "string list"

record snapshotReq =
  sr_Path :: string

record restoreReq =
  rr_Driver :: string
  rr_Path :: string
  rr_Netns :: string

definition state_name :: "State \<Rightarrow> string" where
  "state_name s = (case s of StateCreated \<Rightarrow> ''created'' | StateRunning \<Rightarrow> ''running''
     | StateStopped \<Rightarrow> ''stopped'' | StateSnapshot \<Rightarrow> ''snapshotted'')"

definition inst_json :: "'w Instance \<Rightarrow> 'w \<Rightarrow> json" where
  "inst_json i w = JObj [(''id'', JStr (inst_ID i)), (''state'', JStr (state_name (inst_State i w)))]"

type_synonym 'w handled = "response option \<times> 'w Manager \<times> 'w"

definition api_healthz :: "response \<Rightarrow> response" where
  "api_healthz rw = http_Write (Bytes ''ok'') (WriteHeader 200 rw)"

text \<open>The answer to an operation that returns a sandbox or an error.\<close>

definition inst_answer :: "'w Instance res \<times> 'w Manager \<times> 'w \<Rightarrow> response \<Rightarrow> 'w handled" where
  "inst_answer q rw =
     (case q of
        (Ok i, m, w) \<Rightarrow> (Some (writeJSON (inst_json i w) rw), m, w)
      | (Err e, m, w) \<Rightarrow> (Some (http_Error e 500 rw), m, w)
      | (Panic, m, w) \<Rightarrow> (None, m, w))"

definition api_create :: "err + createReq \<Rightarrow> response \<Rightarrow> 'w Manager \<Rightarrow> 'w \<Rightarrow> 'w handled" where
  "api_create body rw m w =
     (case body of
        Inl e \<Rightarrow> (Some (http_Error e 400 rw), m, w)
      | Inr req \<Rightarrow>
          inst_answer (mgr_Create m (if cr_Driver req = [] then ''process'' else cr_Driver req) (cr_Spec req) w) rw)"

definition api_list :: "string list \<Rightarrow> response \<Rightarrow> 'w Manager \<Rightarrow> 'w \<Rightarrow> 'w handled" where
  "api_list ks rw m w = (Some (writeJSON (JArr (map (\<lambda>i. inst_json i w) (mgr_List m ks))) rw), m, w)"

definition api_delete :: "string \<Rightarrow> response \<Rightarrow> 'w Manager \<Rightarrow> 'w \<Rightarrow> 'w handled" where
  "api_delete sid rw m w =
     (case mgr_Delete m sid w of
        (Ok _, m', w') \<Rightarrow> (Some (WriteHeader 204 rw), m', w')
      | (Err e, m', w') \<Rightarrow> (Some (http_Error e 404 rw), m', w')
      | (Panic, m', w') \<Rightarrow> (None, m', w'))"

definition api_exec :: "string \<Rightarrow> err + execReq \<Rightarrow> response \<Rightarrow> 'w Manager \<Rightarrow> 'w \<Rightarrow> 'w handled" where
  "api_exec sid body rw m w =
     (case mgr_Get m sid of
        None \<Rightarrow> (Some (http_Error (New ''sandbox not found'' []) 404 rw), m, w)
      | Some i \<Rightarrow>
          (case body of
             Inl e \<Rightarrow> (Some (http_Error (New ''bad exec request'' []) 400 rw), m, w)
           | Inr req \<Rightarrow>
               if xr_Cmd req = [] then (Some (http_Error (New ''bad exec request'' []) 400 rw), m, w)
               else (case inst_Exec i (xr_Cmd req) w of
                       (Ok code, out, errout, w') \<Rightarrow>
                         (Some (writeJSON (JObj [(''exit_code'', JNum code), (''stderr'', JStr errout), (''stdout'', JStr out)]) rw),
                          m, w')
                     | (Err e, out, errout, w') \<Rightarrow> (Some (http_Error e 500 rw), m, w')
                     | (Panic, out, errout, w') \<Rightarrow> (None, m, w'))))"

definition api_snapshot :: "string \<Rightarrow> err + snapshotReq \<Rightarrow> response \<Rightarrow> 'w Manager \<Rightarrow> 'w \<Rightarrow> 'w handled" where
  "api_snapshot sid body rw m w =
     (let bad = (Some (http_Error (New ''bad snapshot request: path required'' []) 400 rw), m, w)
      in case body of
           Inl e \<Rightarrow> bad
         | Inr req \<Rightarrow>
             if sr_Path req = [] then bad
             else (case mgr_Snapshot m sid (sr_Path req) w of
                     (Ok _, w') \<Rightarrow> (Some (writeJSON (JObj [(''snapshot'', JStr (sr_Path req))]) rw), m, w')
                   | (Err e, w') \<Rightarrow> (Some (http_Error e 500 rw), m, w')
                   | (Panic, w') \<Rightarrow> (None, m, w')))"

definition api_fork :: "string \<Rightarrow> err + snapshotReq \<Rightarrow> response \<Rightarrow> 'w Manager \<Rightarrow> 'w \<Rightarrow> 'w handled" where
  "api_fork sid body rw m w =
     (let bad = (Some (http_Error (New ''bad fork request: path required'' []) 400 rw), m, w)
      in case body of
           Inl e \<Rightarrow> bad
         | Inr req \<Rightarrow> if sr_Path req = [] then bad else inst_answer (mgr_Fork m sid (sr_Path req) w) rw)"

definition api_restore :: "err + restoreReq \<Rightarrow> response \<Rightarrow> 'w Manager \<Rightarrow> 'w \<Rightarrow> 'w handled" where
  "api_restore body rw m w =
     (let bad = (Some (http_Error (New ''bad restore request: path required'' []) 400 rw), m, w)
      in case body of
           Inl e \<Rightarrow> bad
         | Inr req \<Rightarrow>
             if rr_Path req = [] then bad
             else inst_answer (mgr_RestoreFrom m (if rr_Driver req = [] then ''cloudhypervisor'' else rr_Driver req)
                    (rr_Path req) \<lparr>opts_Netns = rr_Netns req\<rparr> w) rw)"

datatype api_op = AHealthz | AList | ACreate | AExec | ADelete | ASnapshot | AFork | ARestore

definition api_patterns :: "(string \<times> seg list \<times> api_op) list" where
  "api_patterns =
     [(''GET'', [Lit ''healthz''], AHealthz),
      (''GET'', [Lit ''v1'', Lit ''sandboxes''], AList),
      (''POST'', [Lit ''v1'', Lit ''sandboxes''], ACreate),
      (''POST'', [Lit ''v1'', Lit ''sandboxes'', Var, Lit ''exec''], AExec),
      (''DELETE'', [Lit ''v1'', Lit ''sandboxes'', Var], ADelete),
      (''POST'', [Lit ''v1'', Lit ''sandboxes'', Var, Lit ''snapshot''], ASnapshot),
      (''POST'', [Lit ''v1'', Lit ''sandboxes'', Var, Lit ''fork''], AFork),
      (''POST'', [Lit ''v1'', Lit ''sandboxes'', Lit ''restore''], ARestore)]"

text \<open>How bodies decode, for every kind of request.\<close>

record newSandbox =
  ns_TemplateID :: string
  ns_Timeout :: "32 word"
  ns_Metadata :: "string \<rightharpoonup> string"
  ns_EnvVars :: "string \<rightharpoonup> string"

record decoders =
  dc_create :: "string \<Rightarrow> err + createReq"
  dc_exec :: "string \<Rightarrow> err + execReq"
  dc_snapshot :: "string \<Rightarrow> err + snapshotReq"
  dc_restore :: "string \<Rightarrow> err + restoreReq"
  dc_new :: "string \<Rightarrow> err + newSandbox"

definition api_ServeHTTP :: "decoders \<Rightarrow> string list \<Rightarrow> request \<Rightarrow> 'w Manager \<Rightarrow> 'w \<Rightarrow> 'w handled" where
  "api_ServeHTTP dc ks r m w =
     (case mux_route api_patterns 404 (hi_Method r) (hi_Path r) of
        NoHandler code \<Rightarrow> (Some (no_handler code), m, w)
      | Handled h vs \<Rightarrow>
          (case h of
             AHealthz \<Rightarrow> (Some (api_healthz new_writer), m, w)
           | AList \<Rightarrow> api_list ks new_writer m w
           | ACreate \<Rightarrow> api_create (dc_create dc (hi_Body r)) new_writer m w
           | AExec \<Rightarrow> api_exec (hd vs) (dc_exec dc (hi_Body r)) new_writer m w
           | ADelete \<Rightarrow> api_delete (hd vs) new_writer m w
           | ASnapshot \<Rightarrow> api_snapshot (hd vs) (dc_snapshot dc (hi_Body r)) new_writer m w
           | AFork \<Rightarrow> api_fork (hd vs) (dc_snapshot dc (hi_Body r)) new_writer m w
           | ARestore \<Rightarrow> api_restore (dc_restore dc (hi_Body r)) new_writer m w))"

section \<open>The E2B API\<close>

record E2bTemplate =
  et_Driver :: string
  et_SnapshotPath :: string

record sandboxMeta =
  sm_templateID :: string
  sm_createdAt :: int

record Handler =
  eh_defaultDriver :: string
  eh_templates :: "string \<rightharpoonup> E2bTemplate"
  eh_meta :: "string \<rightharpoonup> sandboxMeta"

definition NewHandler :: "string \<Rightarrow> Handler" where
  "NewHandler defaultDriver =
     \<lparr>eh_defaultDriver = defaultDriver, eh_templates = Map.empty, eh_meta = Map.empty\<rparr>"

definition RegisterTemplate :: "Handler \<Rightarrow> string \<Rightarrow> E2bTemplate \<Rightarrow> Handler" where
  "RegisterTemplate h tid t = h\<lparr>eh_templates := (eh_templates h)(tid \<mapsto> t)\<rparr>"

definition envdVersion :: string where "envdVersion = ''vessel-0.2''"

definition sandboxResp :: "string \<Rightarrow> string \<Rightarrow> json" where
  "sandboxResp tid sid = JObj [(''templateID'', JStr tid), (''sandboxID'', JStr sid), (''clientID'', JStr ''vessel''),
     (''envdVersion'', JStr envdVersion), (''envdAccessToken'', JNull)]"

definition writeErr :: "nat \<Rightarrow> err \<Rightarrow> response \<Rightarrow> response" where
  "writeErr code e rw =
     http_Write (ErrorObject code e) (WriteHeader code (set_header ''Content-Type'' ''application/json'' rw))"

text \<open>\<open>time.Duration\<close> is 64 bits wide; a 32-bit number of seconds does not overflow it.\<close>

definition e2b_spec :: "newSandbox \<Rightarrow> Spec" where
  "e2b_spec req = zero_Spec\<lparr>spec_Name := ns_TemplateID req, spec_Env := ns_EnvVars req,
     spec_Timeout := (if sint (ns_Timeout req) > 0 then sint (ns_Timeout req) * 1000000000 else 0)\<rparr>"

definition resolveAndCreate ::
  "Handler \<Rightarrow> newSandbox \<Rightarrow> 'w Manager \<Rightarrow> 'w \<Rightarrow> 'w Instance res \<times> 'w Manager \<times> 'w" where
  "resolveAndCreate h req m w =
     (let fresh = mgr_Create m (eh_defaultDriver h) (Some (e2b_spec req)) w
      in case eh_templates h (ns_TemplateID req) of
           None \<Rightarrow> fresh
         | Some t \<Rightarrow>
             if et_SnapshotPath t \<noteq> [] then
               mgr_RestoreFrom m (if et_Driver t = [] then eh_defaultDriver h else et_Driver t)
                 (et_SnapshotPath t) \<lparr>opts_Netns = []\<rparr> w
             else fresh)"

type_synonym 'w e2b_handled = "response option \<times> Handler \<times> 'w Manager \<times> 'w"

definition e2b_create :: "int \<Rightarrow> err + newSandbox \<Rightarrow> response \<Rightarrow> Handler \<Rightarrow> 'w Manager \<Rightarrow> 'w \<Rightarrow> 'w e2b_handled" where
  "e2b_create now body rw h m w =
     (case body of
        Inl e \<Rightarrow> (Some (writeErr 400 (New ''invalid request body'' []) rw), h, m, w)
      | Inr req \<Rightarrow>
          if ns_TemplateID req = [] then (Some (writeErr 400 (New ''templateID is required'' []) rw), h, m, w)
          else (case resolveAndCreate h req m w of
                  (Err e, m', w') \<Rightarrow> (Some (writeErr 500 e rw), h, m', w')
                | (Panic, m', w') \<Rightarrow> (None, h, m', w')
                | (Ok i, m', w') \<Rightarrow>
                    (Some (writeJSON (sandboxResp (ns_TemplateID req) (inst_ID i)) (WriteHeader 201 rw)),
                     h\<lparr>eh_meta := (eh_meta h)(inst_ID i \<mapsto> \<lparr>sm_templateID = ns_TemplateID req, sm_createdAt = now\<rparr>)\<rparr>,
                     m', w')))"

definition meta_template :: "Handler \<Rightarrow> string \<Rightarrow> string" where
  "meta_template h sid = (case eh_meta h sid of None \<Rightarrow> [] | Some x \<Rightarrow> sm_templateID x)"

definition e2b_list :: "string list \<Rightarrow> response \<Rightarrow> Handler \<Rightarrow> 'w Manager \<Rightarrow> response" where
  "e2b_list ks rw h m =
     writeJSON (JArr (map (\<lambda>i. sandboxResp (meta_template h (inst_ID i)) (inst_ID i)) (mgr_List m ks))) rw"

definition e2b_kill :: "string \<Rightarrow> response \<Rightarrow> Handler \<Rightarrow> 'w Manager \<Rightarrow> 'w \<Rightarrow> 'w e2b_handled" where
  "e2b_kill sid rw h m w =
     (case mgr_Get m sid of
        None \<Rightarrow> (Some (writeErr 404 (New ''sandbox not found'' []) rw), h, m, w)
      | Some i \<Rightarrow>
          (case inst_Stop i w of
             (Err e, w') \<Rightarrow> (Some (writeErr 500 e rw), h, m, w')
           | (Panic, w') \<Rightarrow> (None, h, m, w')
           | (Ok _, w') \<Rightarrow> (Some (WriteHeader 204 rw), h\<lparr>eh_meta := (eh_meta h)(sid := None)\<rparr>, m, w')))"

datatype e2b_op = ECreate | EList | EKill

definition e2b_patterns :: "(string \<times> seg list \<times> e2b_op) list" where
  "e2b_patterns =
     [(''POST'', [Lit ''sandboxes''], ECreate),
      (''GET'', [Lit ''sandboxes''], EList),
      (''DELETE'', [Lit ''sandboxes'', Var], EKill)]"

definition e2b_ServeHTTP ::
  "decoders \<Rightarrow> string list \<Rightarrow> int \<Rightarrow> request \<Rightarrow> Handler \<Rightarrow> 'w Manager \<Rightarrow> 'w \<Rightarrow> 'w e2b_handled" where
  "e2b_ServeHTTP dc ks now r h m w =
     (case mux_route e2b_patterns 404 (hi_Method r) (hi_Path r) of
        NoHandler code \<Rightarrow> (Some (no_handler code), h, m, w)
      | Handled op vs \<Rightarrow>
          (case op of
             ECreate \<Rightarrow> e2b_create now (dc_new dc (hi_Body r)) new_writer h m w
           | EList \<Rightarrow> (Some (e2b_list ks new_writer h m), h, m, w)
           | EKill \<Rightarrow> e2b_kill (hd vs) new_writer h m w))"

section \<open>What a request does to the Manager\<close>

text \<open>
  The abstract specification of the two interfaces: a request is at most one operation of the Manager,
  or one call of a sandbox that the Manager knows.
\<close>

datatype act = ActOp mgr_op | ActExec string "string list" | ActStop string

fun act_apply :: "act \<Rightarrow> 'w Manager \<Rightarrow> 'w \<Rightarrow> 'w Instance option \<times> 'w Manager \<times> 'w" where
  "act_apply (ActOp x) m w = mgr_apply x m w"
| "act_apply (ActExec sid cmd) m w =
     (None, m, case mgr_Get m sid of None \<Rightarrow> w | Some i \<Rightarrow> snd (snd (snd (inst_Exec i cmd w))))"
| "act_apply (ActStop sid) m w =
     (None, m, case mgr_Get m sid of None \<Rightarrow> w | Some i \<Rightarrow> snd (inst_Stop i w))"

definition act_run :: "act option \<Rightarrow> 'w Manager \<Rightarrow> 'w \<Rightarrow> 'w Manager \<times> 'w" where
  "act_run a m w = (case a of None \<Rightarrow> (m, w) | Some x \<Rightarrow> snd (act_apply x m w))"

text \<open>The identifier of the sandbox it makes, if it makes one, is not in use.\<close>

definition act_fresh :: "act option \<Rightarrow> 'w Manager \<Rightarrow> 'w \<Rightarrow> bool" where
  "act_fresh a m w =
     (case a of None \<Rightarrow> True
      | Some x \<Rightarrow> (case fst (act_apply x m w) of None \<Rightarrow> True | Some i \<Rightarrow> instances m (inst_ID i) = None))"

definition api_act :: "decoders \<Rightarrow> request \<Rightarrow> act option" where
  "api_act dc r =
     (case mux_route api_patterns 404 (hi_Method r) (hi_Path r) of
        NoHandler code \<Rightarrow> None
      | Handled h vs \<Rightarrow>
          (case h of
             AHealthz \<Rightarrow> None
           | AList \<Rightarrow> None
           | ACreate \<Rightarrow>
               (case dc_create dc (hi_Body r) of Inl e \<Rightarrow> None
                | Inr q \<Rightarrow> Some (ActOp (OpCreate (if cr_Driver q = [] then ''process'' else cr_Driver q) (cr_Spec q))))
           | AExec \<Rightarrow>
               (case dc_exec dc (hi_Body r) of Inl e \<Rightarrow> None
                | Inr q \<Rightarrow> if xr_Cmd q = [] then None else Some (ActExec (hd vs) (xr_Cmd q)))
           | ADelete \<Rightarrow> Some (ActOp (OpDelete (hd vs)))
           | ASnapshot \<Rightarrow>
               (case dc_snapshot dc (hi_Body r) of Inl e \<Rightarrow> None
                | Inr q \<Rightarrow> if sr_Path q = [] then None else Some (ActOp (OpSnapshot (hd vs) (sr_Path q))))
           | AFork \<Rightarrow>
               (case dc_snapshot dc (hi_Body r) of Inl e \<Rightarrow> None
                | Inr q \<Rightarrow> if sr_Path q = [] then None else Some (ActOp (OpFork (hd vs) (sr_Path q))))
           | ARestore \<Rightarrow>
               (case dc_restore dc (hi_Body r) of Inl e \<Rightarrow> None
                | Inr q \<Rightarrow> if rr_Path q = [] then None
                    else Some (ActOp (OpRestore (if rr_Driver q = [] then ''cloudhypervisor'' else rr_Driver q)
                           (rr_Path q) \<lparr>opts_Netns = rr_Netns q\<rparr>)))))"

definition e2b_act :: "decoders \<Rightarrow> Handler \<Rightarrow> request \<Rightarrow> act option" where
  "e2b_act dc h r =
     (case mux_route e2b_patterns 404 (hi_Method r) (hi_Path r) of
        NoHandler code \<Rightarrow> None
      | Handled op vs \<Rightarrow>
          (case op of
             ECreate \<Rightarrow>
               (case dc_new dc (hi_Body r) of Inl e \<Rightarrow> None
                | Inr q \<Rightarrow>
                    if ns_TemplateID q = [] then None
                    else Some (ActOp (case eh_templates h (ns_TemplateID q) of
                           None \<Rightarrow> OpCreate (eh_defaultDriver h) (Some (e2b_spec q))
                         | Some t \<Rightarrow> if et_SnapshotPath t = [] then OpCreate (eh_defaultDriver h) (Some (e2b_spec q))
                             else OpRestore (if et_Driver t = [] then eh_defaultDriver h else et_Driver t)
                               (et_SnapshotPath t) \<lparr>opts_Netns = []\<rparr>)))
           | EList \<Rightarrow> None
           | EKill \<Rightarrow> Some (ActStop (hd vs))))"

lemma inst_answer_state: "inst_answer (q, m, w) rw = (z, m', w') \<Longrightarrow> m' = m \<and> w' = w"
  by (cases q) (auto simp: inst_answer_def)

lemma api_refines:
  assumes "api_ServeHTTP dc ks r m w = (rw, m', w')"
  shows "(m', w') = act_run (api_act dc r) m w"
proof (cases "mux_route api_patterns 404 (hi_Method r) (hi_Path r)")
  case (NoHandler code)
  with assms show ?thesis by (simp add: api_ServeHTTP_def api_act_def act_run_def)
next
  case (Handled h vs)
  with assms show ?thesis
    by (cases h)
      (auto simp: api_ServeHTTP_def api_act_def act_run_def api_create_def api_list_def api_delete_def
        api_exec_def api_snapshot_def api_fork_def api_restore_def inst_answer_def Let_def
        split: sum.splits if_splits option.splits res.splits prod.splits)
qed

lemma e2b_refines:
  assumes "e2b_ServeHTTP dc ks now r h m w = (rw, h', m', w')"
  shows "(m', w') = act_run (e2b_act dc h r) m w \<and> eh_templates h' = eh_templates h \<and>
    eh_defaultDriver h' = eh_defaultDriver h"
proof (cases "mux_route e2b_patterns 404 (hi_Method r) (hi_Path r)")
  case (NoHandler code)
  with assms show ?thesis by (simp add: e2b_ServeHTTP_def e2b_act_def act_run_def)
next
  case (Handled op vs)
  with assms show ?thesis
    by (cases op)
      (auto simp: e2b_ServeHTTP_def e2b_act_def act_run_def e2b_create_def resolveAndCreate_def e2b_kill_def Let_def
        split: sum.splits if_splits option.splits res.splits prod.splits)
qed

text \<open>Under the contract of the drivers, what a request does keeps the invariant of the Manager.\<close>

context sandbox_drivers
begin

lemma ok_act:
  assumes ok: "mgr_ok D wfw live handle m w" and fresh: "act_fresh a m w" and r: "act_run a m w = (m', w')"
  shows "mgr_ok D wfw live handle m' w'"
proof (cases a)
  case None
  with ok r show ?thesis by (simp add: act_run_def)
next
  case (Some x)
  have known: "mgr_Get m sid = Some i \<Longrightarrow> handle w i" for sid i
    using mgr_okD(3) [OF ok] by (auto simp: mgr_Get_def)
  show ?thesis
  proof (cases x)
    case (ActOp y)
    obtain new where y: "mgr_apply y m w = (new, m', w')"
      using r Some ActOp by (cases "mgr_apply y m w") (auto simp: act_run_def)
    have "new = Some i \<Longrightarrow> instances m (inst_ID i) = None" for i
      using fresh Some ActOp y by (simp add: act_fresh_def)
    then show ?thesis by (rule ok_apply [OF ok y])
  next
    case (ActExec sid cmd)
    show ?thesis
    proof (cases "mgr_Get m sid")
      case (Some i)
      obtain c o1 o2 v where v: "inst_Exec i cmd w = (c, o1, o2, v)" by (metis prod_cases4)
      with r \<open>a = Some x\<close> ActExec Some have "m' = m" "w' = v" by (simp_all add: act_run_def)
      with exec [OF known [OF Some] mgr_okD(1) [OF ok] v] show ?thesis by (auto intro: ok_same [OF ok])
    qed (use r ok \<open>a = Some x\<close> ActExec in \<open>simp add: act_run_def\<close>)
  next
    case (ActStop sid)
    show ?thesis
    proof (cases "mgr_Get m sid")
      case (Some i)
      obtain c v where v: "inst_Stop i w = (c, v)" by fastforce
      with r \<open>a = Some x\<close> ActStop Some have "m' = m" "w' = v" by (simp_all add: act_run_def)
      with stop [OF known [OF Some] mgr_okD(1) [OF ok] v] show ?thesis by (auto intro: ok_same [OF ok])
    qed (use r ok \<open>a = Some x\<close> ActStop in \<open>simp add: act_run_def\<close>)
  qed
qed

end

lemma act_run_drivers: "act_run a m w = (m', w') \<Longrightarrow> drivers m' = drivers m"
proof (cases a)
  case (Some x)
  assume r: "act_run a m w = (m', w')"
  show ?thesis
  proof (cases x)
    case (ActOp y)
    obtain new where "mgr_apply y m w = (new, m', w')"
      using r Some ActOp by (cases "mgr_apply y m w") (auto simp: act_run_def)
    then show ?thesis using mgr_run_drivers [of "[y]" m w m' w'] by simp
  qed (use r Some in \<open>simp_all add: act_run_def\<close>)
qed (simp add: act_run_def)

end
