(* ===== verification/Bootstrap.thy ===== *)
theory Bootstrap
  imports Filepath
begin

text \<open>
  \<open>vessel up\<close>: \<open>pkg/bootstrap/bootstrap.go\<close> and \<open>rootfs.go\<close>. The host is a parameter: one function
  performs every action that changes the file system, the others are what the code reads. The
  effects of the actions are threaded through a state of the host, \<open>'g\<close>.
\<close>

section \<open>The host\<close>

datatype fop =
    FMkdirAll string nat
  | FOpen string nat
  | FData string string
  | FRemove string
  | FRemoveAll string
  | FSymlink string string
  | FLink string string
  | FRename string string
  | FTruncate string nat
  | FRun "string list"
  | FReport string "string list"

text \<open>
  \<open>FOpen\<close> is \<open>OpenFile\<close> with \<open>O_CREATE|O_WRONLY|O_TRUNC\<close> (and \<open>Create\<close>, whose mode is 0666), \<open>FData\<close>
  writes to the file that was opened last under that name. Modes are written in decimal: 493 is 0755,
  420 is 0644, 438 is 0666. A tar entry carries its content and the
  error that reading it ends with, if any; so does a file that is opened for reading.
\<close>

datatype typeflag = TypeDir | TypeReg | TypeSymlink | TypeLink | TypeOther

record tar_entry =
  te_Name :: string
  te_Type :: typeflag
  te_Mode :: nat
  te_Linkname :: string
  te_Data :: string
  te_Err :: "err option"

record 'g host =
  ho_GOOS :: string
  ho_GOARCH :: string
  ho_HomeDir :: "err + string"
  ho_KVM :: "'g \<Rightarrow> err option"
  ho_LookPath :: "string \<Rightarrow> 'g \<Rightarrow> err + string"
  ho_Executable :: "err + string"
  ho_Elf :: "string \<Rightarrow> 'g \<Rightarrow> err + nat list"
  ho_MkdirTemp :: "'g \<Rightarrow> (err + string) \<times> 'g"
  ho_Stat :: "string \<Rightarrow> 'g \<Rightarrow> err option"
  ho_Read :: "string \<Rightarrow> 'g \<Rightarrow> err + string \<times> err option"
  ho_Tar :: "string \<Rightarrow> 'g \<Rightarrow> err + tar_entry list \<times> err option"
  ho_Get :: "string \<Rightarrow> 'g \<Rightarrow> (err + int \<times> string \<times> err option) \<times> 'g"
  ho_do :: "fop \<Rightarrow> 'g \<Rightarrow> err option \<times> 'g"

definition wrapped :: "string \<Rightarrow> string list \<Rightarrow> err option \<times> 'g \<Rightarrow> err option \<times> 'g" where
  "wrapped f as q = (map_option (Wrapf f as) (fst q), snd q)"

definition report :: "'g host \<Rightarrow> string \<Rightarrow> string list \<Rightarrow> 'g \<Rightarrow> 'g" where
  "report H f as g = snd (ho_do H (FReport f as) g)"

text \<open>The three non-ASCII marks of the progress messages, in UTF-8.\<close>

definition tick :: string where "tick = [CHR 0xE2, CHR 0x9C, CHR 0x93]"
definition dots :: string where "dots = [CHR 0xE2, CHR 0x80, CHR 0xA6]"
definition dash :: string where "dash = [CHR 0xE2, CHR 0x80, CHR 0x94]"

section \<open>Downloads\<close>

definition chVersion :: string where "chVersion = ''v52.0''"

definition chBase :: string where
  "chBase = ''https://github.com/cloud-hypervisor/cloud-hypervisor/releases/download/'' @ chVersion @ ''/''"

definition kernelBase :: string where
  "kernelBase = ''https://github.com/cloud-hypervisor/linux/releases/download/ch-release-v6.12.8-20250613/''"

definition download :: "'g host \<Rightarrow> string \<Rightarrow> string \<Rightarrow> nat \<Rightarrow> 'g \<Rightarrow> err option \<times> 'g" where
  "download H url dst mode g =
     (case ho_Get H url g of
        (Inl e, g1) \<Rightarrow> (Some e, g1)
      | (Inr (status, data, rerr), g1) \<Rightarrow>
          if status \<noteq> 200 then (Some (New ''HTTP %d from %s'' [Itoa status, url]), g1)
          else andThen (ho_do H (FOpen dst mode) g1) (\<lambda>g2.
                 andThen (ho_do H (FData dst data) g2) (\<lambda>g3. (rerr, g3))))"

definition ensureDownload :: "'g host \<Rightarrow> string \<Rightarrow> string \<Rightarrow> nat \<Rightarrow> string \<Rightarrow> 'g \<Rightarrow> err option \<times> 'g" where
  "ensureDownload H dst url mode label g =
     (if ho_Stat H dst g = None then (None, report H (tick @ '' %s cached'') [label] g)
      else (let g1 = report H (dots @ '' downloading %s'') [label] g; tmp = dst @ ''.tmp''
            in andThen (wrapped ''download %s: %w'' [label] (download H url tmp mode g1)) (\<lambda>g2.
                 ho_do H (FRename tmp dst) g2)))"

section \<open>The guest image\<close>

definition alpineVersion :: string where "alpineVersion = ''3.20.3''"

text \<open>\<open>s[:strings.LastIndex(s, ".")]\<close>, for a string with a dot.\<close>

definition before_last_dot :: "string \<Rightarrow> string" where
  "before_last_dot s = rev (drop 1 (dropWhile (\<lambda>c. c \<noteq> CHR ''.'') (rev s)))"

definition alpine_url :: "string \<Rightarrow> string" where
  "alpine_url arch = ''https://dl-cdn.alpinelinux.org/alpine/v'' @ before_last_dot alpineVersion @ ''/releases/'' @ arch @
     ''/alpine-minirootfs-'' @ alpineVersion @ ''-'' @ arch @ ''.tar.gz''"

definition nl :: string where "nl = [CHR 0x0A]"

definition initScript :: string where
  "initScript =
     ''#!/bin/sh'' @ nl @
     ''export PATH=/usr/local/sbin:/usr/local/bin:/usr/sbin:/usr/bin:/sbin:/bin'' @ nl @
     ''mount -t proc     proc     /proc  2>/dev/null'' @ nl @
     ''mount -t sysfs    sysfs    /sys   2>/dev/null'' @ nl @
     ''mount -t devtmpfs devtmpfs /dev   2>/dev/null'' @ nl @
     ''mount -t tmpfs    tmpfs    /tmp   2>/dev/null'' @ nl @
     ''hostname vessel-guest 2>/dev/null'' @ nl @
     ''exec /usr/bin/vessel agent'' @ nl"

text \<open>\<open>filepath.Base\<close>.\<close>

definition Base :: "string \<Rightarrow> string" where
  "Base p =
     (let q = rev (dropWhile (\<lambda>c. c = CHR ''/'') (rev p)); b = last (splitSlash q)
      in if p = [] then ''.'' else if b = [] then ''/'' else b)"

text \<open>\<open>PT_INTERP\<close> is 3.\<close>

definition isStaticELF :: "'g host \<Rightarrow> string \<Rightarrow> 'g \<Rightarrow> err + bool" where
  "isStaticELF H path g =
     (case ho_Elf H path g of Inl e \<Rightarrow> Inl e | Inr progs \<Rightarrow> Inr (3 \<notin> set progs))"

definition extract_entry :: "'g host \<Rightarrow> string \<Rightarrow> tar_entry \<Rightarrow> 'g \<Rightarrow> err option \<times> 'g" where
  "extract_entry H dst e g =
     (let clean = Clean (te_Name e)
      in if HasPrefix clean ''..'' then (None, g)
         else (let target = Join [dst, clean]
               in case te_Type e of
                    TypeDir \<Rightarrow> ho_do H (FMkdirAll target (te_Mode e)) g
                  | TypeReg \<Rightarrow>
                      andThen (ho_do H (FMkdirAll (Dir target) 493) g) (\<lambda>g.
                      andThen (ho_do H (FOpen target (te_Mode e)) g) (\<lambda>g.
                      andThen (ho_do H (FData target (te_Data e)) g) (\<lambda>g. (te_Err e, g))))
                  | TypeSymlink \<Rightarrow>
                      ho_do H (FSymlink (te_Linkname e) target)
                        (snd (ho_do H (FRemove target) (snd (ho_do H (FMkdirAll (Dir target) 493) g))))
                  | TypeLink \<Rightarrow>
                      ho_do H (FLink (Join [dst, Clean (te_Linkname e)]) target)
                        (snd (ho_do H (FRemove target) (snd (ho_do H (FMkdirAll (Dir target) 493) g))))
                  | TypeOther \<Rightarrow> (None, g)))"

fun extract_entries :: "'g host \<Rightarrow> string \<Rightarrow> tar_entry list \<Rightarrow> err option \<Rightarrow> 'g \<Rightarrow> err option \<times> 'g" where
  "extract_entries H dst [] final g = (final, g)"
| "extract_entries H dst (e # es) final g =
     andThen (extract_entry H dst e g) (\<lambda>g. extract_entries H dst es final g)"

definition extractTarGz :: "'g host \<Rightarrow> string \<Rightarrow> string \<Rightarrow> 'g \<Rightarrow> err option \<times> 'g" where
  "extractTarGz H tarball dst g =
     (case ho_Tar H tarball g of
        Inl e \<Rightarrow> (Some e, g)
      | Inr (es, final) \<Rightarrow> extract_entries H dst es final g)"

definition copyFile :: "'g host \<Rightarrow> string \<Rightarrow> string \<Rightarrow> nat \<Rightarrow> 'g \<Rightarrow> err option \<times> 'g" where
  "copyFile H src dst mode g =
     andThen (ho_do H (FMkdirAll (Dir dst) 493) g) (\<lambda>g.
       case ho_Read H src g of
         Inl e \<Rightarrow> (Some e, g)
       | Inr (data, rerr) \<Rightarrow> andThen (ho_do H (FOpen dst mode) g) (\<lambda>g.
           andThen (ho_do H (FData dst data) g) (\<lambda>g. (rerr, g))))"

text \<open>What \<open>BuildRootfs\<close> does in its temporary directory, and after that outside it.\<close>

definition build_tree :: "'g host \<Rightarrow> string \<Rightarrow> string \<Rightarrow> string \<Rightarrow> 'g \<Rightarrow> err option \<times> 'g" where
  "build_tree H self arch work g =
     (let root = Join [work, ''root'']; tarball = Join [work, ''alpine.tar.gz''];
          initPath = Join [root, ''sbin/init''];
          g = report H ''  fetching Alpine minirootfs %s (%s)'' [alpineVersion, arch] g
      in andThen (wrapped ''fetch alpine: %w'' [] (download H (alpine_url arch) tarball 420 g)) (\<lambda>g.
         andThen (wrapped ''extract alpine: %w'' [] (extractTarGz H tarball root g)) (\<lambda>g.
         andThen (copyFile H self (Join [root, ''usr/bin/vessel'']) 493 g) (\<lambda>g.
         andThen (ho_do H (FOpen initPath 493) (snd (ho_do H (FRemove initPath) g))) (\<lambda>g.
         ho_do H (FData initPath initScript) g)))))"

definition build_image :: "'g host \<Rightarrow> string \<Rightarrow> string \<Rightarrow> string \<Rightarrow> 'g \<Rightarrow> err option \<times> 'g" where
  "build_image H mkfs dst work g =
     (let root = Join [work, ''root'']; tmp = dst @ ''.tmp'';
          g = snd (ho_do H (FRemove tmp) (report H ''  packing ext4 image'' [] g))
      in andThen (ho_do H (FOpen tmp 438) g) (\<lambda>g.
         andThen (ho_do H (FTruncate tmp (192 * 1024 * 1024)) g) (\<lambda>g.
         andThen (wrapped ''mkfs.ext4: %v: %s'' [] (ho_do H (FRun [mkfs, ''-q'', ''-F'', ''-d'', root, tmp]) g)) (\<lambda>g.
         ho_do H (FRename tmp dst) g))))"

definition BuildRootfs :: "'g host \<Rightarrow> string \<Rightarrow> string \<Rightarrow> 'g \<Rightarrow> err option \<times> 'g" where
  "BuildRootfs H dst arch g =
     (case ho_LookPath H ''mkfs.ext4'' g of
        Inl e \<Rightarrow> (Some (New ''mkfs.ext4 not found (install e2fsprogs: sudo apt install e2fsprogs)'' []), g)
      | Inr mkfs \<Rightarrow>
          (case ho_Executable H of
             Inl e \<Rightarrow> (Some e, g)
           | Inr self \<Rightarrow>
               (let g1 = (if isStaticELF H self g = Inr False then
                            report H ''  rebuild with: CGO_ENABLED=0 go build ./cmd/vessel'' []
                              (report H ''! warning: %s is dynamically linked; the guest (musl) cannot run it.'' [Base self] g)
                          else g)
                in case ho_MkdirTemp H g1 of
                     (Inl e, g2) \<Rightarrow> (Some e, g2)
                   | (Inr work, g2) \<Rightarrow>
                       (case andThen (build_tree H self arch work g2) (\<lambda>g. build_image H mkfs dst work g) of
                          (r, g3) \<Rightarrow> (r, snd (ho_do H (FRemoveAll work) g3))))))"

section \<open>Up\<close>

record Assets =
  as_Dir :: string
  as_CHBinary :: string
  as_KernelPath :: string
  as_RootfsPath :: string
  as_KVM :: bool

definition CheckKVM :: "'g host \<Rightarrow> 'g \<Rightarrow> bool" where
  "CheckKVM H g \<longleftrightarrow> ho_KVM H g = None"

definition archAssets :: "string \<Rightarrow> string \<times> string \<times> string" where
  "archAssets goarch =
     (if goarch = ''amd64'' then (''cloud-hypervisor-static'', ''vmlinux-x86_64'', ''x86_64'')
      else if goarch = ''arm64'' then (''cloud-hypervisor-static-aarch64'', ''Image-arm64'', ''aarch64'')
      else ([], [], []))"

definition asset_paths :: "string \<Rightarrow> Assets" where
  "asset_paths home =
     (let d = Join [home, ''.vessel'']
      in \<lparr>as_Dir = d, as_CHBinary = Join [d, ''bin'', ''cloud-hypervisor''], as_KernelPath = Join [d, ''vmlinux''],
          as_RootfsPath = Join [d, ''rootfs.img''], as_KVM = False\<rparr>)"

definition ensure_rootfs :: "'g host \<Rightarrow> string \<Rightarrow> string \<Rightarrow> 'g \<Rightarrow> err option \<times> 'g" where
  "ensure_rootfs H path arch g =
     (if ho_Stat H path g = None then (None, report H (tick @ '' rootfs.img cached'') [] g)
      else andThen (wrapped ''build rootfs: %w'' []
             (BuildRootfs H path arch (report H (dots @ '' building rootfs (Alpine + this binary as guest agent)'') [] g)))
             (\<lambda>g. (None, report H (tick @ '' rootfs.img ready'') [] g)))"

definition ensure_all :: "'g host \<Rightarrow> Assets \<Rightarrow> 'g \<Rightarrow> err option \<times> 'g" where
  "ensure_all H a g =
     (case archAssets (ho_GOARCH H) of
        (chAsset, kernelAsset, alpineArch) \<Rightarrow>
          if chAsset = [] then (Some (New ''unsupported architecture: %s'' [ho_GOARCH H]), g)
          else
            andThen (ensureDownload H (as_CHBinary a) (chBase @ chAsset) 493 (''cloud-hypervisor '' @ chVersion) g) (\<lambda>g.
            andThen (ensureDownload H (as_KernelPath a) (kernelBase @ kernelAsset) 420 ''guest kernel (CH official)'' g) (\<lambda>g.
            ensure_rootfs H (as_RootfsPath a) alpineArch g)))"

definition Up :: "'g host \<Rightarrow> 'g \<Rightarrow> (err + Assets) \<times> 'g" where
  "Up H g =
     (if ho_GOOS H \<noteq> ''linux'' then
        (Inl (New ''vessel up requires Linux (found %s); on macOS run inside a Linux VM'' [ho_GOOS H]), g)
      else case ho_HomeDir H of
        Inl e \<Rightarrow> (Inl e, g)
      | Inr home \<Rightarrow>
          (let a = asset_paths home
           in case ho_do H (FMkdirAll (Join [as_Dir a, ''bin'']) 493) g of
                (Some e, g1) \<Rightarrow> (Inl e, g1)
              | (None, g1) \<Rightarrow>
                  if \<not> CheckKVM H g1 then
                    (Inr a,
                     report H ''  (fix: enable virtualization in BIOS/hypervisor, then: sudo usermod -aG kvm $USER && re-login)'' []
                       (report H (''! /dev/kvm not usable '' @ dash @ '' microVMs disabled, falling back to the process driver'') [] g1))
                  else
                    (case ensure_all H a (report H (tick @ '' KVM available (%s)'') [ho_GOARCH H] g1) of
                       (Some e, g2) \<Rightarrow> (Inl e, g2)
                     | (None, g2) \<Rightarrow> (Inr (a\<lparr>as_KVM := True\<rparr>), g2))))"

end
