(* ===== verification/BootProps.thy ===== *)
theory BootProps
  imports Bootstrap
begin

text \<open>
  Properties of \<open>vessel up\<close> on a host with a disk: a flat map from paths to contents, on which every
  action may fail. A failed action leaves anything in the files it touches, except a rename, which
  happens or does not. A file is bytes, a symbolic link or a file system image, and an image has the files
  of the directory that \<open>mkfs -d\<close> made it of.
\<close>

section \<open>A host with a disk\<close>

datatype disk_file = Blob string | Sym string | Packed "string \<Rightarrow> disk_file option"

record disk =
  dk_files :: "string \<rightharpoonup> disk_file"
  dk_log :: "fop list"
  dk_gets :: "string list"

text \<open>Which files an action may change; \<open>MkdirAll\<close> makes directories only.\<close>

fun touched :: "fop \<Rightarrow> string \<Rightarrow> bool" where
  "touched (FMkdirAll d m) p = False"
| "touched (FOpen q m) p = (p = q)"
| "touched (FData q x) p = (p = q)"
| "touched (FRemove q) p = (p = q)"
| "touched (FRemoveAll d) p = within d p"
| "touched (FSymlink l q) p = (p = q)"
| "touched (FLink old new) p = (p = new)"
| "touched (FRename a b) p = (p = a \<or> p = b)"
| "touched (FTruncate q n) p = (p = q)"
| "touched (FRun c) p = (p = last c)"
| "touched (FReport f as) p = False"

text \<open>An action that succeeds; a command is \<open>mkfs.ext4\<close>, its last two arguments the directory and the image.\<close>

fun disk_apply :: "fop \<Rightarrow> (string \<rightharpoonup> disk_file) \<Rightarrow> string \<rightharpoonup> disk_file" where
  "disk_apply (FMkdirAll d m) fs = fs"
| "disk_apply (FOpen q m) fs = fs(q \<mapsto> Blob [])"
| "disk_apply (FData q x) fs = fs(q \<mapsto> Blob x)"
| "disk_apply (FRemove q) fs = fs(q := None)"
| "disk_apply (FRemoveAll d) fs = (\<lambda>p. if within d p then None else fs p)"
| "disk_apply (FSymlink l q) fs = fs(q \<mapsto> Sym l)"
| "disk_apply (FLink old new) fs = fs(new := fs old)"
| "disk_apply (FRename a b) fs = (fs(a := None))(b := fs a)"
| "disk_apply (FTruncate q n) fs = fs(q \<mapsto> Blob [])"
| "disk_apply (FRun c) fs = fs(last c \<mapsto> Packed (\<lambda>q. fs (last (butlast c) @ ''/'' @ q)))"
| "disk_apply (FReport f as) fs = fs"

text \<open>
  \<open>out\<close> says which actions fail, \<open>junk\<close> what a failed one leaves; both may look at the past. \<open>MkdirTemp\<close>
  makes a new directory, which is empty.
\<close>

definition disk_do ::
  "(fop list \<Rightarrow> fop \<Rightarrow> err option) \<Rightarrow> (fop list \<Rightarrow> fop \<Rightarrow> string \<Rightarrow> disk_file option) \<Rightarrow> fop \<Rightarrow> disk \<Rightarrow> err option \<times> disk"
where
  "disk_do out junk a d =
     (let l = dk_log d;
          broken = (\<lambda>p. if touched a p \<and> \<not> (\<exists>x y. a = FRename x y) then junk l a p else dk_files d p)
      in (out l a,
          d\<lparr>dk_files := (if out l a = None then disk_apply a (dk_files d) else broken), dk_log := l @ [a]\<rparr>))"

definition temp_dir :: "err + string \<Rightarrow> disk \<Rightarrow> disk" where
  "temp_dir wk d = (case wk of Inl e \<Rightarrow> d
     | Inr work \<Rightarrow> d\<lparr>dk_files := (\<lambda>p. if within work p then None else dk_files d p)\<rparr>)"

definition disk_host ::
  "(fop list \<Rightarrow> fop \<Rightarrow> err option) \<Rightarrow> (fop list \<Rightarrow> fop \<Rightarrow> string \<Rightarrow> disk_file option) \<Rightarrow>
   (string \<Rightarrow> err + int \<times> string \<times> err option) \<Rightarrow> err + string \<Rightarrow> disk host \<Rightarrow> disk host" where
  "disk_host out junk web wk base = base\<lparr>ho_do := disk_do out junk, ho_MkdirTemp := (\<lambda>d. (wk, temp_dir wk d)),
     ho_Stat := (\<lambda>p d. if dk_files d p = None then Some (Ext ''no such file'') else None),
     ho_Get := (\<lambda>url d. (web url, d\<lparr>dk_gets := dk_gets d @ [url]\<rparr>))\<rparr>"

lemma disk_host_sel [simp]:
  "ho_do (disk_host out junk web wk base) = disk_do out junk"
  "ho_MkdirTemp (disk_host out junk web wk base) d = (wk, temp_dir wk d)"
  "ho_Stat (disk_host out junk web wk base) p d = (if dk_files d p = None then Some (Ext ''no such file'') else None)"
  "ho_Get (disk_host out junk web wk base) url d = (web url, d\<lparr>dk_gets := dk_gets d @ [url]\<rparr>)"
  "ho_HomeDir (disk_host out junk web wk base) = ho_HomeDir base" "ho_GOOS (disk_host out junk web wk base) = ho_GOOS base"
  "ho_GOARCH (disk_host out junk web wk base) = ho_GOARCH base" "ho_Read (disk_host out junk web wk base) = ho_Read base"
  "ho_Executable (disk_host out junk web wk base) = ho_Executable base" "ho_KVM (disk_host out junk web wk base) = ho_KVM base"
  by (simp_all add: disk_host_def)

section \<open>What a program leaves alone\<close>

text \<open>\<open>only T f\<close>: \<open>f\<close> extends the log by actions that touch only files of \<open>T\<close>, and changes no other file.\<close>

definition only :: "(string \<Rightarrow> bool) \<Rightarrow> (disk \<Rightarrow> err option \<times> disk) \<Rightarrow> bool" where
  "only T f \<longleftrightarrow> (\<forall>d. (\<exists>k. dk_log (snd (f d)) = dk_log d @ k \<and> (\<forall>a \<in> set k. \<forall>p. touched a p \<longrightarrow> T p)) \<and>
     (\<forall>p. \<not> T p \<longrightarrow> dk_files (snd (f d)) p = dk_files d p))"

lemma onlyD: "only T f \<Longrightarrow> \<not> T p \<Longrightarrow> dk_files (snd (f d)) p = dk_files d p"
  by (simp add: only_def)

lemma only_mono: "only T f \<Longrightarrow> (\<And>p. T p \<Longrightarrow> U p) \<Longrightarrow> only U f"
  unfolding only_def by blast

lemma only_ret [simp]: "only T (\<lambda>d. (r, d))"
  by (auto simp: only_def)

lemma only_const: "(\<And>d. f d = (r d, d)) \<Longrightarrow> only T f"
  by (auto simp: only_def)

lemma only_do: "(\<And>p. touched a p \<Longrightarrow> T p) \<Longrightarrow> only T (disk_do out junk a)"
  by (cases a) (auto simp: only_def disk_do_def Let_def)

lemma only_after:
  assumes "only T f" "only T k" shows "only T (\<lambda>d. k (snd (f d)))"
  unfolding only_def
proof (intro allI conjI impI)
  fix d
  obtain x where x: "dk_log (snd (f d)) = dk_log d @ x" "\<forall>a \<in> set x. \<forall>p. touched a p \<longrightarrow> T p"
    using assms(1) unfolding only_def by blast
  obtain y where y: "dk_log (snd (k (snd (f d)))) = dk_log (snd (f d)) @ y" "\<forall>a \<in> set y. \<forall>p. touched a p \<longrightarrow> T p"
    using assms(2) unfolding only_def by blast
  show "\<exists>z. dk_log (snd (k (snd (f d)))) = dk_log d @ z \<and> (\<forall>a \<in> set z. \<forall>p. touched a p \<longrightarrow> T p)"
    using x y by (intro exI [of _ "x @ y"]) auto
  show "dk_files (snd (k (snd (f d)))) p = dk_files d p" if "\<not> T p" for p
    using assms that by (simp add: only_def)
qed

lemma only_skip: "(\<And>p. touched a p \<Longrightarrow> T p) \<Longrightarrow> only T f \<Longrightarrow> only T (\<lambda>d. f (snd (disk_do out junk a d)))"
  by (rule only_after [OF only_do])

lemma only_andThen:
  assumes "only T f" "only T k" shows "only T (\<lambda>d. andThen (f d) k)"
proof -
  have "only T (\<lambda>d. if fst (f d) = None then k (snd (f d)) else f d)"
    using assms(1) only_after [OF assms] by (auto simp: only_def)
  moreover have "andThen (f d) k = (if fst (f d) = None then k (snd (f d)) else f d)" for d
    by (auto simp: andThen_def split: prod.splits option.splits)
  ultimately show ?thesis by simp
qed

lemma only_wrapped: "only T f \<Longrightarrow> only T (\<lambda>d. wrapped m as (f d))"
  by (simp add: only_def wrapped_def)

lemma only_if: "only T f \<Longrightarrow> only T g \<Longrightarrow> only T (\<lambda>d. if P d then f d else g d)"
  unfolding only_def by auto

lemma only_gets: "only T f \<Longrightarrow> only T (\<lambda>d. f (d\<lparr>dk_gets := x d\<rparr>))"
  unfolding only_def by (metis disk.select_convs(1,2) disk.surjective disk.update_convs(3))

lemma only_report: "only T f \<Longrightarrow> only T (\<lambda>d. f (report (disk_host out junk web wk base) m as d))"
  using only_after [OF only_do [of "FReport m as" T out junk], of f] by (simp add: report_def)

lemmas only_intros = only_do only_andThen only_wrapped only_if only_gets only_report only_ret

section \<open>Extraction\<close>

lemma within_trans: "within a b \<Longrightarrow> within b c \<Longrightarrow> within a c"
  by (auto simp: within_def HasPrefix_iff)

lemma extract_entry_only:
  assumes "clean_abs dst"
  shows "only (within dst) (extract_entry (disk_host out junk web wk base) dst e)"
proof (cases "HasPrefix (Clean (te_Name e)) ''..''")
  case True
  then show ?thesis by (simp add: extract_entry_def [abs_def])
next
  case False
  let ?t = "Join [dst, Clean (te_Name e)]"
  have t: "within dst ?t" using Join_within [OF assms False] .
  have link: "only (within dst) (\<lambda>d. disk_do out junk a
      (snd (disk_do out junk (FRemove ?t) (snd (disk_do out junk (FMkdirAll (Dir ?t) 493) d)))))"
    if "\<And>p. touched a p \<Longrightarrow> within dst p" for a
    using that t
    by (intro only_skip [of "FMkdirAll (Dir ?t) 493" _ "\<lambda>d. disk_do out junk a (snd (disk_do out junk (FRemove ?t) d))"]
        only_skip [of "FRemove ?t" _ "disk_do out junk a"] only_do) auto
  have "only (within dst) (\<lambda>d. andThen (disk_do out junk (FMkdirAll (Dir ?t) 493) d) (\<lambda>d.
      andThen (disk_do out junk (FOpen ?t (te_Mode e)) d) (\<lambda>d.
      andThen (disk_do out junk (FData ?t (te_Data e)) d) (\<lambda>d. (te_Err e, d)))))"
    using t by (intro only_intros) auto
  then show ?thesis
    using False t link [of "FSymlink (te_Linkname e) ?t"] link [of "FLink (Join [dst, Clean (te_Linkname e)]) ?t"]
    by (cases "te_Type e") (auto simp: extract_entry_def [abs_def] Let_def intro!: only_do)
qed

lemma extract_entries_only:
  assumes "clean_abs dst"
  shows "only (within dst) (extract_entries (disk_host out junk web wk base) dst es final)"
proof (induction es)
  case (Cons e es)
  have "extract_entries H dst (e # es) final = (\<lambda>d. andThen (extract_entry H dst e d) (extract_entries H dst es final))"
    for H :: "disk host" by (rule ext) simp
  with only_andThen [OF extract_entry_only [OF assms] Cons] show ?case by simp
qed simp

lemma extractTarGz_only:
  assumes "clean_abs dst"
  shows "only (within dst) (extractTarGz (disk_host out junk web wk base) tarball dst)"
proof -
  have "\<exists>r es final. extractTarGz H tarball dst d = (Some r, d) \<or> extractTarGz H tarball dst d = extract_entries H dst es final d"
    for H :: "disk host" and d by (auto simp: extractTarGz_def split: sum.splits)
  then show ?thesis
    using extract_entries_only [OF assms, of out junk web wk base] unfolding only_def
    by (metis append_Nil2 list.distinct(1) list.set_cases snd_conv)
qed

section \<open>Building the image\<close>

lemma download_only:
  "T dst \<Longrightarrow> only T (download (disk_host out junk web wk base) url dst mode)"
proof -
  let ?H = "disk_host out junk web wk base"
  assume T: "T dst"
  have ok: "only T (\<lambda>d. andThen (disk_do out junk (FOpen dst mode) d) (\<lambda>d.
      andThen (disk_do out junk (FData dst data) d) (\<lambda>d. (e, d))))" for data e
    using T by (intro only_intros) auto
  have gets: "only T (\<lambda>d. (r, d\<lparr>dk_gets := x d\<rparr>))" for r and x :: "disk \<Rightarrow> string list"
    by (auto simp: only_def)
  show ?thesis
  proof (cases "web url")
    case (Inr q)
    then show ?thesis
      using gets only_gets [OF ok] unfolding download_def disk_host_sel
      by (cases q; cases "fst q = 200") simp_all
  qed (use gets in \<open>simp add: download_def [abs_def]\<close>)
qed

text \<open>Everything in the temporary directory stays below it.\<close>

lemma only_cases: "(\<And>d. \<exists>k. f d = k d \<and> only T k) \<Longrightarrow> only T f"
  unfolding only_def by metis

lemma copyFile_only:
  assumes "T dst" shows "only T (copyFile (disk_host out junk web wk base) src dst mode)"
proof -
  have put: "only T (\<lambda>d. andThen (disk_do out junk (FOpen dst mode) d) (\<lambda>d. andThen (disk_do out junk (FData dst x) d) (\<lambda>d. (e, d))))"
    for x e using assms by (intro only_intros) auto
  have "only T (\<lambda>d. case ho_Read base src d of Inl e \<Rightarrow> (Some e, d)
      | Inr (x, e) \<Rightarrow> andThen (disk_do out junk (FOpen dst mode) d) (\<lambda>d. andThen (disk_do out junk (FData dst x) d) (\<lambda>d. (e, d))))"
  proof (rule only_cases)
    fix d
    show "\<exists>k. (case ho_Read base src d of Inl e \<Rightarrow> (Some e, d)
        | Inr (x, e) \<Rightarrow> andThen (disk_do out junk (FOpen dst mode) d) (\<lambda>d. andThen (disk_do out junk (FData dst x) d) (\<lambda>d. (e, d)))) =
        k d \<and> only T k"
    proof (cases "ho_Read base src d")
      case (Inl e)
      then show ?thesis by (intro exI [of _ "\<lambda>d. (Some e, d)"]) simp
    next
      case (Inr q)
      then show ?thesis by (cases q) (use put in \<open>auto intro: exI\<close>)
    qed
  qed
  then show ?thesis
    unfolding copyFile_def disk_host_sel by (intro only_andThen only_do) auto
qed

lemma work_root:
  assumes "clean_abs work"
  shows "Join [work, ''root''] = work @ ''/root''" "clean_abs (work @ ''/root'')" "within work (work @ ''/root'')"
    "Join [work, ''alpine.tar.gz''] = work @ ''/alpine.tar.gz''" "within work (work @ ''/alpine.tar.gz'')"
    "Join [work @ ''/root'', ''sbin/init''] = work @ ''/root/sbin/init''"
    "Join [work @ ''/root'', ''usr/bin/vessel''] = work @ ''/root/usr/bin/vessel''"
proof -
  have names: "\<forall>y \<in> set [''root'']. name_comp y" "\<forall>y \<in> set [''alpine.tar.gz'']. name_comp y"
    "\<forall>y \<in> set [''sbin'', ''init'']. name_comp y" "\<forall>y \<in> set [''usr'', ''bin'', ''vessel'']. name_comp y"
    by (simp_all add: name_comp_def)
  note r = Join_below [OF assms _ names(1)] and b = Join_below [OF assms _ names(2)]
  show root: "Join [work, ''root''] = work @ ''/root''" "clean_abs (work @ ''/root'')" "within work (work @ ''/root'')"
    using r by simp_all
  show "Join [work, ''alpine.tar.gz''] = work @ ''/alpine.tar.gz''" "within work (work @ ''/alpine.tar.gz'')"
    using b by simp_all
  show "Join [work @ ''/root'', ''sbin/init''] = work @ ''/root/sbin/init''"
    "Join [work @ ''/root'', ''usr/bin/vessel''] = work @ ''/root/usr/bin/vessel''"
    using Join_below(2) [OF root(2) _ names(3)] Join_below(2) [OF root(2) _ names(4)] by simp_all
qed

lemma build_tree_only:
  assumes "clean_abs work"
  shows "only (within work) (build_tree (disk_host out junk web wk base) self arch work)"
proof -
  note w = work_root [OF assms]
  have files: "within work (work @ ''/root/sbin/init'')" "within work (work @ ''/root/usr/bin/vessel'')"
    by (auto simp: within_def HasPrefix_iff)
  have ex: "only (within work) (extractTarGz (disk_host out junk web wk base) (work @ ''/alpine.tar.gz'') (work @ ''/root''))"
    by (rule only_mono [OF extractTarGz_only [OF w(2)]]) (rule within_trans [OF w(3)])
  show ?thesis
    unfolding build_tree_def w(1,4,6,7) Let_def disk_host_sel
    by (intro only_report only_andThen only_wrapped download_only copyFile_only ex w(5) files
        only_skip [of "FRemove _"] only_do) (use files in auto)
qed

section \<open>Installing the assets\<close>

text \<open>
  \<open>installs p good f\<close>: a file that is at \<open>p\<close> already is kept; otherwise \<open>f\<close> leaves nothing there, or a
  complete file; and if \<open>f\<close> succeeds, there is one.
\<close>

definition kept_or_made :: "disk \<Rightarrow> disk \<Rightarrow> string \<Rightarrow> (disk_file \<Rightarrow> bool) \<Rightarrow> bool" where
  "kept_or_made d d' p good \<longleftrightarrow>
     (if dk_files d p \<noteq> None then dk_files d' p = dk_files d p
      else (case dk_files d' p of None \<Rightarrow> True | Some x \<Rightarrow> good x))"

definition installs :: "string \<Rightarrow> (disk_file \<Rightarrow> bool) \<Rightarrow> (disk \<Rightarrow> err option \<times> disk) \<Rightarrow> bool" where
  "installs p good f \<longleftrightarrow> (\<forall>d. kept_or_made d (snd (f d)) p good \<and>
     (fst (f d) = None \<longrightarrow> dk_files (snd (f d)) p \<noteq> None))"

abbreviation leaves :: "string \<Rightarrow> (disk \<Rightarrow> err option \<times> disk) \<Rightarrow> bool" where
  "leaves p f \<equiv> \<forall>d. dk_files (snd (f d)) p = dk_files d p"

lemma installs_first:
  assumes "installs p good f" "leaves p k" shows "installs p good (\<lambda>d. andThen (f d) k)"
  unfolding installs_def
proof
  fix d
  obtain e d1 where f: "f d = (e, d1)" by fastforce
  have "dk_files (snd (k d1)) p = dk_files d1 p" using assms(2) by simp
  moreover have "kept_or_made d d1 p good" "e = None \<Longrightarrow> dk_files d1 p \<noteq> None"
    using assms(1) [unfolded installs_def, rule_format, of d] f by simp_all
  ultimately show "kept_or_made d (snd (andThen (f d) k)) p good \<and>
      (fst (andThen (f d) k) = None \<longrightarrow> dk_files (snd (andThen (f d) k)) p \<noteq> None)"
    unfolding andThen_def kept_or_made_def f by (cases e) simp_all
qed

lemma installs_second:
  assumes "leaves p f" "installs p good k" shows "installs p good (\<lambda>d. andThen (f d) k)"
  unfolding installs_def
proof
  fix d
  obtain e d1 where f: "f d = (e, d1)" by fastforce
  have "dk_files d1 p = dk_files d p" using assms(1) [rule_format, of d] f by simp
  moreover have "kept_or_made d1 (snd (k d1)) p good" "fst (k d1) = None \<Longrightarrow> dk_files (snd (k d1)) p \<noteq> None"
    using assms(2) [unfolded installs_def, rule_format, of d1] by simp_all
  ultimately show "kept_or_made d (snd (andThen (f d) k)) p good \<and>
      (fst (andThen (f d) k) = None \<longrightarrow> dk_files (snd (andThen (f d) k)) p \<noteq> None)"
    unfolding andThen_def kept_or_made_def f by (cases e) (simp_all split: option.split)
qed

lemma report_files [simp]: "dk_files (report (disk_host out junk web wk base) m as d) = dk_files d"
  using onlyD [OF only_do [of "FReport m as" "\<lambda>q. False" out junk]] by (auto simp: report_def)

lemma report_gets [simp]: "dk_gets (report (disk_host out junk web wk base) m as d) = dk_gets d"
  by (simp add: report_def disk_do_def Let_def)

lemma download_ok:
  assumes "download (disk_host out junk web wk base) url dst mode d = (None, d')"
  shows "\<exists>x. web url = Inr (200, x, None) \<and> dk_files d' dst = Some (Blob x)"
  using assms
  by (auto simp: download_def andThen_def disk_do_def Let_def split: sum.splits prod.splits option.splits if_splits)

lemma rename_do:
  "disk_do out junk (FRename a b) d = (e, d') \<Longrightarrow>
   dk_files d' b = (if e = None then dk_files d a else dk_files d b)"
  by (auto simp: disk_do_def Let_def)

lemma tmp_neq [simp]: "p @ ''.tmp'' \<noteq> p" "p \<noteq> p @ ''.tmp''"
  by simp_all

lemma ensureDownload_installs:
  "installs p (\<lambda>f. \<exists>x. f = Blob x \<and> web url = Inr (200, x, None)) (ensureDownload (disk_host out junk web wk base) p url mode label)"
  unfolding installs_def
proof
  fix d
  let ?H = "disk_host out junk web wk base" and ?tmp = "p @ ''.tmp''"
  let ?f = "ensureDownload ?H p url mode label"
  show "kept_or_made d (snd (?f d)) p (\<lambda>f. \<exists>x. f = Blob x \<and> web url = Inr (200, x, None)) \<and>
      (fst (?f d) = None \<longrightarrow> dk_files (snd (?f d)) p \<noteq> None)"
  proof (cases "dk_files d p")
    case (Some x)
    then show ?thesis by (simp add: ensureDownload_def kept_or_made_def)
  next
    case None
    obtain e d1 where dl: "download ?H url ?tmp mode (report ?H (dots @ '' downloading %s'') [label] d) = (e, d1)"
      by fastforce
    have p: "dk_files d1 p = None"
      using onlyD [OF download_only [of "\<lambda>q. q = ?tmp"], of ?tmp p out junk web wk base url mode
          "report ?H (dots @ '' downloading %s'') [label] d"] dl None by simp
    show ?thesis
    proof (cases e)
      case None2: None
      obtain x where x: "web url = Inr (200, x, None)" "dk_files d1 ?tmp = Some (Blob x)"
        using download_ok dl None2 by blast
      obtain e2 d2 where rn: "disk_do out junk (FRename ?tmp p) d1 = (e2, d2)" by fastforce
      have "?f d = (e2, d2)"
        using None dl None2 rn by (simp add: ensureDownload_def Let_def wrapped_def andThen_def)
      then show ?thesis using rename_do [OF rn] x p None by (auto simp: kept_or_made_def)
    next
      case (Some y)
      then have "?f d = (Some (Wrapf ''download %s: %w'' [label] y), d1)"
        using None dl by (simp add: ensureDownload_def Let_def wrapped_def andThen_def)
      then show ?thesis using p None by (simp add: kept_or_made_def)
    qed
  qed
qed

lemma ensureDownload_only:
  assumes "T p" "T (p @ ''.tmp'')"
  shows "only T (ensureDownload (disk_host out junk web wk base) p url mode label)"
proof -
  let ?H = "disk_host out junk web wk base"
  have a: "only T (\<lambda>d. (None, report ?H (tick @ '' %s cached'') [label] d))"
    using only_report [OF only_ret [of T None], of out junk web wk base] by simp
  have b: "only T (\<lambda>d. andThen (wrapped ''download %s: %w'' [label]
      (download ?H url (p @ ''.tmp'') mode (report ?H (dots @ '' downloading %s'') [label] d))) (\<lambda>g.
      disk_do out junk (FRename (p @ ''.tmp'') p) g))"
    by (rule only_report [of T "\<lambda>d. andThen (wrapped ''download %s: %w'' [label] (download ?H url (p @ ''.tmp'') mode d))
          (\<lambda>g. disk_do out junk (FRename (p @ ''.tmp'') p) g)"])
      (intro only_andThen only_wrapped download_only only_do; use assms in auto)
  show ?thesis
    unfolding ensureDownload_def Let_def disk_host_sel by (intro only_if a b)
qed

section \<open>The guest image, whole or not at all\<close>

definition mkfs_cmd :: "string \<Rightarrow> string \<Rightarrow> string \<Rightarrow> string list" where
  "mkfs_cmd mkfs work dst = [mkfs, ''-q'', ''-F'', ''-d'', Join [work, ''root''], dst @ ''.tmp'']"

definition image_pre :: "disk host \<Rightarrow> string \<Rightarrow> string \<Rightarrow> string \<Rightarrow> disk \<Rightarrow> err option \<times> disk" where
  "image_pre H mkfs dst work d =
     andThen (ho_do H (FOpen (dst @ ''.tmp'') 438)
         (snd (ho_do H (FRemove (dst @ ''.tmp'')) (report H ''  packing ext4 image'' [] d)))) (\<lambda>d.
     andThen (ho_do H (FTruncate (dst @ ''.tmp'') (192 * 1024 * 1024)) d) (\<lambda>d.
     wrapped ''mkfs.ext4: %v: %s'' [] (ho_do H (FRun (mkfs_cmd mkfs work dst)) d)))"

lemma andThen_assoc: "andThen (andThen q f) k = andThen q (\<lambda>g. andThen (f g) k)"
  by (auto simp: andThen_def split: prod.splits option.splits)

lemma build_image_pre:
  "build_image H mkfs dst work d = andThen (image_pre H mkfs dst work d) (\<lambda>d. ho_do H (FRename (dst @ ''.tmp'') dst) d)"
  by (simp add: build_image_def image_pre_def mkfs_cmd_def Let_def andThen_assoc)

lemma image_pre_only:
  "T (dst @ ''.tmp'') \<Longrightarrow> only T (image_pre (disk_host out junk web wk base) mkfs dst work)"
  unfolding image_pre_def disk_host_sel
  by (rule only_report [of T "\<lambda>d. andThen (disk_do out junk (FOpen (dst @ ''.tmp'') 438)
      (snd (disk_do out junk (FRemove (dst @ ''.tmp'')) d))) (\<lambda>d.
     andThen (disk_do out junk (FTruncate (dst @ ''.tmp'') (192 * 1024 * 1024)) d) (\<lambda>d.
     wrapped ''mkfs.ext4: %v: %s'' [] (disk_do out junk (FRun (mkfs_cmd mkfs work dst)) d)))"])
    (intro only_andThen only_wrapped only_skip [of "FRemove _"] only_do; auto simp: mkfs_cmd_def)

lemma andThen_None:
  "andThen q k = (None, g') \<longleftrightarrow> (\<exists>g. q = (None, g) \<and> k g = (None, g'))"
  by (auto simp: andThen_def split: prod.splits option.splits)

lemma do_other: "\<not> touched a p \<Longrightarrow> dk_files (snd (disk_do out junk a d)) p = dk_files d p"
  by (rule onlyD [OF only_do [of a "touched a"]])

lemma do_ok: "disk_do out junk a d = (None, d') \<Longrightarrow> dk_files d' = disk_apply a (dk_files d)"
  by (auto simp: disk_do_def Let_def split: if_splits)

text \<open>The image has the files below \<open>root\<close>.\<close>

definition tree_of :: "string \<Rightarrow> disk \<Rightarrow> string \<Rightarrow> disk_file option" where
  "tree_of root d q = dk_files d (root @ ''/'' @ q)"

lemma image_pre_ok:
  assumes "image_pre (disk_host out junk web wk base) mkfs dst work d = (None, d')"
    and "clean_abs work" "\<not> within work (dst @ ''.tmp'')"
  shows "dk_files d' (dst @ ''.tmp'') = Some (Packed (tree_of (work @ ''/root'') d))"
proof -
  let ?tmp = "dst @ ''.tmp''" and ?c = "mkfs_cmd mkfs work dst" and ?H = "disk_host out junk web wk base"
  let ?d0 = "snd (disk_do out junk (FRemove ?tmp) (report ?H ''  packing ext4 image'' [] d))"
  obtain g1 g where st: "disk_do out junk (FOpen ?tmp 438) ?d0 = (None, g1)"
    "disk_do out junk (FTruncate ?tmp (192 * 1024 * 1024)) g1 = (None, g)"
    "wrapped ''mkfs.ext4: %v: %s'' [] (disk_do out junk (FRun ?c) g) = (None, d')"
    using assms(1) unfolding image_pre_def andThen_None disk_host_sel by blast
  then have "disk_do out junk (FRun ?c) g = (None, d')"
    by (cases "disk_do out junk (FRun ?c) g") (simp add: wrapped_def)
  then have d': "dk_files d' = disk_apply (FRun ?c) (dk_files g)" by (rule do_ok)
  have c: "last ?c = ?tmp" "last (butlast ?c) = work @ ''/root''"
    using work_root(1) [OF assms(2)] by (simp_all add: mkfs_cmd_def)
  have g: "dk_files g p = dk_files d p" if "p \<noteq> ?tmp" for p
    using do_ok [OF st(1)] do_ok [OF st(2)] do_other [of "FRemove ?tmp" p] that by simp
  have "dk_files g (work @ ''/root'' @ ''/'' @ q) = dk_files d (work @ ''/root'' @ ''/'' @ q)" for q
  proof (rule g, rule notI)
    assume "work @ ''/root'' @ ''/'' @ q = dst @ ''.tmp''"
    then have "dst @ ''.tmp'' = (work @ ''/'') @ ''root/'' @ q" by simp
    then have "within work (dst @ ''.tmp'')" unfolding within_def HasPrefix_iff by blast
    with assms(3) show False by simp
  qed
  then show ?thesis unfolding d' by (simp add: c tree_of_def [abs_def])
qed

lemma build_image_result:
  assumes "build_image (disk_host out junk web wk base) mkfs dst work d = (e, d')"
    and "clean_abs work" "\<not> within work (dst @ ''.tmp'')"
  shows "dk_files d' dst = (if e = None then Some (Packed (tree_of (work @ ''/root'') d)) else dk_files d dst)"
proof -
  let ?H = "disk_host out junk web wk base"
  obtain e1 d1 where pre: "image_pre ?H mkfs dst work d = (e1, d1)" by fastforce
  have same: "dk_files d1 dst = dk_files d dst"
    using onlyD [OF image_pre_only [of "\<lambda>q. q = dst @ ''.tmp''"], of dst dst out junk web wk base mkfs work d] pre by simp
  show ?thesis
  proof (cases e1)
    case None
    then have "disk_do out junk (FRename (dst @ ''.tmp'') dst) d1 = (e, d')"
      using assms(1) pre by (simp add: build_image_pre andThen_def)
    from rename_do [OF this] image_pre_ok [of out junk web wk base mkfs dst work d d1] pre None same assms(2,3)
    show ?thesis by simp
  next
    case (Some x)
    then show ?thesis using assms(1) pre same by (auto simp: build_image_pre andThen_def)
  qed
qed

text \<open>
  What the tree must be: the complete body of a successful answer for the Alpine URL was unpacked without
  error into an empty directory, and then this binary and the init script were put in.
\<close>

definition guest_tree ::
  "disk host \<Rightarrow> (string \<Rightarrow> err + int \<times> string \<times> err option) \<Rightarrow> string \<Rightarrow> string \<Rightarrow> string \<Rightarrow> (string \<Rightarrow> disk_file option) \<Rightarrow> bool"
where
  "guest_tree H web arch self work T \<longleftrightarrow>
     (\<exists>x d1 d2 d3 binary. web (alpine_url arch) = Inr (200, x, None) \<and>
        dk_files d1 (work @ ''/alpine.tar.gz'') = Some (Blob x) \<and> tree_of (work @ ''/root'') d1 = Map.empty \<and>
        extractTarGz H (work @ ''/alpine.tar.gz'') (work @ ''/root'') d1 = (None, d2) \<and>
        ho_Read H self d3 = Inr (binary, None) \<and>
        T = (tree_of (work @ ''/root'') d2)(''usr/bin/vessel'' \<mapsto> Blob binary, ''sbin/init'' \<mapsto> Blob initScript))"

lemma copyFile_ok:
  assumes "copyFile (disk_host out junk web wk base) src dst mode d = (None, d')"
  shows "\<exists>g x. ho_Read base src g = Inr (x, None) \<and> dk_files d' = (dk_files d)(dst \<mapsto> Blob x)"
proof -
  let ?H = "disk_host out junk web wk base"
  obtain g where mk: "disk_do out junk (FMkdirAll (Dir dst) 493) d = (None, g)"
    and rd: "(case ho_Read base src g of Inl e \<Rightarrow> (Some e, g)
       | Inr (data, rerr) \<Rightarrow> andThen (disk_do out junk (FOpen dst mode) g) (\<lambda>g.
           andThen (disk_do out junk (FData dst data) g) (\<lambda>g. (rerr, g)))) = (None, d')"
    using assms unfolding copyFile_def andThen_None disk_host_sel by blast
  then obtain x g1 where x: "ho_Read base src g = Inr (x, None)" "disk_do out junk (FOpen dst mode) g = (None, g1)"
    "disk_do out junk (FData dst x) g1 = (None, d')"
    by (auto simp: andThen_None split: sum.splits)
  have "dk_files d' = (dk_files d)(dst \<mapsto> Blob x)"
    using do_ok [OF mk] do_ok [OF x(2)] do_ok [OF x(3)] by simp
  with x(1) show ?thesis by blast
qed

lemma build_tree_ok:
  assumes "build_tree (disk_host out junk web wk base) self arch work d = (None, d')" "clean_abs work"
    and "tree_of (work @ ''/root'') d = Map.empty"
  shows "guest_tree (disk_host out junk web wk base) web arch self work (tree_of (work @ ''/root'') d')"
proof -
  let ?H = "disk_host out junk web wk base" and ?ball = "work @ ''/alpine.tar.gz''" and ?root = "work @ ''/root''"
  let ?init = "work @ ''/root/sbin/init''" and ?d0 = "report ?H ''  fetching Alpine minirootfs %s (%s)'' [alpineVersion, arch] d"
  obtain d1 d2 d3 d5 where st: "wrapped ''fetch alpine: %w'' [] (download ?H (alpine_url arch) ?ball 420 ?d0) = (None, d1)"
    "wrapped ''extract alpine: %w'' [] (extractTarGz ?H ?ball ?root d1) = (None, d2)"
    "copyFile ?H self (work @ ''/root/usr/bin/vessel'') 493 d2 = (None, d3)"
    "disk_do out junk (FOpen ?init 493) (snd (disk_do out junk (FRemove ?init) d3)) = (None, d5)"
    "disk_do out junk (FData ?init initScript) d5 = (None, d')"
    using assms(1) unfolding build_tree_def Let_def work_root [OF assms(2)] andThen_None disk_host_sel by blast
  have unwrap: "q = (None, y)" if "wrapped m as q = (None, y)" for m as y and q :: "err option \<times> disk"
    using that by (cases q) (simp add: wrapped_def)
  note dl = unwrap [OF st(1)] and ex = unwrap [OF st(2)]
  obtain x where x: "web (alpine_url arch) = Inr (200, x, None)" "dk_files d1 ?ball = Some (Blob x)"
    using download_ok [OF dl] by blast
  have "dk_files d1 p = dk_files d p" if "p \<noteq> ?ball" for p
    using onlyD [OF download_only [of "\<lambda>q. q = ?ball"], of ?ball p out junk web wk base "alpine_url arch" 420 ?d0] dl that by simp
  then have empty: "tree_of ?root d1 = Map.empty" using assms(3) by (auto simp: tree_of_def fun_eq_iff)
  obtain g binary where b: "ho_Read base self g = Inr (binary, None)"
    "dk_files d3 = (dk_files d2)(work @ ''/root/usr/bin/vessel'' \<mapsto> Blob binary)"
    using copyFile_ok [OF st(3)] by blast
  have "dk_files d' p = (if p = ?init then Some (Blob initScript) else dk_files d3 p)" for p
    using do_ok [OF st(4)] do_ok [OF st(5)] do_other [of "FRemove ?init" p out junk d3] by simp
  then have "tree_of ?root d' = (tree_of ?root d2)(''usr/bin/vessel'' \<mapsto> Blob binary, ''sbin/init'' \<mapsto> Blob initScript)"
    using b(2) by (simp add: tree_of_def fun_eq_iff)
  then show ?thesis unfolding guest_tree_def disk_host_sel using x empty ex b(1) by blast
qed

lemma build_image_only:
  "T dst \<Longrightarrow> T (dst @ ''.tmp'') \<Longrightarrow> only T (build_image (disk_host out junk web wk base) mkfs dst work)"
  unfolding build_image_pre disk_host_sel by (intro only_andThen image_pre_only only_do) auto

text \<open>Where the temporary directory may be.\<close>

definition apart :: "err + string \<Rightarrow> string \<Rightarrow> bool" where
  "apart wk p \<longleftrightarrow> (\<forall>work. wk = Inr work \<longrightarrow> clean_abs work \<and> \<not> within work p \<and> \<not> within work (p @ ''.tmp''))"

definition built :: "disk host \<Rightarrow> (string \<Rightarrow> err + int \<times> string \<times> err option) \<Rightarrow> string \<Rightarrow> disk_file \<Rightarrow> bool" where
  "built H web arch x \<longleftrightarrow>
     (\<exists>self work T. ho_Executable H = Inr self \<and> guest_tree H web arch self work T \<and> x = Packed T)"

definition rootfs_body :: "disk host \<Rightarrow> string \<Rightarrow> string \<Rightarrow> string \<Rightarrow> string \<Rightarrow> string \<Rightarrow> disk \<Rightarrow> err option \<times> disk" where
  "rootfs_body H mkfs self dst arch work d =
     (case andThen (build_tree H self arch work d) (\<lambda>g. build_image H mkfs dst work g) of
        (r, g3) \<Rightarrow> (r, snd (ho_do H (FRemoveAll work) g3)))"

lemma rootfs_body_result:
  assumes "clean_abs work" "\<not> within work p" "\<not> within work (p @ ''.tmp'')" "tree_of (work @ ''/root'') d = Map.empty"
    and "rootfs_body (disk_host out junk web wk base) mkfs self p arch work d = (e, d')"
  shows "if e = None then \<exists>T. dk_files d' p = Some (Packed T) \<and> guest_tree (disk_host out junk web wk base) web arch self work T
     else dk_files d' p = dk_files d p"
proof -
  let ?H = "disk_host out junk web wk base"
  obtain e1 d1 where t: "build_tree ?H self arch work d = (e1, d1)" by fastforce
  have p1: "dk_files d1 p = dk_files d p"
    using onlyD [OF build_tree_only [OF assms(1)] assms(2), of out junk web wk base self arch d] t by simp
  have rm: "dk_files (snd (disk_do out junk (FRemoveAll work) x)) p = dk_files x p" for x
    using assms(2) by (intro do_other) simp
  show ?thesis
  proof (cases e1)
    case None
    obtain e2 d2 where b: "build_image ?H mkfs p work d1 = (e2, d2)" by fastforce
    have "e = e2" "d' = snd (disk_do out junk (FRemoveAll work) d2)"
      using assms(5) t b None by (simp_all add: rootfs_body_def andThen_def)
    then show ?thesis
      using rm build_image_result [OF b assms(1,3)] build_tree_ok [OF t [unfolded None] assms(1,4)] p1 by auto
  next
    case (Some y)
    then have "e = Some y" "d' = snd (disk_do out junk (FRemoveAll work) d1)"
      using assms(5) t by (simp_all add: rootfs_body_def andThen_def)
    then show ?thesis using rm p1 by simp
  qed
qed

lemma temp_dir_files: "dk_files d = dk_files d' \<Longrightarrow> dk_files (temp_dir wk d) = dk_files (temp_dir wk d')"
  by (cases wk) (auto simp: temp_dir_def fun_eq_iff)

lemma BuildRootfs_cases:
  obtains (early) e d' where "BuildRootfs (disk_host out junk web wk base) p arch d = (Some e, d')" "dk_files d' = dk_files d"
  | (body) mkfs self work d1 where "wk = Inr work" "ho_Executable base = Inr self"
      "dk_files d1 = dk_files (temp_dir wk d)"
      "BuildRootfs (disk_host out junk web wk base) p arch d = rootfs_body (disk_host out junk web wk base) mkfs self p arch work d1"
proof -
  let ?H = "disk_host out junk web wk base"
  let ?d1 = "\<lambda>self. if isStaticELF ?H self d = Inr False then
      report ?H ''  rebuild with: CGO_ENABLED=0 go build ./cmd/vessel'' []
        (report ?H ''! warning: %s is dynamically linked; the guest (musl) cannot run it.'' [Base self] d) else d"
  consider e where "ho_LookPath ?H ''mkfs.ext4'' d = Inl e"
    | mkfs e where "ho_LookPath ?H ''mkfs.ext4'' d = Inr mkfs" "ho_Executable base = Inl e"
    | mkfs self e where "ho_LookPath ?H ''mkfs.ext4'' d = Inr mkfs" "ho_Executable base = Inr self" "wk = Inl e"
    | mkfs self work where "ho_LookPath ?H ''mkfs.ext4'' d = Inr mkfs" "ho_Executable base = Inr self" "wk = Inr work"
    by (meson old.sum.exhaust)
  then show thesis
  proof cases
    case (4 mkfs self work)
    then have "BuildRootfs ?H p arch d = rootfs_body ?H mkfs self p arch work (temp_dir wk (?d1 self))"
      by (simp add: BuildRootfs_def rootfs_body_def Let_def)
    moreover have "dk_files (temp_dir wk (?d1 self)) = dk_files (temp_dir wk d)" by (rule temp_dir_files) simp
    ultimately show thesis using body 4(2,3) by blast
  qed (auto intro!: early simp: BuildRootfs_def Let_def temp_dir_def)
qed

lemma ensure_rootfs_installs:
  assumes "apart wk p"
  shows "installs p (built (disk_host out junk web wk base) web arch) (ensure_rootfs (disk_host out junk web wk base) p arch)"
  unfolding installs_def
proof
  fix d
  let ?H = "disk_host out junk web wk base" and ?f = "ensure_rootfs (disk_host out junk web wk base) p arch"
  show "kept_or_made d (snd (?f d)) p (built ?H web arch) \<and> (fst (?f d) = None \<longrightarrow> dk_files (snd (?f d)) p \<noteq> None)"
  proof (cases "dk_files d p")
    case (Some x)
    then show ?thesis by (simp add: ensure_rootfs_def kept_or_made_def)
  next
    case None
    let ?d0 = "report ?H (dots @ '' building rootfs (Alpine + this binary as guest agent)'') [] d"
    obtain e d1 where b: "BuildRootfs ?H p arch ?d0 = (e, d1)" by fastforce
    have "dk_files d1 p = None \<and> e \<noteq> None \<or> (\<exists>x. dk_files d1 p = Some x \<and> built ?H web arch x)"
    proof (cases rule: BuildRootfs_cases [of out junk web wk base p arch ?d0])
      case (early e' d')
      then show ?thesis using b None by simp
    next
      case (body mkfs self work d2)
      have w: "clean_abs work" "\<not> within work p" "\<not> within work (p @ ''.tmp'')"
        using assms body(1) by (simp_all add: apart_def)
      have "tree_of (work @ ''/root'') d2 = Map.empty" "dk_files d2 p = None"
        using None w(2) by (auto simp: body(3) tree_of_def temp_dir_def body(1) fun_eq_iff within_def HasPrefix_iff)
      then show ?thesis
        using rootfs_body_result [OF w, of d2 out junk web wk base mkfs self arch e d1] b body(2,4)
        by (auto simp: built_def split: if_splits)
    qed
    then show ?thesis
      using b None by (cases e) (auto simp: ensure_rootfs_def wrapped_def andThen_def kept_or_made_def)
  qed
qed

lemma BuildRootfs_leaves:
  assumes "\<forall>work. wk = Inr work \<longrightarrow> clean_abs work \<and> \<not> within work q" "q \<noteq> p" "q \<noteq> p @ ''.tmp''"
  shows "dk_files (snd (BuildRootfs (disk_host out junk web wk base) p arch d)) q = dk_files d q"
proof (cases rule: BuildRootfs_cases [of out junk web wk base p arch d])
  case (body mkfs self work d1)
  let ?H = "disk_host out junk web wk base"
  have w: "clean_abs work" "\<not> within work q" using assms(1) body(1) by auto
  let ?T = "\<lambda>x. within work x \<or> x = p \<or> x = p @ ''.tmp''"
  have "only ?T (\<lambda>d. andThen (build_tree ?H self arch work d) (\<lambda>g. build_image ?H mkfs p work g))"
    using only_mono [OF build_tree_only [OF w(1)], of ?T] by (intro only_andThen build_image_only) auto
  from onlyD [OF this] have "dk_files (snd (andThen (build_tree ?H self arch work d1) (\<lambda>g. build_image ?H mkfs p work g))) q = dk_files d1 q"
    using w(2) assms(2,3) by auto
  moreover have "dk_files (snd (disk_do out junk (FRemoveAll work) x)) q = dk_files x q" for x
    using onlyD [OF only_do [of "FRemoveAll work" "within work" out junk]] w(2) by simp
  moreover have "dk_files d1 q = dk_files d q" using body(1,3) w(2) by (simp add: temp_dir_def)
  ultimately show ?thesis using body(4) by (simp add: rootfs_body_def case_prod_beta)
qed simp

lemma leaves_andThen: "leaves p f \<Longrightarrow> leaves p k \<Longrightarrow> leaves p (\<lambda>d. andThen (f d) k)"
  by (auto simp: andThen_def split: prod.split option.split) (metis snd_conv)+

lemma ensureDownload_leaves:
  "q \<noteq> p \<Longrightarrow> q \<noteq> p @ ''.tmp'' \<Longrightarrow> leaves q (ensureDownload (disk_host out junk web wk base) p url mode label)"
  using onlyD [OF ensureDownload_only [of "\<lambda>x. x = p \<or> x = p @ ''.tmp''"]] by auto

lemma ensure_rootfs_leaves:
  assumes "\<forall>work. wk = Inr work \<longrightarrow> clean_abs work \<and> \<not> within work q" "q \<noteq> p" "q \<noteq> p @ ''.tmp''"
  shows "leaves q (ensure_rootfs (disk_host out junk web wk base) p arch)"
proof
  fix d
  let ?H = "disk_host out junk web wk base"
  obtain e d1 where b: "BuildRootfs ?H p arch
      (report ?H (dots @ '' building rootfs (Alpine + this binary as guest agent)'') [] d) = (e, d1)" by fastforce
  with BuildRootfs_leaves [OF assms, of out junk web base arch
      "report ?H (dots @ '' building rootfs (Alpine + this binary as guest agent)'') [] d"]
  have "dk_files d1 q = dk_files d q" by simp
  with b show "dk_files (snd (ensure_rootfs ?H p arch d)) q = dk_files d q"
    by (cases e) (auto simp: ensure_rootfs_def wrapped_def andThen_def)
qed

text \<open>The three assets are at distinct places.\<close>

lemma asset_paths_below:
  assumes "clean_abs home" "asset_paths home = a"
  shows "as_CHBinary a = home @ ''/.vessel/bin/cloud-hypervisor''" "as_KernelPath a = home @ ''/.vessel/vmlinux''"
    "as_RootfsPath a = home @ ''/.vessel/rootfs.img''"
proof -
  have n: "name_comp ''.vessel''" "name_comp ''bin''" "name_comp ''cloud-hypervisor''" "name_comp ''vmlinux''" "name_comp ''rootfs.img''"
    by (simp_all add: name_comp_def)
  have d: "Join [home, ''.vessel''] = home @ ''/.vessel''" "clean_abs (home @ ''/.vessel'')"
    using Join_below [OF assms(1), of "[''.vessel'']"] n by simp_all
  show "as_CHBinary a = home @ ''/.vessel/bin/cloud-hypervisor''" "as_KernelPath a = home @ ''/.vessel/vmlinux''"
    "as_RootfsPath a = home @ ''/.vessel/rootfs.img''"
    using Join_below(1) [OF d(2), of "[''bin'', ''cloud-hypervisor'']"] Join_below(1) [OF d(2), of "[''vmlinux'']"]
      Join_below(1) [OF d(2), of "[''rootfs.img'']"] n
    by (simp_all add: assms(2) [symmetric] asset_paths_def d(1) Let_def)
qed

lemma ensure_all_installs:
  assumes home: "clean_abs home" "asset_paths home = a" and arch: "archAssets (ho_GOARCH base) = (ch, krn, alpine)" "ch \<noteq> []"
    and apart: "apart wk (as_CHBinary a)" "apart wk (as_KernelPath a)" "apart wk (as_RootfsPath a)"
  shows "installs (as_CHBinary a) (\<lambda>f. \<exists>x. f = Blob x \<and> web (chBase @ ch) = Inr (200, x, None)) (ensure_all (disk_host out junk web wk base) a)"
    "installs (as_KernelPath a) (\<lambda>f. \<exists>x. f = Blob x \<and> web (kernelBase @ krn) = Inr (200, x, None)) (ensure_all (disk_host out junk web wk base) a)"
    "installs (as_RootfsPath a) (built (disk_host out junk web wk base) web alpine) (ensure_all (disk_host out junk web wk base) a)"
proof -
  let ?H = "disk_host out junk web wk base"
  let ?f1 = "ensureDownload ?H (as_CHBinary a) (chBase @ ch) 493 (''cloud-hypervisor '' @ chVersion)"
  let ?f2 = "ensureDownload ?H (as_KernelPath a) (kernelBase @ krn) 420 ''guest kernel (CH official)''"
  let ?f3 = "ensure_rootfs ?H (as_RootfsPath a) alpine"
  have all: "ensure_all ?H a = (\<lambda>d. andThen (?f1 d) (\<lambda>d. andThen (?f2 d) ?f3))"
    using arch by (simp add: ensure_all_def fun_eq_iff)
  note paths = asset_paths_below [OF home]
  have l1: "leaves (as_KernelPath a) ?f1" "leaves (as_RootfsPath a) ?f1"
    by (rule ensureDownload_leaves; simp add: paths)+
  have l2: "leaves (as_CHBinary a) ?f2" "leaves (as_RootfsPath a) ?f2"
    by (rule ensureDownload_leaves; simp add: paths)+
  have l3: "leaves (as_CHBinary a) ?f3" "leaves (as_KernelPath a) ?f3"
    by (rule ensure_rootfs_leaves; use apart in \<open>auto simp: apart_def paths\<close>)+
  show "installs (as_CHBinary a) (\<lambda>f. \<exists>x. f = Blob x \<and> web (chBase @ ch) = Inr (200, x, None)) (ensure_all ?H a)"
    unfolding all by (intro installs_first ensureDownload_installs leaves_andThen l2 l3)
  show "installs (as_KernelPath a) (\<lambda>f. \<exists>x. f = Blob x \<and> web (kernelBase @ krn) = Inr (200, x, None)) (ensure_all ?H a)"
    unfolding all by (intro installs_second installs_first ensureDownload_installs l1 l3)
  show "installs (as_RootfsPath a) (built ?H web alpine) (ensure_all ?H a)"
    unfolding all by (intro installs_second ensure_rootfs_installs l1 l2 apart)
qed

text \<open>Nothing is fetched when everything is there.\<close>

lemma ensure_all_cached:
  assumes "dk_files d (as_CHBinary a) \<noteq> None" "dk_files d (as_KernelPath a) \<noteq> None" "dk_files d (as_RootfsPath a) \<noteq> None"
    and "ensure_all (disk_host out junk web wk base) a d = (e, d')"
  shows "dk_gets d' = dk_gets d \<and> dk_files d' = dk_files d"
  using assms by (auto simp: ensure_all_def ensureDownload_def ensure_rootfs_def andThen_def split: prod.splits if_splits)


text \<open>A machine with KVM and an empty disk, on which every download breaks off.\<close>

definition plain_host :: "disk host" where
  "plain_host = \<lparr>ho_GOOS = ''linux'', ho_GOARCH = ''amd64'', ho_HomeDir = Inr ''/home/u'', ho_KVM = (\<lambda>d. None),
     ho_LookPath = (\<lambda>p d. Inr p), ho_Executable = Inr ''/bin/vessel'', ho_Elf = (\<lambda>p d. Inr []),
     ho_MkdirTemp = (\<lambda>d. (Inr ''/tmp/w'', d)), ho_Stat = (\<lambda>p d. None), ho_Read = (\<lambda>p d. Inr ([], None)),
     ho_Tar = (\<lambda>p d. Inr ([\<lparr>te_Name = ''../../etc/passwd'', te_Type = TypeReg, te_Mode = 420, te_Linkname = [],
        te_Data = ''evil'', te_Err = None\<rparr>, \<lparr>te_Name = ''x'', te_Type = TypeLink, te_Mode = 420,
        te_Linkname = ''../../../etc/passwd'', te_Data = [], te_Err = None\<rparr>], None)),
     ho_Get = (\<lambda>url d. (Inl (Ext ''no network''), d)), ho_do = (\<lambda>a d. (None, d))\<rparr>"

definition empty_disk :: disk where
  "empty_disk = \<lparr>dk_files = Map.empty, dk_log = [], dk_gets = []\<rparr>"

definition broken_web :: "string \<Rightarrow> err + int \<times> string \<times> err option" where
  "broken_web url = Inr (200, ''part'', Some (Ext ''unexpected EOF''))"


text \<open>The directories that a program makes, with their parents.\<close>

definition makes_dirs :: "(string \<Rightarrow> bool) \<Rightarrow> (disk \<Rightarrow> err option \<times> disk) \<Rightarrow> bool" where
  "makes_dirs D f \<longleftrightarrow> (\<forall>d. \<exists>k. dk_log (snd (f d)) = dk_log d @ k \<and> (\<forall>t m. FMkdirAll t m \<in> set k \<longrightarrow> D t))"

lemma makes_dirs_ret [simp]: "makes_dirs D (\<lambda>d. (r, d))"
  by (simp add: makes_dirs_def)

lemma makes_dirs_do: "(\<And>t m. a = FMkdirAll t m \<Longrightarrow> D t) \<Longrightarrow> makes_dirs D (disk_do out junk a)"
  by (auto simp: makes_dirs_def disk_do_def Let_def)

lemma makes_dirs_after:
  assumes "makes_dirs D f" "makes_dirs D k" shows "makes_dirs D (\<lambda>d. k (snd (f d)))"
  unfolding makes_dirs_def
proof
  fix d
  obtain x where x: "dk_log (snd (f d)) = dk_log d @ x" "\<forall>t m. FMkdirAll t m \<in> set x \<longrightarrow> D t"
    using assms(1) unfolding makes_dirs_def by blast
  obtain y where y: "dk_log (snd (k (snd (f d)))) = dk_log (snd (f d)) @ y" "\<forall>t m. FMkdirAll t m \<in> set y \<longrightarrow> D t"
    using assms(2) unfolding makes_dirs_def by blast
  show "\<exists>z. dk_log (snd (k (snd (f d)))) = dk_log d @ z \<and> (\<forall>t m. FMkdirAll t m \<in> set z \<longrightarrow> D t)"
    using x y by (intro exI [of _ "x @ y"]) auto
qed

lemma makes_dirs_andThen:
  assumes "makes_dirs D f" "makes_dirs D k" shows "makes_dirs D (\<lambda>d. andThen (f d) k)"
proof -
  have "makes_dirs D (\<lambda>d. if fst (f d) = None then k (snd (f d)) else f d)"
    using assms(1) makes_dirs_after [OF assms] unfolding makes_dirs_def by auto
  moreover have "andThen (f d) k = (if fst (f d) = None then k (snd (f d)) else f d)" for d
    by (auto simp: andThen_def split: prod.splits option.splits)
  ultimately show ?thesis by simp
qed

definition root_dir :: "string \<Rightarrow> string \<Rightarrow> bool" where
  "root_dir dst t \<longleftrightarrow> within dst t \<or> t = Dir dst"

lemma extract_entry_dirs:
  assumes "clean_abs dst"
  shows "makes_dirs (root_dir dst) (extract_entry (disk_host out junk web wk base) dst e)"
proof (cases "HasPrefix (Clean (te_Name e)) ''..''")
  case True
  then show ?thesis by (simp add: extract_entry_def [abs_def])
next
  case False
  let ?t = "Join [dst, Clean (te_Name e)]" and ?do = "disk_do out junk"
  obtain ys where ys: "\<forall>y \<in> set ys. name_comp y" "?t = (if ys = [] then dst else dst @ ''/'' @ joinSlash ys)"
    using assms False by (rule Join_shape)
  have D: "root_dir dst ?t" "root_dir dst (Dir ?t)"
    using Join_within [OF assms False] Dir_below [OF assms _ ys(1)] ys(2) by (auto simp: root_dir_def)
  note mk = makes_dirs_do [of "FMkdirAll (Dir ?t) 493" "root_dir dst" out junk]
  have link: "makes_dirs (root_dir dst) (\<lambda>d. ?do a (snd (?do (FRemove ?t) (snd (?do (FMkdirAll (Dir ?t) 493) d)))))"
    if "\<And>t m. a \<noteq> FMkdirAll t m" for a
    using D that
    by (intro makes_dirs_after [of _ "?do (FMkdirAll (Dir ?t) 493)" "\<lambda>d. ?do a (snd (?do (FRemove ?t) d))"]
        makes_dirs_after [of _ "?do (FRemove ?t)" "?do a"] makes_dirs_do) auto
  have "makes_dirs (root_dir dst) (\<lambda>d. andThen (?do (FMkdirAll (Dir ?t) 493) d) (\<lambda>d.
      andThen (?do (FOpen ?t (te_Mode e)) d) (\<lambda>d. andThen (?do (FData ?t (te_Data e)) d) (\<lambda>d. (te_Err e, d)))))"
    using D by (intro makes_dirs_andThen makes_dirs_do makes_dirs_ret) auto
  then show ?thesis
    using False D link [of "FSymlink (te_Linkname e) ?t"] link [of "FLink (Join [dst, Clean (te_Linkname e)]) ?t"]
    by (cases "te_Type e") (auto simp: extract_entry_def [abs_def] Let_def intro!: makes_dirs_do)
qed

lemma extractTarGz_dirs:
  assumes "clean_abs dst"
  shows "makes_dirs (root_dir dst) (extractTarGz (disk_host out junk web wk base) tarball dst)"
proof -
  let ?H = "disk_host out junk web wk base"
  have all: "makes_dirs (root_dir dst) (extract_entries ?H dst es final)" for es final
  proof (induction es)
    case (Cons e es)
    have "extract_entries ?H dst (e # es) final = (\<lambda>d. andThen (extract_entry ?H dst e d) (extract_entries ?H dst es final))"
      by (rule ext) simp
    with makes_dirs_andThen [OF extract_entry_dirs [OF assms] Cons] show ?case by simp
  qed simp
  have "\<exists>r es final. extractTarGz ?H tarball dst d = (Some r, d) \<or> extractTarGz ?H tarball dst d = extract_entries ?H dst es final d"
    for d by (auto simp: extractTarGz_def split: sum.splits)
  then show ?thesis using all unfolding makes_dirs_def
    by (metis append_Nil2 list.distinct(1) list.set_cases snd_conv)
qed

text \<open>
  C25. The extraction of the Alpine archive stays inside its directory, a cleaned absolute path, by name:
  whatever the archive holds and whatever fails, every file that is created, written, linked or removed is
  below the directory (or is its own name), every directory that is made is the directory, below it, or its parent,
  and an entry whose cleaned name starts with \<open>..\<close> does nothing.
\<close>

theorem extract_confined:
  assumes "extractTarGz (disk_host out junk web wk base) tarball dst d = (r, d')" "clean_abs dst"
  shows "(\<exists>k. dk_log d' = dk_log d @ k \<and> (\<forall>a \<in> set k. \<forall>p. touched a p \<longrightarrow> within dst p) \<and>
       (\<forall>t m. FMkdirAll t m \<in> set k \<longrightarrow> within dst t \<or> t = Dir dst)) \<and>
     (\<forall>p. \<not> within dst p \<longrightarrow> dk_files d' p = dk_files d p) \<and>
     (\<forall>e x. HasPrefix (Clean (te_Name e)) ''..'' \<longrightarrow> extract_entry (disk_host out junk web wk base) dst e x = (None, x))"
proof -
  obtain k where k: "dk_log d' = dk_log d @ k" "\<forall>a \<in> set k. \<forall>p. touched a p \<longrightarrow> within dst p"
    "\<forall>p. \<not> within dst p \<longrightarrow> dk_files d' p = dk_files d p"
    using extractTarGz_only [OF assms(2), of out junk web wk base tarball, unfolded only_def, rule_format, of d] assms(1)
    by auto
  obtain l where "dk_log d' = dk_log d @ l" "\<forall>t m. FMkdirAll t m \<in> set l \<longrightarrow> root_dir dst t"
    using extractTarGz_dirs [OF assms(2), of out junk web wk base tarball, unfolded makes_dirs_def, rule_format, of d] assms(1)
    by auto
  with k show ?thesis by (auto simp: extract_entry_def Let_def root_dir_def)
qed

theorem extract_confined_witness:
  "dk_files (snd (extractTarGz (disk_host (\<lambda>l a. None) (\<lambda>l a p. None) broken_web (Inr ''/tmp/w'') plain_host)
     ''/tmp/w/alpine.tar.gz'' ''/tmp/w/root'' (empty_disk\<lparr>dk_files := [''/etc/passwd'' \<mapsto> Blob ''root'']\<rparr>))) ''/etc/passwd'' = Some (Blob ''root'')"
proof -
  let ?H = "disk_host (\<lambda>l a. None) (\<lambda>l a p. None) broken_web (Inr ''/tmp/w'') plain_host"
  let ?d = "empty_disk\<lparr>dk_files := [''/etc/passwd'' \<mapsto> Blob ''root'']\<rparr>"
  obtain r d' where x: "extractTarGz ?H ''/tmp/w/alpine.tar.gz'' ''/tmp/w/root'' ?d = (r, d')" by fastforce
  have "clean_abs ''/tmp/w/root''" by code_simp
  moreover have "\<not> within ''/tmp/w/root'' ''/etc/passwd''" by (simp add: within_def)
  ultimately have "dk_files d' ''/etc/passwd'' = dk_files ?d ''/etc/passwd''"
    using extract_confined [OF x] by blast
  then show ?thesis using x by simp
qed

text \<open>
  The guard looks at the name of an entry only: the target of a hard link is cleaned and joined without
  it, so an archive can pull a file from outside the directory into the image.
\<close>

lemma hardlink_reads_outside:
  "dk_files (snd (extract_entry (disk_host (\<lambda>l a. None) (\<lambda>l a p. None) broken_web (Inr ''/tmp/w'') plain_host) ''/tmp/w/root''
     \<lparr>te_Name = ''x'', te_Type = TypeLink, te_Mode = 420, te_Linkname = ''../../../etc/passwd'', te_Data = [], te_Err = None\<rparr> d))
     ''/tmp/w/root/x'' = dk_files d ''/etc/passwd''"
proof -
  have "Clean ''x'' = ''x''" "Join [''/tmp/w/root'', ''x''] = ''/tmp/w/root/x''"
    "Join [''/tmp/w/root'', Clean ''../../../etc/passwd''] = ''/etc/passwd''" by code_simp+
  then show ?thesis by (simp add: extract_entry_def disk_do_def Let_def)
qed

end
