(* ===== verification/Daemon.thy ===== *)
theory Daemon
  imports ProcessDriver ChProps DriverSum Rest BootProps
begin

text \<open>
  The daemon, \<open>cmd/vessel/main.go\<close>: the Manager with its two drivers, the handler that mounts the two
  REST interfaces, and the commands. The process driver and the Cloud Hypervisor driver live in the
  two halves of the world.
\<close>

section \<open>The Manager of the daemon\<close>

type_synonym 'g vessel = "ProcWorld \<times> 'g ChWorld"

text \<open>\<open>Sscanf(v, "%d", &n)\<close> with a 64-bit \<open>n\<close>: blanks, a sign, digits; on an error \<open>n\<close> is unchanged.\<close>

definition scan_d :: "string \<Rightarrow> int option" where
  "scan_d v =
     (let t = dropWhile (\<lambda>c. c = CHR '' '' \<or> c = CHR 0x09) v;
          neg = HasPrefix t ''-'';
          u = (if neg \<or> HasPrefix t ''+'' then drop 1 t else t);
          ds = takeWhile is_digit u;
          n = (if neg then - int (atou 0 ds) else int (atou 0 ds))
      in if ds = [] \<or> n < - (2 ^ 63) \<or> n \<ge> 2 ^ 63 then None else Some n)"

definition pool_size :: "(string \<Rightarrow> string) \<Rightarrow> int" where
  "pool_size env =
     (let v = env ''VESSEL_POOL''
      in if v \<noteq> [] then (case scan_d v of None \<Rightarrow> 2 | Some n \<Rightarrow> n) else 2)"

definition env_config :: "(string \<Rightarrow> string) \<Rightarrow> string \<Rightarrow> string \<Rightarrow> ChConfig" where
  "env_config env kern rootfs =
     \<lparr>BinaryPath = env ''VESSEL_CH_BINARY'',
      KernelPath = (if kern = [] then env ''VESSEL_KERNEL'' else kern),
      RootfsPath = (if rootfs = [] then env ''VESSEL_ROOTFS'' else rootfs),
      StateDir = [], Cmdline = [], BootWait = 0, PoolSize = pool_size env, RestoreMode = []\<rparr>"

text \<open>
  What the machine gives to the daemon: the environment, the process driver's system, the VMM's
  machine, the temporary directory, the random bytes for the two drivers and the initial state.
\<close>

record 'g site =
  si_env :: "string \<Rightarrow> string"
  si_os :: ProcOS
  si_machine :: "'g machine"
  si_tmp :: string
  si_rand :: "8 word list list \<times> 8 word list list"
  si_g :: 'g

definition site_cfg :: "'g site \<Rightarrow> string \<Rightarrow> string \<Rightarrow> ChConfig" where
  "site_cfg si kern rootfs = withDefaults (si_tmp si) (env_config (si_env si) kern rootfs)"

definition newManager :: "'g site \<Rightarrow> string \<Rightarrow> string \<Rightarrow> 'g vessel Manager \<times> 'g vessel" where
  "newManager si kern rootfs =
     (case ch_New (si_tmp si) (env_config (si_env si) kern rootfs) (si_machine si) (snd (si_rand si)) (si_g si) of
        (chDrv, cw) \<Rightarrow>
          (RegisterDriver (RegisterDriver NewManager (drv_fst (process_Driver (si_os si)))) (drv_snd chDrv),
           (NewProcWorld (fst (si_rand si)), cw)))"

definition warm :: "'g site \<Rightarrow> string \<Rightarrow> string \<Rightarrow> 'g vessel \<Rightarrow> 'g vessel" where
  "warm si kern rootfs w = (fst w, ch_Warm (si_machine si) (site_cfg si kern rootfs) (snd w))"

section \<open>The mounted handlers\<close>

text \<open>Two E2B handlers are made, one for each pattern: they do not share their templates and metadata.\<close>

record 'w Daemon =
  dm_mgr :: "'w Manager"
  dm_e2b :: Handler
  dm_e2b_sub :: Handler

definition httpHandler :: "'w Manager \<Rightarrow> string \<Rightarrow> 'w Daemon" where
  "httpHandler mgr defaultDriver =
     \<lparr>dm_mgr = mgr, dm_e2b = NewHandler defaultDriver, dm_e2b_sub = NewHandler defaultDriver\<rparr>"

text \<open>A request as it arrives: with the time, and the order in which a listing ranges over the table.\<close>

type_synonym arrival = "request \<times> int \<times> string list"

definition serve_request :: "decoders \<Rightarrow> arrival \<Rightarrow> 'w Daemon \<Rightarrow> 'w \<Rightarrow> response option \<times> 'w Daemon \<times> 'w" where
  "serve_request dc x d w =
     (case x of (r, now, ks) \<Rightarrow>
        if hi_Path r = [''sandboxes''] then
          (case e2b_ServeHTTP dc ks now r (dm_e2b d) (dm_mgr d) w of
             (rw, h, m, w') \<Rightarrow> (rw, d\<lparr>dm_mgr := m, dm_e2b := h\<rparr>, w'))
        else if hi_Path r \<noteq> [] \<and> hd (hi_Path r) = ''sandboxes'' then
          (case e2b_ServeHTTP dc ks now r (dm_e2b_sub d) (dm_mgr d) w of
             (rw, h, m, w') \<Rightarrow> (rw, d\<lparr>dm_mgr := m, dm_e2b_sub := h\<rparr>, w'))
        else (case api_ServeHTTP dc ks r (dm_mgr d) w of (rw, m, w') \<Rightarrow> (rw, d\<lparr>dm_mgr := m\<rparr>, w')))"

fun serve_all :: "decoders \<Rightarrow> arrival list \<Rightarrow> 'w Daemon \<Rightarrow> 'w \<Rightarrow> 'w Daemon \<times> 'w" where
  "serve_all dc [] d w = (d, w)"
| "serve_all dc (x # xs) d w = (case serve_request dc x d w of (_, d', w') \<Rightarrow> serve_all dc xs d' w')"

section \<open>Commands\<close>

text \<open>
  \<open>serveHTTP\<close> ends when \<open>ListenAndServe\<close> returns (with an error, or because the server was closed) or
  with a signal. After a signal the sandboxes are stopped first and the server after them, so requests
  may still come in between.
\<close>

datatype ending = ListenErr err | ServerClosed | Interrupted

definition serveHTTP ::
  "decoders \<Rightarrow> arrival list \<Rightarrow> ending \<Rightarrow> arrival list \<Rightarrow> string list \<Rightarrow> string list \<Rightarrow> 'w Daemon \<Rightarrow> 'w \<Rightarrow>
   int res \<times> 'w Daemon \<times> 'w" where
  "serveHTTP dc before fin late iks dks d w =
     (case serve_all dc before d w of (d1, w1) \<Rightarrow>
        (case fin of
           ListenErr e \<Rightarrow> (Ok 1, d1, w1)
         | ServerClosed \<Rightarrow> (Ok 0, d1, w1)
         | Interrupted \<Rightarrow>
             (case mgr_Shutdown (dm_mgr d1) iks dks w1 of
                (Panic, m, w2) \<Rightarrow> (Panic, d1\<lparr>dm_mgr := m\<rparr>, w2)
              | (_, m, w2) \<Rightarrow> (case serve_all dc late (d1\<lparr>dm_mgr := m\<rparr>) w2 of (d3, w3) \<Rightarrow> (Ok 0, d3, w3)))))"

text \<open>\<open>vessel serve\<close>: a new Manager, a warm pool, the server.\<close>

definition serve_start :: "'g site \<Rightarrow> 'g vessel Daemon \<times> 'g vessel" where
  "serve_start si =
     (case newManager si [] [] of (m, w) \<Rightarrow> (httpHandler m ''cloudhypervisor'', warm si [] [] w))"

definition cmdServe ::
  "'g site \<Rightarrow> decoders \<Rightarrow> arrival list \<Rightarrow> ending \<Rightarrow> arrival list \<Rightarrow> string list \<Rightarrow> string list \<Rightarrow>
   int res \<times> 'g vessel Daemon \<times> 'g vessel" where
  "cmdServe si dc before fin late iks dks =
     (case serve_start si of (d, w) \<Rightarrow> serveHTTP dc before fin late iks dks d w)"

text \<open>\<open>vessel up\<close>: the same after the bootstrap, whose assets fill in what the environment leaves open.\<close>

definition up_site :: "'g site \<Rightarrow> Assets \<Rightarrow> 'g site" where
  "up_site si a =
     (if as_KVM a \<and> si_env si ''VESSEL_CH_BINARY'' = [] then
        si\<lparr>si_env := (si_env si)(''VESSEL_CH_BINARY'' := as_CHBinary a)\<rparr> else si)"

definition up_start :: "'g site \<Rightarrow> Assets \<Rightarrow> 'g vessel Daemon \<times> 'g vessel" where
  "up_start si a =
     (let kern = (if as_KVM a then as_KernelPath a else []); rootfs = (if as_KVM a then as_RootfsPath a else []);
          driver = (if as_KVM a then ''cloudhypervisor'' else ''process'')
      in case newManager (up_site si a) kern rootfs of
           (m, w) \<Rightarrow> (httpHandler m driver, if as_KVM a then warm (up_site si a) kern rootfs w else w))"

definition cmdUp ::
  "'h host \<Rightarrow> 'h \<Rightarrow> 'g site \<Rightarrow> decoders \<Rightarrow> arrival list \<Rightarrow> ending \<Rightarrow> arrival list \<Rightarrow> string list \<Rightarrow> string list \<Rightarrow>
   int res \<times> ('g vessel Daemon \<times> 'g vessel) option \<times> 'h" where
  "cmdUp H h si dc before fin late iks dks =
     (case Up H h of
        (Inl e, h') \<Rightarrow> (Ok 1, None, h')
      | (Inr a, h') \<Rightarrow>
          (case up_start si a of (d, w) \<Rightarrow>
             (case serveHTTP dc before fin late iks dks d w of (c, d', w') \<Rightarrow> (c, Some (d', w'), h'))))"

text \<open>\<open>vessel run\<close>, with its flags parsed; the deferred \<open>Stop\<close> also runs when \<open>Exec\<close> panics.\<close>

definition cmdRun ::
  "'w Manager \<Rightarrow> string \<Rightarrow> string \<Rightarrow> string list \<Rightarrow> 'w \<Rightarrow> int res \<times> string \<times> string \<times> 'w Manager \<times> 'w" where
  "cmdRun m driver rootfs cmd w =
     (if cmd = [] then (Ok 2, [], [], m, w)
      else case mgr_Create m driver (Some (zero_Spec\<lparr>spec_Rootfs := rootfs, spec_Cmd := cmd\<rparr>)) w of
             (Err e, m1, w1) \<Rightarrow> (Ok 1, [], [], m1, w1)
           | (Panic, m1, w1) \<Rightarrow> (Panic, [], [], m1, w1)
           | (Ok i, m1, w1) \<Rightarrow>
               (case inst_Exec i cmd w1 of
                  (r, out, errout, w2) \<Rightarrow>
                    (case inst_Stop i w2 of
                       (Panic, w3) \<Rightarrow> (Panic, out, errout, m1, w3)
                     | (_, w3) \<Rightarrow> ((case r of Ok c \<Rightarrow> Ok c | Err e \<Rightarrow> Ok 1 | Panic \<Rightarrow> Panic), out, errout, m1, w3))))"

text \<open>Where the guest agent listens (\<open>vessel agent\<close> and \<open>vessel-agent\<close>), and its search path.\<close>

datatype agent_addr = ListenVsock nat | ListenUnix string | ListenBad err

definition agent_addr_of :: "string \<Rightarrow> agent_addr" where
  "agent_addr_of listen =
     (if listen = [] then ListenVsock 5000
      else if HasPrefix listen ''unix://'' then ListenUnix (TrimPrefix listen ''unix://'')
      else ListenBad (New ''bad -listen %q (want unix://... or empty)'' [listen]))"

definition agent_path :: "string \<Rightarrow> string" where
  "agent_path p = (if p = [] then ''/usr/local/sbin:/usr/local/bin:/usr/sbin:/usr/bin:/sbin:/bin'' else p)"

text \<open>
  \<open>cmdAgent\<close>: \<open>listen\<close> opens the listener (after the removal of a stale socket file), \<open>serve\<close> is \<open>Serve\<close>
  of the agent's server on it.
\<close>

definition cmdAgent ::
  "(agent_addr \<Rightarrow> 'g \<Rightarrow> err option \<times> 'g) \<Rightarrow> (string \<Rightarrow> 'g \<Rightarrow> 'g) \<Rightarrow> ('g \<Rightarrow> err option \<times> 'g) \<Rightarrow> string \<Rightarrow> 'g \<Rightarrow> int \<times> 'g" where
  "cmdAgent open_at remove serve listen g =
     (case agent_addr_of listen of
        ListenBad e \<Rightarrow> (1, g)
      | a \<Rightarrow>
          (case open_at a (case a of ListenUnix p \<Rightarrow> remove p g | _ \<Rightarrow> g) of
             (Some e, g1) \<Rightarrow> (1, g1)
           | (None, g1) \<Rightarrow> (case serve g1 of (Some e, g2) \<Rightarrow> (1, g2) | (None, g2) \<Rightarrow> (0, g2))))"

text \<open>The stand-alone guest agent repeats \<open>cmdAgent\<close>; it exits with 1 on the same errors.\<close>

definition vessel_agent ::
  "(agent_addr \<Rightarrow> 'g \<Rightarrow> err option \<times> 'g) \<Rightarrow> (string \<Rightarrow> 'g \<Rightarrow> 'g) \<Rightarrow> ('g \<Rightarrow> err option \<times> 'g) \<Rightarrow> string \<Rightarrow> 'g \<Rightarrow> int \<times> 'g" where
  "vessel_agent open_at remove serve listen g = cmdAgent open_at remove serve listen g"

section \<open>The command line\<close>

text \<open>
  \<open>main\<close>. What the \<open>flag\<close> package makes of a command's arguments is a parameter: \<open>None\<close> when it ends the
  process itself, with status 2 (\<open>flag.ExitOnError\<close>). The result is the exit code, what is printed to
  standard output by \<open>run\<close> and \<open>info\<close>, and the world of the sandboxes if a Manager was made.
\<close>

record vessel_flags =
  fl_up :: "string list \<Rightarrow> string option"
  fl_run :: "string list \<Rightarrow> (string \<times> string \<times> string list) option"
  fl_serve :: "string list \<Rightarrow> string option"
  fl_agent :: "string list \<Rightarrow> string option"

record serving =
  sv_decoders :: decoders
  sv_before :: "arrival list"
  sv_end :: ending
  sv_late :: "arrival list"
  sv_iks :: "string list"
  sv_dks :: "string list"

definition cmdInfo :: "'w Manager \<Rightarrow> string list \<Rightarrow> string list" where
  "cmdInfo m ks = Drivers m ks"

definition vessel_main ::
  "vessel_flags \<Rightarrow> 'h host \<Rightarrow> 'h \<Rightarrow> 'g site \<Rightarrow> serving \<Rightarrow> (string \<Rightarrow> int) \<Rightarrow> string list \<Rightarrow> int res \<times> string list \<times> 'g vessel option"
where
  "vessel_main F H h si sv agent args =
     (case args of
        [] \<Rightarrow> (Ok 2, [], None)
      | [prog] \<Rightarrow> (Ok 2, [], None)
      | prog # sub # rest \<Rightarrow>
          if sub = ''up'' then
            (case fl_up F rest of
               None \<Rightarrow> (Ok 2, [], None)
             | Some addr \<Rightarrow>
                 (case cmdUp H h si (sv_decoders sv) (sv_before sv) (sv_end sv) (sv_late sv) (sv_iks sv) (sv_dks sv) of
                    (c, d, h') \<Rightarrow> (c, [], map_option snd d)))
          else if sub = ''run'' then
            (case newManager si [] [] of
               (m, w) \<Rightarrow>
                 (case fl_run F rest of
                    None \<Rightarrow> (Ok 2, [], Some w)
                  | Some (driver, rootfs, cmd) \<Rightarrow>
                      (case cmdRun m driver rootfs cmd w of (c, out, errout, m', w') \<Rightarrow> (c, [out], Some w'))))
          else if sub = ''serve'' then
            (case fl_serve F rest of
               None \<Rightarrow> (Ok 2, [], Some (snd (serve_start si)))
             | Some addr \<Rightarrow>
                 (case cmdServe si (sv_decoders sv) (sv_before sv) (sv_end sv) (sv_late sv) (sv_iks sv) (sv_dks sv) of
                    (c, d, w) \<Rightarrow> (c, [], Some w)))
          else if sub = ''agent'' then
            (case fl_agent F rest of None \<Rightarrow> (Ok 2, [], None) | Some listen \<Rightarrow> (Ok (agent listen), [], None))
          else if sub = ''info'' then
            (case newManager si [] [] of (m, w) \<Rightarrow> (Ok 0, cmdInfo m (sv_dks sv), Some w))
          else (Ok 2, [], None))"

end
