(* ===== verification/DaemonProps.thy ===== *)
theory DaemonProps
  imports Daemon
begin

text \<open>
  Properties of the daemon: whatever requests come in, the sandboxes of both drivers are under the
  Manager's control, and \<open>serveHTTP\<close> stops them all; and the ways in which the code around it still
  loses a VMM or misleads a client.
\<close>

section \<open>Requests refine operations of the Manager\<close>

definition request_act :: "decoders \<Rightarrow> arrival \<Rightarrow> 'w Daemon \<Rightarrow> act option" where
  "request_act dc x d =
     (case x of (r, now, ks) \<Rightarrow>
        if hi_Path r = [''sandboxes''] then e2b_act dc (dm_e2b d) r
        else if hi_Path r \<noteq> [] \<and> hd (hi_Path r) = ''sandboxes'' then e2b_act dc (dm_e2b_sub d) r
        else api_act dc r)"

lemma serve_request_act:
  assumes "serve_request dc x d w = (rw, d', w')"
  shows "(dm_mgr d', w') = act_run (request_act dc x d) (dm_mgr d) w \<and>
     drivers (dm_mgr d') = drivers (dm_mgr d) \<and>
     eh_templates (dm_e2b d') = eh_templates (dm_e2b d) \<and> eh_templates (dm_e2b_sub d') = eh_templates (dm_e2b_sub d)"
proof -
  obtain r now ks where x: "x = (r, now, ks)" by (metis prod_cases3)
  have "(dm_mgr d', w') = act_run (request_act dc x d) (dm_mgr d) w \<and>
     eh_templates (dm_e2b d') = eh_templates (dm_e2b d) \<and> eh_templates (dm_e2b_sub d') = eh_templates (dm_e2b_sub d)"
    using assms e2b_refines [of dc ks now r "dm_e2b d" "dm_mgr d" w] e2b_refines [of dc ks now r "dm_e2b_sub d" "dm_mgr d" w]
      api_refines [of dc ks r "dm_mgr d" w]
    by (auto simp: x serve_request_def request_act_def split: if_splits prod.splits)
  then show ?thesis using act_run_drivers [of "request_act dc x d" "dm_mgr d" w "dm_mgr d'" w'] by simp
qed

text \<open>
  C13. Each request to the daemon - native or E2B - changes the Manager and the world as at most one
  operation of the Manager (or one \<open>Exec\<close> or \<open>Stop\<close> of a sandbox it tracks) does, the one its method, path
  and body name; and no request registers a driver or a template.
\<close>

theorem daemon_refines:
  assumes "serve_request dc x d w = (rw, d', w')"
  shows "(dm_mgr d', w') = act_run (request_act dc x d) (dm_mgr d) w \<and>
     drivers (dm_mgr d') = drivers (dm_mgr d) \<and>
     eh_templates (dm_e2b d') = eh_templates (dm_e2b d) \<and> eh_templates (dm_e2b_sub d') = eh_templates (dm_e2b_sub d)"
  by (rule serve_request_act [OF assms])

section \<open>Nothing leaks\<close>

definition vessel_ok :: "'g site \<Rightarrow> string \<Rightarrow> string \<Rightarrow> 'g vessel Manager \<Rightarrow> 'g vessel \<Rightarrow> bool" where
  "vessel_ok si kern rootfs =
     mgr_ok (both_D (\<lambda>d. \<exists>os. d = process_Driver os) (is_ch (si_machine si) (site_cfg si kern rootfs)))
       (both_wf proc_ok (ch_inv {})) (both_live proc_live ch_live) (both_handle proc_handle (ch_handle (si_machine si)))"

interpretation vessel: two_drivers
  "\<lambda>d. \<exists>os. d = process_Driver os" proc_ok proc_live proc_handle "is_ch M cfg" "ch_inv {}" ch_live "ch_handle M"
  for M :: "'g machine" and cfg :: ChConfig
  by unfold_locales

interpretation vessel_owned: two_owned
  "\<lambda>d. \<exists>os. d = process_Driver os" proc_ok proc_live proc_handle "is_ch M cfg" "ch_inv {}" ch_live "ch_handle M"
  for M :: "'g machine" and cfg :: ChConfig
  by unfold_locales

text \<open>The identifiers of the sandboxes that the requests make do not collide.\<close>

fun serve_fresh :: "decoders \<Rightarrow> arrival list \<Rightarrow> 'w Daemon \<Rightarrow> 'w \<Rightarrow> bool" where
  "serve_fresh dc [] d w = True"
| "serve_fresh dc (x # xs) d w =
     (act_fresh (request_act dc x d) (dm_mgr d) w \<and>
      (case serve_request dc x d w of (_, d', w') \<Rightarrow> serve_fresh dc xs d' w'))"

lemma serve_all_ok:
  "vessel_ok si kern rootfs (dm_mgr d) w \<Longrightarrow> serve_fresh dc xs d w \<Longrightarrow> serve_all dc xs d w = (d', w') \<Longrightarrow>
   vessel_ok si kern rootfs (dm_mgr d') w' \<and> drivers (dm_mgr d') = drivers (dm_mgr d)"
proof (induction xs arbitrary: d w)
  case (Cons x xs)
  obtain rw d1 w1 where x: "serve_request dc x d w = (rw, d1, w1)" by (metis prod_cases3)
  note ref = serve_request_act [OF x]
  have "vessel_ok si kern rootfs (dm_mgr d1) w1"
    unfolding vessel_ok_def
  proof (rule vessel.both.ok_act [OF Cons.prems(1) [unfolded vessel_ok_def]])
    show "act_fresh (request_act dc x d) (dm_mgr d) w" using Cons.prems(2) by simp
    show "act_run (request_act dc x d) (dm_mgr d) w = (dm_mgr d1, w1)" using ref by simp
  qed
  with Cons.IH [of d1 w1] Cons.prems x ref show ?case by auto
qed simp

lemma newManager_ok:
  assumes "newManager si kern rootfs = (m, w)" "sane (si_machine si) (site_cfg si kern rootfs)"
  shows "vessel_ok si kern rootfs m w" "vessel_ok si kern rootfs m (warm si kern rootfs w)"
    "drivers m = [''process'' \<mapsto> drv_fst (process_Driver (si_os si)),
       ''cloudhypervisor'' \<mapsto> drv_snd (ch_Driver (si_machine si) (site_cfg si kern rootfs))]"
proof -
  let ?M = "si_machine si" and ?cfg = "site_cfg si kern rootfs"
  obtain d cw where new: "ch_New (si_tmp si) (env_config (si_env si) kern rootfs) ?M (snd (si_rand si)) (si_g si) = (d, cw)"
    by fastforce
  then have d: "d = ch_Driver ?M ?cfg" by (auto simp: ch_New_def site_cfg_def Let_def)
  have m: "m = RegisterDriver (RegisterDriver NewManager (drv_fst (process_Driver (si_os si)))) (drv_snd d)"
    and w: "w = (NewProcWorld (fst (si_rand si)), cw)"
    using assms(1) new by (simp_all add: newManager_def)
  show drv: "drivers m = [''process'' \<mapsto> drv_fst (process_Driver (si_os si)), ''cloudhypervisor'' \<mapsto> drv_snd (ch_Driver ?M ?cfg)]"
    by (simp add: m d RegisterDriver_def NewManager_def drv_fst_def drv_snd_def)
  have inst: "instances m = Map.empty" by (simp add: m RegisterDriver_def NewManager_def)
  have cw: "ch_inv {} cw" "ch_live cw = {}"
    using ch_New_inv [of "si_tmp si" "env_config (si_env si) kern rootfs" ?M "snd (si_rand si)" "si_g si"] new by simp_all
  have proc: "proc_ok (fst w)" "proc_live (fst w) = {}"
    by (simp_all add: w NewProcWorld_def proc_ok_def proc_live_def)
  have both: "both_D (\<lambda>d. \<exists>os. d = process_Driver os) (is_ch ?M ?cfg) x" if "drivers m n = Some x" for n x
    using that assms(2) by (auto simp: drv both_D_def is_ch_def split: if_splits)
  have ok: "vessel_ok si kern rootfs m v" if "ch_inv {} (snd v)" "ch_live (snd v) = {}" "fst v = fst w" for v
    using that proc inst both by (auto simp: vessel_ok_def mgr_ok_def both_wf_def both_live_def)
  show "vessel_ok si kern rootfs m w" using cw by (intro ok) (simp_all add: w)
  have "ch_inv {} (ch_Warm ?M ?cfg cw) \<and> same_cells cw (ch_Warm ?M ?cfg cw)"
    using drv_kick_inv [OF cw(1)] by (simp add: ch_Warm_def)
  then show "vessel_ok si kern rootfs m (warm si kern rootfs w)"
    using cw(2) same_cells_live [of cw "ch_Warm ?M ?cfg cw"] by (intro ok) (simp_all add: warm_def w)
qed

text \<open>After a shutdown nothing is live, and the pool is empty: no VMM process is left.\<close>

lemma two_order:
  assumes "distinct ks" "set ks = {a, b}" "a \<noteq> b"
  shows "ks = [a, b] \<or> ks = [b, a]"
proof -
  have "length ks = 2" using assms distinct_card [of ks] by simp
  then obtain x y where "ks = [x, y]" by (auto simp: numeral_2_eq_2 length_Suc_conv)
  with assms show ?thesis by (auto simp: doubleton_eq_iff)
qed

lemma close_all_idle:
  assumes "drivers m = [''process'' \<mapsto> drv_fst (process_Driver os), ''cloudhypervisor'' \<mapsto> drv_snd (ch_Driver M cfg)]"
    and "range_order (drivers m) dks"
  shows "idle (cw_pool (snd (close_all (range_vals (drivers m) dks) w))) = []"
proof -
  have "distinct dks" "set dks = {''process'', ''cloudhypervisor''}"
    using assms by (auto simp: range_order_def)
  then consider "dks = [''process'', ''cloudhypervisor'']" | "dks = [''cloudhypervisor'', ''process'']"
    using two_order [of dks "''process''" "''cloudhypervisor''"] by auto
  then show ?thesis
    by cases (simp_all add: assms(1) drv_fst_def drv_snd_def ch_Close_idle)
qed

lemma both_shutdown:
  assumes ok: "mgr_ok (both_D (\<lambda>d. \<exists>os. d = process_Driver os) (is_ch M cfg)) (both_wf proc_ok (ch_inv {}))
      (both_live proc_live ch_live) (both_handle proc_handle (ch_handle M)) m w"
    and drv: "drivers m = [''process'' \<mapsto> drv_fst (process_Driver os), ''cloudhypervisor'' \<mapsto> drv_snd (ch_Driver M cfg)]"
    and "range_order (instances m) iks" "range_order (drivers m) dks"
    and s: "mgr_Shutdown m iks dks w = (r, m', w')"
  shows "r = Ok () \<and> cw_procs (snd w') = {} \<and> proc_live (fst w') = {} \<and> instances m' = Map.empty \<and>
    mgr_ok (both_D (\<lambda>d. \<exists>os. d = process_Driver os) (is_ch M cfg)) (both_wf proc_ok (ch_inv {}))
      (both_live proc_live ch_live) (both_handle proc_handle (ch_handle M)) m' w'"
proof -
  note shut = vessel.both.shutdown_live [OF ok assms(3-5)]
  have live: "proc_live (fst w') = {}" "ch_live (snd w') = {}" using shut by (auto simp: both_live_def)
  have "ch_inv {} (snd w')" using shut by (auto simp: mgr_ok_def both_wf_def)
  moreover have "\<exists>v. w' = close_all (range_vals (drivers m) dks) v"
    using s shut by (auto simp: mgr_Shutdown_def Let_def split: prod.splits res.splits)
  then have "idle (cw_pool (snd w')) = []" using close_all_idle [OF drv assms(4)] by auto
  ultimately have "cw_procs (snd w') = {}" using no_procs live(2) by blast
  with shut live show ?thesis by simp
qed

lemma vessel_shutdown:
  assumes "vessel_ok si kern rootfs m w"
    and "drivers m = [''process'' \<mapsto> drv_fst (process_Driver os),
       ''cloudhypervisor'' \<mapsto> drv_snd (ch_Driver (si_machine si) (site_cfg si kern rootfs))]"
    and "range_order (instances m) iks" "range_order (drivers m) dks"
    and "mgr_Shutdown m iks dks w = (r, m', w')"
  shows "r = Ok () \<and> cw_procs (snd w') = {} \<and> proc_live (fst w') = {} \<and> instances m' = Map.empty \<and>
    vessel_ok si kern rootfs m' w'"
  using both_shutdown [OF assms(1) [unfolded vessel_ok_def] assms(2-5)] by (simp add: vessel_ok_def)

text \<open>
  C1. The daemon leaves nothing behind that it does not track: whatever requests \<open>vessel serve\<close> has
  answered on its two interfaces - creates, restores, forks, snapshots, commands, deletes and kills, one
  after the other, on both drivers, over a pool that refills itself, whatever the VMMs, guests, networks
  and disks answer - a signal makes it stop every sandbox, and right after the shutdown of the Manager no
  VMM process is left, of a sandbox, a failed attempt or the pool. It returns 0. Requests \<open>late\<close> that are
  still served before the server itself is shut down can make new sandboxes: these are all tracked, and
  every VMM process there is belongs to the pool or to a sandbox. Without such requests nothing is left.
\<close>

theorem daemon_no_leak:
  assumes "sane (si_machine si) (site_cfg si [] [])" "serve_start si = (d0, w0)"
    and "serve_fresh dc reqs d0 w0" "serve_all dc reqs d0 w0 = (d1, w1)"
    and "range_order (instances (dm_mgr d1)) iks" "range_order (drivers (dm_mgr d1)) dks"
    and "mgr_Shutdown (dm_mgr d1) iks dks w1 = (q, m, w2)" "serve_fresh dc late (d1\<lparr>dm_mgr := m\<rparr>) w2"
    and "cmdServe si dc reqs Interrupted late iks dks = (r, d, w)"
  shows "r = Ok 0 \<and> cw_procs (snd w2) = {} \<and> proc_live (fst w2) = {} \<and> instances m = Map.empty \<and>
     both_live proc_live ch_live w \<subseteq> (\<lambda>e. inst_ref (entry_inst e)) ` ran (instances (dm_mgr d)) \<and>
     cw_procs (snd w) \<subseteq> idle_pids (snd w) \<union> cell_pids (snd w) \<and>
     (late = [] \<longrightarrow> cw_procs (snd w) = {} \<and> proc_live (fst w) = {} \<and> instances (dm_mgr d) = Map.empty)"
proof -
  obtain m0 v where new: "newManager si [] [] = (m0, v)" by (cases "newManager si [] []")
  have d0: "dm_mgr d0 = m0" "w0 = warm si [] [] v"
    using assms(2) new by (auto simp: serve_start_def httpHandler_def)
  note start = newManager_ok [OF new assms(1)]
  have all: "vessel_ok si [] [] (dm_mgr d1) w1 \<and> drivers (dm_mgr d1) = drivers m0"
    using serve_all_ok [OF _ assms(3,4), of si "[]" "[]"] start(2) d0 by auto
  have post: "q = Ok () \<and> cw_procs (snd w2) = {} \<and> proc_live (fst w2) = {} \<and> instances m = Map.empty \<and>
      vessel_ok si [] [] m w2"
    using vessel_shutdown [OF conjunct1 [OF all] _ assms(5-7), of "si_os si"] all start(3) by simp
  obtain d3 w3 where l: "serve_all dc late (d1\<lparr>dm_mgr := m\<rparr>) w2 = (d3, w3)"
    by (cases "serve_all dc late (d1\<lparr>dm_mgr := m\<rparr>) w2")
  have r: "r = Ok 0" "d = d3" "w = w3"
    using assms(2,4,7,9) post l by (simp_all add: cmdServe_def serveHTTP_def)
  have "vessel_ok si [] [] (dm_mgr d) w"
    using serve_all_ok [OF _ assms(8) l, of si "[]" "[]"] post r by simp
  then have "both_live proc_live ch_live w \<subseteq> (\<lambda>e. inst_ref (entry_inst e)) ` ran (instances (dm_mgr d))"
    and "ch_inv {} (snd w)"
    by (simp_all add: vessel_ok_def mgr_ok_def both_wf_def)
  moreover from this(2) have "cw_procs (snd w) \<subseteq> idle_pids (snd w) \<union> cell_pids (snd w)"
    by (auto simp: ch_inv_def owned_def)
  ultimately show ?thesis using r l post by auto
qed

section \<open>What the shutdown misses\<close>

lemma api_create_live:
  assumes ok: "vessel_ok si kern rootfs (dm_mgr d) w"
    and r: "serve_request dc (\<lparr>hi_Method = ''POST'', hi_Path = [''v1'', ''sandboxes''], hi_Body = b\<rparr>, now, ks) d w = (Some rw, d', w')"
    and st: "rw_status rw = Some 200"
  shows "both_live proc_live ch_live w' \<noteq> {}"
proof -
  obtain q i where q: "dc_create dc b = Inr q" and
    c: "mgr_Create (dm_mgr d) (if cr_Driver q = [] then ''process'' else cr_Driver q) (cr_Spec q) w = (Ok i, dm_mgr d', w')"
    using r st
    by (auto simp: serve_request_def api_ServeHTTP_def api_patterns_def method_ok_def api_create_def inst_answer_def
        http_Error_def http_Write_def WriteHeader_def set_header_def new_writer_def Let_def
        split: sum.splits prod.splits res.splits)
  then obtain x where x: "drivers (dm_mgr d) (if cr_Driver q = [] then ''process'' else cr_Driver q) = Some x"
    "drv_Create x (cr_Spec q) w = (Ok i, w')"
    by (auto simp: mgr_Create_def split: option.splits prod.splits res.splits)
  from vessel.both.create_ok [OF vessel.both.mgr_okD(2,1) [OF ok [unfolded vessel_ok_def]]] x
  show ?thesis by blast
qed

text \<open>
  The shutdown has a window: the Manager is shut down before the server, so a request that is served
  in between can still create a sandbox; \<open>vessel serve\<close> then returns 0 with that sandbox alive (and with
  the Cloud Hypervisor driver, its VMM process running) and nobody left to stop it.
\<close>

theorem shutdown_window_leaks:
  assumes "sane (si_machine si) (site_cfg si [] [])" "serve_start si = (d0, w0)"
    and "range_order (instances (dm_mgr d0)) iks" "range_order (drivers (dm_mgr d0)) dks"
    and "mgr_Shutdown (dm_mgr d0) iks dks w0 = (q, m, w1)"
    and "x = (\<lparr>hi_Method = ''POST'', hi_Path = [''v1'', ''sandboxes''], hi_Body = b\<rparr>, now, ks)"
    and "serve_request dc x (d0\<lparr>dm_mgr := m\<rparr>) w1 = (Some rw, d, w)" "rw_status rw = Some 200"
  shows "cmdServe si dc [] Interrupted [x] iks dks = (Ok 0, d, w) \<and>
     (proc_live (fst w) \<noteq> {} \<or> cw_procs (snd w) \<noteq> {})"
proof -
  obtain m0 v where new: "newManager si [] [] = (m0, v)" by (cases "newManager si [] []")
  have d0: "dm_mgr d0 = m0" "w0 = warm si [] [] v"
    using assms(2) new by (auto simp: serve_start_def httpHandler_def)
  note start = newManager_ok [OF new assms(1)]
  have ok0: "vessel_ok si [] [] (dm_mgr d0) w0" using start(2) d0 by simp
  note shut = vessel_shutdown [OF ok0 _ assms(3-5), of "si_os si"]
  then have "q = Ok ()" and ok: "vessel_ok si [] [] (dm_mgr (d0\<lparr>dm_mgr := m\<rparr>)) w1" using start(3) d0 by simp_all
  then have "cmdServe si dc [] Interrupted [x] iks dks = (Ok 0, d, w)"
    using assms(2,5,7) by (simp add: cmdServe_def serveHTTP_def)
  moreover have "both_live proc_live ch_live w \<noteq> {}"
    using api_create_live [OF ok assms(7) [unfolded assms(6)] assms(8)] .
  then have "proc_live (fst w) \<noteq> {} \<or> cw_procs (snd w) \<noteq> {}"
    by (auto simp: both_live_def ch_live_def)
  ultimately show ?thesis by simp
qed

text \<open>A site where everything works, and bodies that ask for a process sandbox.\<close>

definition happy_site :: "nat site" where
  "happy_site = \<lparr>si_env = (\<lambda>v. []), si_os = quiet_os, si_machine = happy, si_tmp = ''/tmp'',
     si_rand = ([[1, 2, 3, 4, 5, 6]], [[7, 8, 9, 10, 11, 12]]), si_g = 0\<rparr>"

definition process_bodies :: decoders where
  "process_bodies = \<lparr>dc_create = (\<lambda>b. Inr \<lparr>cr_Driver = ''process'', cr_Spec = Some zero_Spec\<rparr>),
     dc_exec = (\<lambda>b. Inl (Ext ''EOF'')), dc_snapshot = (\<lambda>b. Inl (Ext ''EOF'')), dc_restore = (\<lambda>b. Inl (Ext ''EOF'')),
     dc_new = (\<lambda>b. Inr \<lparr>ns_TemplateID = ''base'', ns_Timeout = 0, ns_Metadata = Map.empty, ns_EnvVars = Map.empty\<rparr>)\<rparr>"

definition create_request :: arrival where
  "create_request = (\<lparr>hi_Method = ''POST'', hi_Path = [''v1'', ''sandboxes''], hi_Body = []\<rparr>, 0, [])"

lemma happy_site_sane: "sane (si_machine happy_site) (site_cfg happy_site k r)"
  by (simp add: happy_site_def site_cfg_def env_config_def withDefaults_def happy_sane)

lemma happy_site_start:
  assumes "serve_start happy_site = (d0, w0)"
  shows "instances (dm_mgr d0) = Map.empty"
    "drivers (dm_mgr d0) = [''process'' \<mapsto> drv_fst (process_Driver quiet_os),
       ''cloudhypervisor'' \<mapsto> drv_snd (ch_Driver happy (site_cfg happy_site [] []))]"
    "pentropy (fst w0) = [[1, 2, 3, 4, 5, 6]]"
  using assms
  by (auto simp: serve_start_def newManager_def httpHandler_def ch_New_def Let_def RegisterDriver_def NewManager_def
      drv_fst_def drv_snd_def happy_site_def site_cfg_def warm_def NewProcWorld_def)

lemma create_process:
  assumes "drivers (dm_mgr d) ''process'' = Some (drv_fst (process_Driver os))"
  shows "\<exists>rw d' w'. serve_request process_bodies create_request d w = (Some rw, d', w') \<and> rw_status rw = Some 200 \<and>
    instances (dm_mgr d') = (instances (dm_mgr d))(NewID (fst (rand_Read (pentropy (fst w)))) \<mapsto>
      \<lparr>entry_inst = inst_at fst put_fst tag_fst (proc_instance os (pnext (fst w)) (NewID (fst (rand_Read (pentropy (fst w)))))),
       entry_driver = drv_fst (process_Driver os)\<rparr>)"
  using assms
  by (auto simp: serve_request_def create_request_def api_ServeHTTP_def api_patterns_def method_ok_def api_create_def
      process_bodies_def inst_answer_def mgr_Create_def track_def drv_fst_def made_at_def proc_Create_def writeJSON_def
      http_Write_def WriteHeader_def set_header_def new_writer_def Let_def split: prod.split)

theorem shutdown_window_leaks_witness:
  "\<exists>d w. cmdServe happy_site process_bodies [] Interrupted [create_request] [] [''process'', ''cloudhypervisor''] = (Ok 0, d, w) \<and>
     (proc_live (fst w) \<noteq> {} \<or> cw_procs (snd w) \<noteq> {})"
proof -
  obtain d0 w0 where st: "serve_start happy_site = (d0, w0)" by (cases "serve_start happy_site")
  note start = happy_site_start [OF st]
  obtain q m w1 where s: "mgr_Shutdown (dm_mgr d0) [] [''process'', ''cloudhypervisor''] w0 = (q, m, w1)" by (metis prod_cases3)
  then have "drivers m = drivers (dm_mgr d0)" by (auto simp: mgr_Shutdown_def Let_def split: prod.splits res.splits)
  then obtain rw d w where c: "serve_request process_bodies create_request (d0\<lparr>dm_mgr := m\<rparr>) w1 = (Some rw, d, w)"
    "rw_status rw = Some 200"
    using create_process [of "d0\<lparr>dm_mgr := m\<rparr>" quiet_os w1] start(2) by auto
  have "range_order (instances (dm_mgr d0)) []" "range_order (drivers (dm_mgr d0)) [''process'', ''cloudhypervisor'']"
    using start by (auto simp: range_order_def)
  from shutdown_window_leaks [OF happy_site_sane st this s create_request_def c] show ?thesis by blast
qed

text \<open>
  When the server cannot listen - its port is taken - \<open>vessel serve\<close> returns 1 at once: the pool that was
  warmed before is not closed, and its VMM processes are still there.
\<close>

theorem listen_error_keeps_pool:
  "cmdServe si dc [] (ListenErr e) late iks dks = (Ok 1, fst (serve_start si), snd (serve_start si)) \<and>
   cw_procs (snd (snd (serve_start happy_site))) = {0}"
proof -
  define C where "C = withDefaults ''/tmp'' (env_config (\<lambda>v. []) [] [])"
  have C: "BootWait C = 10000" "PoolSize C = 2"
    by (simp_all add: C_def withDefaults_def env_config_def pool_size_def)
  have "snd (snd (serve_start happy_site)) = drv_kick happy C \<lparr>cw_heap = Map.empty, cw_next = 0,
      cw_pool = newVMMPool 2, cw_procs = {}, cw_pid = 0, cw_entropy = [[7, 8, 9, 10, 11, 12]], cw_g = 0\<rparr>"
    by (simp add: serve_start_def newManager_def ch_New_def warm_def ch_Warm_def site_cfg_def happy_site_def Let_def
        C_def [symmetric] C)
  also have "cw_procs \<dots> = {0}"
    by (simp add: drv_kick_def kickRefill_def refill_more_def happy_spawn refill_put_def newVMMPool_def Let_def happy_sel C)
  finally have "cw_procs (snd (snd (serve_start happy_site))) = {0}" .
  then show ?thesis by (simp add: cmdServe_def serveHTTP_def split: prod.split)
qed

theorem daemon_no_leak_witness:
  "\<exists>d w. cmdServe happy_site process_bodies [create_request] Interrupted [] [''010203040506''] [''process'', ''cloudhypervisor''] =
     (Ok 0, d, w) \<and> cw_procs (snd w) = {} \<and> proc_live (fst w) = {}"
proof -
  obtain d0 w0 where st: "serve_start happy_site = (d0, w0)" by (cases "serve_start happy_site")
  note start = happy_site_start [OF st]
  obtain rw d1 w1 where c: "serve_request process_bodies create_request d0 w0 = (Some rw, d1, w1)"
    and inst: "\<exists>e. instances (dm_mgr d1) = [''010203040506'' \<mapsto> e]"
    using create_process [of d0 quiet_os w0] start(2) unfolding start(1,3) by (fastforce simp: example_ids)
  have drv: "drivers (dm_mgr d1) = drivers (dm_mgr d0)" using serve_request_act [OF c] by simp
  have fresh: "serve_fresh process_bodies [create_request] d0 w0"
    using start(1) c by (simp add: act_fresh_def split: option.split)
  obtain r d w where run: "cmdServe happy_site process_bodies [create_request] Interrupted [] [''010203040506'']
      [''process'', ''cloudhypervisor''] = (r, d, w)" by (metis prod_cases3)
  have "range_order (instances (dm_mgr d1)) [''010203040506'']" "range_order (drivers (dm_mgr d1)) [''process'', ''cloudhypervisor'']"
    using inst start(2) drv by (auto simp: range_order_def split: if_splits)
  note order = this
  have all: "serve_all process_bodies [create_request] d0 w0 = (d1, w1)" using c by simp
  obtain q m w2 where "mgr_Shutdown (dm_mgr d1) [''010203040506''] [''process'', ''cloudhypervisor''] w1 = (q, m, w2)"
    by (metis prod_cases3)
  from daemon_no_leak [OF happy_site_sane st fresh all order this _ run] run show ?thesis by simp
qed

section \<open>The command run\<close>

context sandbox_drivers
begin

text \<open>The only sandbox of a Manager, and a command in it that is followed by a stop.\<close>

lemma created_alone:
  assumes ok: "mgr_ok D wfw live handle m w" and empty: "instances m = Map.empty" and c: "mgr_Create m d spec w = (r, m1, w1)"
  shows "wfw w1 \<and> (case r of Ok i \<Rightarrow> handle w1 i \<and> live w1 \<subseteq> {inst_ref i} | _ \<Rightarrow> live w1 = {})"
proof -
  have created: "mgr_ok D wfw live handle m1 w1" by (rule ok_create [OF ok c]) (simp add: empty)
  have "instances m1 = (case r of Ok i \<Rightarrow> [inst_ID i \<mapsto> \<lparr>entry_inst = i, entry_driver = the (drivers m d)\<rparr>] | _ \<Rightarrow> Map.empty)"
    using c empty by (auto simp: mgr_Create_def track_def split: option.splits res.splits prod.splits)
  then show ?thesis using mgr_okD(1,3,6) [OF created] by (cases r) (fastforce split: if_splits)+
qed

lemma exec_then_stop:
  assumes "wfw w" "handle w i" "live w \<subseteq> {inst_ref i}" and x: "inst_Exec i cmd w = (q, out, errout, w1)" and s: "inst_Stop i w1 = (r, w2)"
  shows "wfw w2 \<and> live w2 = {} \<and> r \<noteq> Panic"
proof -
  note e = exec [OF assms(2,1) x]
  then have "handle w1 i" using assms(2) by (auto simp: le_fun_def)
  from stop [OF this conjunct1 [OF e] s] e assms(3) show ?thesis by auto
qed

end

text \<open>
  C15. \<open>vessel run\<close> cleans up after itself: whatever the driver, the command and the machine do, no sandbox
  is alive when it ends, and the only VMM processes left are idle ones that the pool made meanwhile; its
  exit code is that of the command, 1 when the sandbox or the command could not be started, 2 without a
  command, in which case nothing was done.
\<close>

theorem run_stops_sandbox:
  assumes "newManager si [] [] = (m, w)" "sane (si_machine si) (site_cfg si [] [])"
    and "cmdRun m driver rootfs cmd w = (code, out, errout, m', w')"
  shows "both_live proc_live ch_live w' = {} \<and> cw_procs (snd w') \<subseteq> idle_pids (snd w') \<and>
     (cmd = [] \<longrightarrow> code = Ok 2 \<and> w' = w) \<and>
     (cmd \<noteq> [] \<longrightarrow> (case mgr_Create m driver (Some (zero_Spec\<lparr>spec_Rootfs := rootfs, spec_Cmd := cmd\<rparr>)) w of
        (Ok i, m1, w1) \<Rightarrow> code = (case inst_Exec i cmd w1 of (Ok c, _) \<Rightarrow> Ok c | (Err e, _) \<Rightarrow> Ok 1 | (Panic, _) \<Rightarrow> Panic)
      | (Err e, _) \<Rightarrow> code = Ok 1
      | (Panic, _) \<Rightarrow> code = Panic))"
proof -
  let ?spec = "Some (zero_Spec\<lparr>spec_Rootfs := rootfs, spec_Cmd := cmd\<rparr>)"
  let ?live = "both_live proc_live ch_live"
  note ok = newManager_ok(1) [OF assms(1,2), unfolded vessel_ok_def]
  have empty: "instances m = Map.empty" using assms(1) by (auto simp: newManager_def RegisterDriver_def NewManager_def split: prod.splits)
  then have live: "?live w = {}" using vessel.both.mgr_okD(6) [OF ok] by auto
  have only: "cw_procs (snd v) \<subseteq> idle_pids (snd v)" if "both_wf proc_ok (ch_inv {}) v" "?live v = {}" for v
    using that idle_procs [of "snd v"] by (auto simp: both_wf_def both_live_def)
  obtain r m1 w1 where c: "mgr_Create m driver ?spec w = (r, m1, w1)" by (metis prod_cases3)
  note made = vessel.both.created_alone [OF ok empty c]
  show ?thesis
  proof (cases "cmd = []")
    case True
    then show ?thesis using assms(3) live only [OF vessel.both.mgr_okD(1) [OF ok] live] by (auto simp: cmdRun_def)
  next
    case run: False
    show ?thesis
    proof (cases r)
      case (Ok i)
      obtain q o1 e1 w2 where x: "inst_Exec i cmd w1 = (q, o1, e1, w2)" by (metis prod_cases4)
      obtain s w3 where s: "inst_Stop i w2 = (s, w3)" by (cases "inst_Stop i w2")
      have "both_wf proc_ok (ch_inv {}) w3 \<and> ?live w3 = {} \<and> s \<noteq> Panic"
        using vessel.both.exec_then_stop [where M = "si_machine si", OF _ _ _ x s] made Ok by simp
      moreover from this have "cw_procs (snd w3) \<subseteq> idle_pids (snd w3)" by (intro only) simp_all
      moreover have "w' = w3" "code = (case q of Ok c \<Rightarrow> Ok c | Err e \<Rightarrow> Ok 1 | Panic \<Rightarrow> Panic)"
        using assms(3) run c Ok x s calculation(1) by (auto simp: cmdRun_def split: res.splits)
      ultimately show ?thesis using run c Ok x by (simp split: res.split)
    qed (use assms(3) run c made only [of w1] in \<open>auto simp: cmdRun_def\<close>)
  qed
qed

theorem run_stops_sandbox_witness:
  "\<exists>m w code out errout m' w'. newManager happy_site [] [] = (m, w) \<and>
     cmdRun m ''process'' [] [''true''] w = (code, out, errout, m', w') \<and> both_live proc_live ch_live w' = {}"
proof -
  obtain m w where new: "newManager happy_site [] [] = (m, w)" by (cases "newManager happy_site [] []")
  obtain code out errout m' w' where run: "cmdRun m ''process'' [] [''true''] w = (code, out, errout, m', w')"
    by (metis prod_cases5)
  from run_stops_sandbox [OF new happy_site_sane run] new run show ?thesis by blast
qed

section \<open>What a client sees\<close>

lemma statuses [simp]:
  "rw_status (writeErr c e new_writer) = Some c" "rw_status (http_Error e c new_writer) = Some c"
  "rw_status (writeJSON v (WriteHeader c new_writer)) = Some c" "rw_status (WriteHeader c new_writer) = Some c"
  "rw_body (writeJSON v (WriteHeader c new_writer)) = [encoded v]"
  "rw_sent (writeJSON v (WriteHeader c new_writer)) = Map.empty"
  "rw_status (writeJSON v new_writer) = Some 200" "rw_status (api_healthz new_writer) = Some 200"
  by (simp_all add: api_healthz_def writeErr_def http_Error_def writeJSON_def http_Write_def WriteHeader_def set_header_def
      new_writer_def Let_def)

text \<open>What the handlers other than \<open>delete\<close> leave behind with an error answer.\<close>

definition kept :: "'w Manager \<Rightarrow> 'w \<Rightarrow> 'w handled \<Rightarrow> bool" where
  "kept m w h \<longleftrightarrow>
     (case h of (Some rw, m', w') \<Rightarrow>
        (\<exists>c. rw_status rw = Some c \<and> (c < 400 \<or> c = 500 \<and> m' = m \<or> c \<in> {400, 404} \<and> m' = m \<and> w' = w))
      | (None, _, _) \<Rightarrow> True)"

lemma kept_answer:
  assumes "case q of (Err e, m', w') \<Rightarrow> m' = m | _ \<Rightarrow> True"
  shows "kept m w (inst_answer q new_writer)"
  using assms by (simp add: kept_def inst_answer_def split: prod.splits res.splits)

lemma mgr_err_table:
  "case mgr_Create m d spec w of (Err e, m', w') \<Rightarrow> m' = m | _ \<Rightarrow> True"
  "case mgr_Fork m sid path w of (Err e, m', w') \<Rightarrow> m' = m | _ \<Rightarrow> True"
  "case mgr_RestoreFrom m d path opts w of (Err e, m', w') \<Rightarrow> m' = m | _ \<Rightarrow> True"
  by (auto simp: mgr_Create_def mgr_Fork_def mgr_RestoreFrom_def split: option.splits prod.splits res.splits)

lemma mux_code: "mux_route ps code meth path = NoHandler c \<Longrightarrow> c = code \<or> c = 405"
  by (induction ps code meth path rule: mux_route.induct) (auto split: option.splits if_splits)

lemma seg_match_3: "seg_match [Lit a, Lit b, Var] path = Some vs \<Longrightarrow> path = [a, b, hd vs]"
  by (cases path; cases "tl path"; cases "tl (tl path)"; cases "tl (tl (tl path))") (auto split: if_splits)

lemma kept_bad: "c \<in> {400, 404} \<Longrightarrow> kept m w (Some (http_Error e c new_writer), m, w)"
  by (auto simp: kept_def)

lemma api_kept:
  "kept m w (Some (api_healthz new_writer), m, w)"
  "kept m w (api_list ks new_writer m w)"
  "kept m w (api_create b1 new_writer m w)"
  "kept m w (api_exec sid b2 new_writer m w)"
  "kept m w (api_snapshot sid b3 new_writer m w)"
  "kept m w (api_fork sid b3 new_writer m w)"
  "kept m w (api_restore b4 new_writer m w)"
proof -
  show "kept m w (Some (api_healthz new_writer), m, w)" "kept m w (api_list ks new_writer m w)"
    by (simp_all add: kept_def api_list_def)
  show "kept m w (api_create b1 new_writer m w)"
    by (cases b1) (simp_all add: api_create_def kept_bad kept_answer mgr_err_table)
  show "kept m w (api_exec sid b2 new_writer m w)"
    by (simp add: kept_def api_exec_def split: option.splits sum.splits prod.splits res.splits)
  show "kept m w (api_snapshot sid b3 new_writer m w)"
    by (cases b3) (simp_all add: api_snapshot_def kept_bad, simp add: kept_def split: prod.split res.split)
  show "kept m w (api_fork sid b3 new_writer m w)"
    by (cases b3) (simp_all add: api_fork_def kept_bad kept_answer mgr_err_table)
  show "kept m w (api_restore b4 new_writer m w)"
    by (cases b4) (simp_all add: api_restore_def kept_bad kept_answer mgr_err_table)
qed


lemma serve_e2b:
  "serve_request dc (\<lparr>hi_Method = ''POST'', hi_Path = [''sandboxes''], hi_Body = b\<rparr>, now, ks) d w =
     (case e2b_create now (dc_new dc b) new_writer (dm_e2b d) (dm_mgr d) w of
        (rw, h, m, w') \<Rightarrow> (rw, d\<lparr>dm_mgr := m, dm_e2b := h\<rparr>, w'))"
  "sid \<noteq> [] \<Longrightarrow> serve_request dc (\<lparr>hi_Method = ''DELETE'', hi_Path = [''sandboxes'', sid], hi_Body = b\<rparr>, now, ks) d w =
     (case e2b_kill sid new_writer (dm_e2b_sub d) (dm_mgr d) w of
        (rw, h, m, w') \<Rightarrow> (rw, d\<lparr>dm_mgr := m, dm_e2b_sub := h\<rparr>, w'))"
  "serve_request dc (\<lparr>hi_Method = ''DELETE'', hi_Path = [''sandboxes'', []], hi_Body = b\<rparr>, now, ks) d w =
     (Some (no_handler 404), d, w)"
  by (simp_all add: serve_request_def e2b_ServeHTTP_def e2b_patterns_def method_ok_def)

text \<open>
  A created E2B sandbox is what the answer says: status 201, the identifier of the sandbox that the
  Manager now tracks under it, and its template, which the listing then shows. But the content type of
  that answer is lost: the header is set only after \<open>WriteHeader\<close>, so none is sent and the client is told
  plain text.
\<close>

theorem e2b_create_answer:
  assumes "serve_request dc (\<lparr>hi_Method = ''POST'', hi_Path = [''sandboxes''], hi_Body = b\<rparr>, now, ks) d w = (Some rw, d', w')"
    and "rw_status rw = Some 201"
  shows "\<exists>req i. dc_new dc b = Inr req \<and> ns_TemplateID req \<noteq> [] \<and>
     rw_body rw = [encoded (sandboxResp (ns_TemplateID req) (inst_ID i))] \<and>
     mgr_Get (dm_mgr d') (inst_ID i) = Some i \<and> meta_template (dm_e2b d') (inst_ID i) = ns_TemplateID req \<and>
     rw_sent rw ''Content-Type'' = None"
proof -
  obtain rw' h m w1 where c: "e2b_create now (dc_new dc b) new_writer (dm_e2b d) (dm_mgr d) w = (rw', h, m, w1)"
    by (metis prod_cases4)
  then have d: "rw' = Some rw" "d' = d\<lparr>dm_mgr := m, dm_e2b := h\<rparr>" "w1 = w'" using assms(1) by (simp_all add: serve_e2b)
  note st = assms(2) d(1)
  obtain req where q: "dc_new dc b = Inr req" using c st by (cases "dc_new dc b") (auto simp: e2b_create_def)
  have t: "ns_TemplateID req \<noteq> []" using c st q by (auto simp: e2b_create_def)
  obtain r m1 w2 where rc: "resolveAndCreate (dm_e2b d) req (dm_mgr d) w = (r, m1, w2)" by (metis prod_cases3)
  obtain i where i: "r = Ok i" using c st q t rc by (cases r) (auto simp: e2b_create_def)
  have rw: "rw = writeJSON (sandboxResp (ns_TemplateID req) (inst_ID i)) (WriteHeader 201 new_writer)" and m: "m = m1"
    and h: "h = (dm_e2b d)\<lparr>eh_meta := (eh_meta (dm_e2b d))(inst_ID i \<mapsto>
        \<lparr>sm_templateID = ns_TemplateID req, sm_createdAt = now\<rparr>)\<rparr>"
    using c d(1) q t rc i by (simp_all add: e2b_create_def)
  have "mgr_Get m (inst_ID i) = Some i"
    using rc [unfolded i] m by (auto simp: resolveAndCreate_def mgr_Create_def mgr_RestoreFrom_def mgr_Get_def track_def Let_def
        split: option.splits prod.splits res.splits if_splits)
  then show ?thesis using q t
    by (intro exI [of _ req] exI [of _ i])
      (simp add: rw d h meta_template_def)
qed

text \<open>
  A killed E2B sandbox is not gone: after \<open>DELETE /sandboxes/{id}\<close> answered 204 the Manager tracks it as
  before, and \<open>GET /sandboxes\<close> gives the same answer as before, template included: the kill stops the
  instance itself instead of deleting it through the Manager, and forgets its metadata in the other of
  the two mounted handlers.
\<close>

theorem e2b_kill_still_listed:
  assumes "serve_request dc (\<lparr>hi_Method = ''DELETE'', hi_Path = [''sandboxes'', sid], hi_Body = b\<rparr>, now, ks) d w = (Some rw, d', w')"
    and "rw_status rw = Some 204"
  shows "dm_mgr d' = dm_mgr d \<and> (\<exists>i. mgr_Get (dm_mgr d) sid = Some i \<and> w' = snd (inst_Stop i w)) \<and>
     fst (serve_request dc (\<lparr>hi_Method = ''GET'', hi_Path = [''sandboxes''], hi_Body = b'\<rparr>, now', ks') d' w') =
     fst (serve_request dc (\<lparr>hi_Method = ''GET'', hi_Path = [''sandboxes''], hi_Body = b'\<rparr>, now', ks') d w)"
proof -
  have sid: "sid \<noteq> []" using assms by (auto simp: serve_e2b no_handler_def)
  obtain rw' h m w1 where c: "e2b_kill sid new_writer (dm_e2b_sub d) (dm_mgr d) w = (rw', h, m, w1)"
    by (metis prod_cases4)
  then have d: "rw' = Some rw" "d' = d\<lparr>dm_mgr := m, dm_e2b_sub := h\<rparr>" "w1 = w'"
    using assms(1) sid by (simp_all add: serve_e2b)
  have "m = dm_mgr d \<and> (\<exists>i. mgr_Get (dm_mgr d) sid = Some i \<and> w' = snd (inst_Stop i w))"
    using c d assms(2) by (auto simp: e2b_kill_def split: option.splits prod.splits res.splits)
  with d have "dm_mgr d' = dm_mgr d \<and> dm_e2b d' = dm_e2b d \<and> (\<exists>i. mgr_Get (dm_mgr d) sid = Some i \<and> w' = snd (inst_Stop i w))"
    by simp
  then show ?thesis
    by (simp add: serve_request_def e2b_ServeHTTP_def e2b_patterns_def method_ok_def)
qed

text \<open>A daemon on the process driver alone.\<close>

definition proc_daemon :: "ProcWorld Daemon" where
  "proc_daemon = httpHandler (proc_manager quiet_os) ''process''"

definition proc_start :: ProcWorld where
  "proc_start = NewProcWorld [[1, 2, 3, 4, 5, 6]]"

definition e2b_request :: "string \<Rightarrow> string list \<Rightarrow> arrival" where
  "e2b_request meth path = (\<lparr>hi_Method = meth, hi_Path = path, hi_Body = []\<rparr>, 0, [])"

lemma e2b_create_process:
  "\<exists>rw d w. serve_request process_bodies (e2b_request ''POST'' [''sandboxes'']) proc_daemon proc_start = (Some rw, d, w) \<and>
     rw_status rw = Some 201 \<and> mgr_Get (dm_mgr d) ''010203040506'' = Some (proc_instance quiet_os 0 ''010203040506'') \<and>
     pheap w 0 \<noteq> None"
  by (simp add: e2b_request_def serve_e2b e2b_create_def process_bodies_def proc_daemon_def httpHandler_def NewHandler_def
      resolveAndCreate_def proc_manager_def RegisterDriver_def NewManager_def mgr_Create_def mgr_Get_def track_def
      proc_Create_def proc_start_def NewProcWorld_def example_ids Let_def)

theorem daemon_refines_witness:
  "drivers (dm_mgr (fst (snd (serve_request process_bodies (e2b_request ''POST'' [''sandboxes'']) proc_daemon proc_start)))) =
     drivers (dm_mgr proc_daemon)"
proof -
  obtain rw d w where "serve_request process_bodies (e2b_request ''POST'' [''sandboxes'']) proc_daemon proc_start = (rw, d, w)"
    by (metis prod_cases3)
  with daemon_refines [OF this] show ?thesis by simp
qed


theorem e2b_create_answer_witness:
  "\<exists>rw d w req. serve_request process_bodies (e2b_request ''POST'' [''sandboxes'']) proc_daemon proc_start = (Some rw, d, w) \<and>
     dc_new process_bodies [] = Inr req \<and> rw_sent rw ''Content-Type'' = None"
proof -
  obtain rw d w where s: "serve_request process_bodies (e2b_request ''POST'' [''sandboxes'']) proc_daemon proc_start = (Some rw, d, w)"
    "rw_status rw = Some 201" using e2b_create_process by (elim exE conjE) (rule that)
  from e2b_create_answer [OF s(1) [unfolded e2b_request_def] s(2)] s(1) show ?thesis by blast
qed

theorem e2b_kill_still_listed_witness:
  "\<exists>(d :: ProcWorld Daemon) w rw d' w'. serve_request process_bodies (e2b_request ''DELETE'' [''sandboxes'', ''010203040506'']) d w = (Some rw, d', w') \<and>
     mgr_Get (dm_mgr d') ''010203040506'' \<noteq> None"
proof -
  from e2b_create_process obtain d :: "ProcWorld Daemon" and w :: ProcWorld
    where d: "mgr_Get (dm_mgr d) ''010203040506'' = Some (proc_instance quiet_os 0 ''010203040506'')" "pheap w 0 \<noteq> None"
    by (elim exE conjE) (rule that)
  obtain rw d' w' where k: "serve_request process_bodies (e2b_request ''DELETE'' [''sandboxes'', ''010203040506'']) d w = (Some rw, d', w')"
    "rw_status rw = Some 204"
    using d by (auto simp: e2b_request_def serve_e2b e2b_kill_def proc_Stop_def)
  have "mgr_Get (dm_mgr d') ''010203040506'' \<noteq> None"
    using e2b_kill_still_listed [OF k(1) [unfolded e2b_request_def] k(2)] d(1) by simp
  with k(1) show ?thesis by (intro exI conjI)
qed

end
