(* ===== verification/MgrProps.thy ===== *)
theory MgrProps
  imports DaemonProps
begin

text \<open>
  The Manager of the daemon when its operations run at the same time: who is responsible for a sandbox at
  every moment, that no sandbox is stopped twice, and what a shutdown in the middle of a create misses.
\<close>

section \<open>The invariant on the two drivers\<close>

lemma newManager_empty: "newManager si kern rootfs = (m, w) \<Longrightarrow> instances m = Map.empty"
  by (auto simp: newManager_def RegisterDriver_def NewManager_def split: prod.splits)

definition vessel_conc :: "'g site \<Rightarrow> string \<Rightarrow> string \<Rightarrow> 'g vessel MgrSys \<Rightarrow> bool" where
  "vessel_conc si kern rootfs =
     conc_inv (both_D (\<lambda>d. \<exists>os. d = process_Driver os) (is_ch (si_machine si) (site_cfg si kern rootfs)))
       (both_wf proc_ok (ch_inv {})) (both_live proc_live ch_live) (both_handle proc_handle (ch_handle (si_machine si)))"

lemma vessel_conc_reach:
  assumes "newManager si kern rootfs = (m, w)" "sane (si_machine si) (site_cfg si kern rootfs)"
    and "mgr_reach m (warm si kern rootfs w) s"
  shows "vessel_conc si kern rootfs s"
  unfolding vessel_conc_def
  by (rule vessel_owned.both_owned.conc_reach [OF assms(3)])
    (use newManager_ok(2) [OF assms(1,2)] newManager_empty [OF assms(1)] in \<open>simp_all add: vessel_ok_def\<close>)

lemma region_drivers: "mgr_region iks dks t m w = (t', m', w') \<Longrightarrow> drivers m' = drivers m"
  by (cases "(iks, dks, t, m, w)" rule: mgr_region.cases)
    (auto simp: track_def split: option.splits res.splits prod.splits)

lemma reach_drivers: "mgr_reach m w s \<Longrightarrow> drivers (ms_mgr s) = drivers m"
proof (induction rule: mgr_reach.induct)
  case (step s e)
  then show ?case
    by (cases e) (auto split: prod.splits dest: region_drivers)
qed (simp add: mgr_sys_def)

section \<open>Properties\<close>

text \<open>
  C7. Every sandbox has one owner: however the calls of the Manager interleave - creates, restores, forks,
  snapshots, deletes and shutdowns, on both drivers - the live sandboxes are exactly those that the table
  tracks and those that some call has in hand to track or to stop; none has two owners, none is stopped
  twice, and none is tracked or in hand after it was stopped.
\<close>

theorem mgr_threads_own:
  assumes "newManager si kern rootfs = (m, w)" "sane (si_machine si) (site_cfg si kern rootfs)"
    and "mgr_reach m (warm si kern rootfs w) s"
  shows "both_live proc_live ch_live (ms_world s) = set_mset (tracked (ms_mgr s) + in_hand (ms_threads s)) \<and>
     (\<forall>x. count (tracked (ms_mgr s) + in_hand (ms_threads s)) x \<le> 1) \<and> distinct (ms_stopped s) \<and>
     set (ms_stopped s) \<inter> both_live proc_live ch_live (ms_world s) = {}"
proof -
  note inv = vessel_conc_reach [OF assms, unfolded vessel_conc_def]
  have live: "both_live proc_live ch_live (ms_world s) = set_mset (tracked (ms_mgr s) + in_hand (ms_threads s))"
    and one: "\<And>x. count (tracked (ms_mgr s) + in_hand (ms_threads s)) x + count (mset (ms_stopped s)) x \<le> 1"
    using inv by (simp_all add: conc_inv_def)
  have "x \<notin># tracked (ms_mgr s) + in_hand (ms_threads s)" if "x \<in> set (ms_stopped s)" for x
  proof -
    have "0 < count (mset (ms_stopped s)) x" using that by (simp only: count_greater_zero_iff set_mset_mset)
    with one [of x] have "count (tracked (ms_mgr s) + in_hand (ms_threads s)) x = 0" by linarith
    then show ?thesis by (simp only: not_in_iff)
  qed
  moreover have "count (tracked (ms_mgr s) + in_hand (ms_threads s)) x \<le> 1" for x using one [of x] by linarith
  ultimately show ?thesis using live vessel_owned.both_owned.conc_stopped_once [OF inv] by blast
qed

text \<open>
  C12. Once no call has a sandbox in hand, \<open>Shutdown\<close> ends everything: after any interleaving of calls, a
  shutdown at a moment when no sandbox is between its creation and its entry in the table, nor between its
  removal and its end, leaves no VMM process and no process sandbox.
\<close>

theorem quiet_shutdown:
  assumes "newManager si kern rootfs = (m, w)" "sane (si_machine si) (site_cfg si kern rootfs)"
    and "mgr_reach m (warm si kern rootfs w) s" "in_hand (ms_threads s) = {#}"
    and "range_order (instances (ms_mgr s)) iks" "range_order (drivers (ms_mgr s)) dks"
    and "mgr_Shutdown (ms_mgr s) iks dks (ms_world s) = (r, m', w')"
  shows "r = Ok () \<and> cw_procs (snd w') = {} \<and> proc_live (fst w') = {} \<and> instances m' = Map.empty"
proof -
  note inv = vessel_conc_reach [OF assms(1-3), unfolded vessel_conc_def]
  from vessel_owned.both_owned.conc_quiet [OF inv assms(4)]
  have "vessel_ok si kern rootfs (ms_mgr s) (ms_world s)" by (simp add: vessel_ok_def)
  from vessel_shutdown [OF this _ assms(5-7), of "si_os si"] show ?thesis
    using reach_drivers [OF assms(3)] newManager_ok(3) [OF assms(1,2)] by simp
qed

text \<open>
  C23. A shutdown misses a sandbox that is being created: from the moment a driver has made it until its call
  gets back to the lock, nothing that other calls do - a whole \<open>Shutdown\<close> among them - tracks or stops it;
  the call then enters it into the table, and it is alive, with nobody left to stop it.
\<close>

theorem shutdown_misses_create:
  assumes "newManager si kern rootfs = (m, w)" "sane (si_machine si) (site_cfg si kern rootfs)"
    and "mgr_reach m (warm si kern rootfs w) s" "i < length (ms_threads s)" "ms_threads s ! i = M_Track x d"
    and "mgr_run_ok es s" "list_all (\<lambda>e. \<not> runs_thread i e) es" "s' = mgr_steps es s"
  shows "inst_ref x \<in> both_live proc_live ch_live (ms_world s') \<and> inst_ref x \<notin># tracked (ms_mgr s') \<and>
     inst_ref x \<notin> set (ms_stopped s') \<and>
     (case mgr_step (RunMgr i [] []) s' of t \<Rightarrow>
        ms_threads t ! i = M_Done (Ok (Some x)) \<and> ms_world t = ms_world s' \<and> mgr_Get (ms_mgr t) (inst_ID x) = Some x)"
proof -
  have "mgr_reach m (warm si kern rootfs w) s'" unfolding assms(8) by (rule steps_reach [OF assms(3,6)])
  note inv = vessel_conc_reach [OF assms(1,2) this, unfolded vessel_conc_def]
  have i: "i < length (ms_threads s')" "ms_threads s' ! i = M_Track x d"
    using steps_thread [OF assms(4,7)] assms(5,8) by simp_all
  then have t: "M_Track x d \<in> set (ms_threads s')" by (metis nth_mem)
  note own = vessel_owned.both_owned.conc_owner [OF inv t, of x]
  show ?thesis using own i by (simp add: mgr_Get_def track_def)
qed

text \<open>
  The regions are the methods: a call that runs alone does to the table and the world what the method
  of the Manager does, and answers the same, for every method, state and driver.
\<close>

theorem mgr_calls_are_threads:
  "\<exists>n. mgr_alone n iks dks (call_thread c) m w =
     (case call_result iks dks c m w of (r, m', w') \<Rightarrow> (M_Done r, m', w'))"
  by (rule alone_call)

section \<open>Witnesses\<close>

text \<open>A site where everything works: a create that has not yet been tracked, and a shutdown after it.\<close>

definition making :: "mgr_event list" where
  "making = [Begin (CallOp (OpCreate ''process'' None)), RunMgr 0 [] [], RunMgr 0 [] []]"

definition drv_order :: "string list" where
  "drv_order = [''process'', ''cloudhypervisor'']"

definition shutting :: "mgr_event list" where
  "shutting = Begin CallStop # replicate 4 (RunMgr 1 [] drv_order)"

definition happy_sys :: "nat vessel MgrSys" where
  "happy_sys = (case newManager happy_site [] [] of (m, w) \<Rightarrow> mgr_sys m (warm happy_site [] [] w))"

lemma happy_start:
  assumes "newManager happy_site [] [] = (m, w)"
  shows "happy_sys = mgr_sys m (warm happy_site [] [] w)" "instances m = Map.empty"
    "drivers m ''process'' = Some (drv_fst (process_Driver quiet_os))" "dom (drivers m) = set drv_order"
    "drivers m ''cloudhypervisor'' = Some (drv_snd (ch_Driver happy (site_cfg happy_site [] [])))"
    "pentropy (fst w) = [[1, 2, 3, 4, 5, 6]]" "pnext (fst w) = 0"
proof -
  show "happy_sys = mgr_sys m (warm happy_site [] [] w)" by (simp add: happy_sys_def assms)
  show "instances m = Map.empty" by (rule newManager_empty [OF assms])
  have d: "drivers m = [''process'' \<mapsto> drv_fst (process_Driver quiet_os),
      ''cloudhypervisor'' \<mapsto> drv_snd (ch_Driver happy (site_cfg happy_site [] []))]"
    using newManager_ok(3) [OF assms happy_site_sane] by (simp add: happy_site_def)
  show "drivers m ''process'' = Some (drv_fst (process_Driver quiet_os))" "dom (drivers m) = set drv_order"
    "drivers m ''cloudhypervisor'' = Some (drv_snd (ch_Driver happy (site_cfg happy_site [] [])))"
    by (auto simp: d drv_order_def)
  have "fst w = NewProcWorld [[1, 2, 3, 4, 5, 6]]"
    using assms by (auto simp: newManager_def happy_site_def split: prod.splits)
  then show "pentropy (fst w) = [[1, 2, 3, 4, 5, 6]]" "pnext (fst w) = 0" by (simp_all add: NewProcWorld_def)
qed

lemma happy_making:
  assumes "newManager happy_site [] [] = (m, w)"
  shows "\<exists>x d. ms_threads (mgr_steps making happy_sys) = [M_Track x d] \<and> inst_ref x = 0 \<and> inst_ID x = ''010203040506''"
    "ms_mgr (mgr_steps making happy_sys) = m" "mgr_run_ok making happy_sys"
  unfolding happy_start(1) [OF assms] using happy_start(2,3,6,7) [OF assms]
  by (simp_all add: making_def mgr_sys_def drv_fst_def made_at_def proc_Create_def warm_def example_ids mgr_event_ok_def)

lemma happy_reach:
  assumes "newManager happy_site [] [] = (m, w)" "mgr_run_ok es happy_sys"
  shows "mgr_reach m (warm happy_site [] [] w) (mgr_steps es happy_sys)"
  using assms happy_start(1) [OF assms(1)] steps_reach [OF mgr_reach.start] by metis

theorem mgr_threads_own_witness:
  "in_hand (ms_threads (mgr_steps making happy_sys)) = {#0#} \<and> tracked (ms_mgr (mgr_steps making happy_sys)) = {#} \<and>
   both_live proc_live ch_live (ms_world (mgr_steps making happy_sys)) = {0}"
proof -
  obtain m w where new: "newManager happy_site [] [] = (m, w)" by (cases "newManager happy_site [] []")
  note mk = happy_making [OF new]
  have "in_hand (ms_threads (mgr_steps making happy_sys)) = {#0#}" using mk(1) by auto
  moreover have "tracked (ms_mgr (mgr_steps making happy_sys)) = {#}" using mk(2) happy_start(2) [OF new] by simp
  ultimately show ?thesis
    using mgr_threads_own [OF new happy_site_sane happy_reach [OF new mk(3)]] by simp
qed

theorem shutdown_misses_create_witness:
  "ms_threads (mgr_steps shutting (mgr_steps making happy_sys)) ! 1 = M_Done (Ok None) \<and>
   0 \<in> both_live proc_live ch_live (ms_world (mgr_steps shutting (mgr_steps making happy_sys)))"
proof -
  obtain m w where new: "newManager happy_site [] [] = (m, w)" by (cases "newManager happy_site [] []")
  note mk = happy_making [OF new] and st = happy_start [OF new]
  obtain x d where x: "ms_threads (mgr_steps making happy_sys) = [M_Track x d]" "inst_ref x = 0" using mk(1) by blast
  have ord: "range_order (instances m) []" "range_order (drivers m) drv_order"
    using st(2,4) by (auto simp: range_order_def drv_order_def)
  have ds: "range_vals (drivers m) drv_order = [drv_fst (process_Driver quiet_os), drv_snd (ch_Driver happy (site_cfg happy_site [] []))]"
    using st(3,5) by (simp add: drv_order_def)
  have run: "mgr_run_ok shutting (mgr_steps making happy_sys)"
    "ms_threads (mgr_steps shutting (mgr_steps making happy_sys)) ! 1 = M_Done (Ok None)"
    using x mk(2) ord ds st(2) by (simp_all add: shutting_def eval_nat_numeral mgr_event_ok_def)
  have "list_all (\<lambda>e. \<not> runs_thread 0 e) shutting" by (simp add: shutting_def runs_thread_def eval_nat_numeral)
  from shutdown_misses_create [OF new happy_site_sane happy_reach [OF new mk(3)] _ _ run(1) this refl, of x d] x run(2)
  show ?thesis by simp
qed

theorem quiet_shutdown_witness:
  "\<exists>r m' w'. mgr_Shutdown (ms_mgr (mgr_steps (making @ [RunMgr 0 [] []]) happy_sys)) [''010203040506''] drv_order
     (ms_world (mgr_steps (making @ [RunMgr 0 [] []]) happy_sys)) = (r, m', w') \<and> r = Ok () \<and> cw_procs (snd w') = {}"
proof -
  let ?s = "mgr_steps (making @ [RunMgr 0 [] []]) happy_sys"
  obtain m w where new: "newManager happy_site [] [] = (m, w)" by (cases "newManager happy_site [] []")
  note mk = happy_making [OF new] and st = happy_start [OF new]
  obtain x d where x: "ms_threads (mgr_steps making happy_sys) = [M_Track x d]" "inst_ID x = ''010203040506''" using mk(1) by blast
  have app: "mgr_steps (es @ fs) s = mgr_steps fs (mgr_steps es s)" "mgr_run_ok (es @ fs) s = (mgr_run_ok es s \<and> mgr_run_ok fs (mgr_steps es s))"
    for es fs and s :: "nat vessel MgrSys" by (induction es arbitrary: s) simp_all
  have run: "mgr_run_ok (making @ [RunMgr 0 [] []]) happy_sys" and t: "ms_threads ?s = [M_Done (Ok (Some x))]" and
    tr: "ms_mgr ?s = track m x d"
    using x mk(2,3) st(2) by (simp_all add: app mgr_event_ok_def)
  have ord: "range_order (instances (ms_mgr ?s)) [''010203040506'']" "range_order (drivers (ms_mgr ?s)) drv_order"
    unfolding tr using st(2,4) x(2) by (auto simp: range_order_def drv_order_def track_def)
  obtain r m' w' where s: "mgr_Shutdown (ms_mgr ?s) [''010203040506''] drv_order (ms_world ?s) = (r, m', w')"
    by (metis prod_cases3)
  have "in_hand (ms_threads ?s) = {#}" unfolding t by simp
  from quiet_shutdown [OF new happy_site_sane happy_reach [OF new run] this ord s] s show ?thesis by blast
qed

end
