(* ===== verification/Sha256.thy ===== *)
theory Sha256
  imports Prelude
begin

text \<open>
  \<open>crypto/sha256\<close> of Go's standard library, which \<open>SocketAddress\<close> of the shim uses: the hash of FIPS 180-4 on
  a string, as 32 bytes.
\<close>

unbundle bit_operations_syntax

section \<open>Padding and blocks\<close>

definition byte_of :: "char \<Rightarrow> 8 word" where
  "byte_of c = of_nat (of_char c)"

text \<open>The big-endian bytes of a word, the lowest \<open>n\<close> of them.\<close>

primrec be_bytes :: "nat \<Rightarrow> 'a::len word \<Rightarrow> 8 word list" where
  "be_bytes 0 x = []"
| "be_bytes (Suc n) x = ucast (drop_bit (8 * n) x) # be_bytes n x"

definition sha_pad :: "8 word list \<Rightarrow> 8 word list" where
  "sha_pad m =
     (let z = (119 - length m mod 64) mod 64
      in m @ [0x80] @ replicate z 0 @ be_bytes 8 (8 * of_nat (length m) :: 64 word))"

definition be_word :: "8 word list \<Rightarrow> 32 word" where
  "be_word bs = foldl (\<lambda>w b. push_bit 8 w OR ucast b) 0 bs"

fun chunks :: "nat \<Rightarrow> nat \<Rightarrow> 'a list \<Rightarrow> 'a list list" where
  "chunks n 0 xs = []"
| "chunks n (Suc k) xs = take n xs # chunks n k (drop n xs)"

section \<open>Compression\<close>

definition rotr :: "nat \<Rightarrow> 32 word \<Rightarrow> 32 word" where
  "rotr n x = drop_bit n x OR push_bit (32 - n) x"

text \<open>
  The round constants are the first 32 bits of the fractional parts of the cube roots of the first
  64 primes, those of the initial state of the square roots of the first 8. \<open>iroot k n\<close> is the \<open>k\<close>-th
  root of \<open>n < 2 ^ (40 * k)\<close>, rounded down, bit by bit.
\<close>

definition small_primes :: "int list" where
  "small_primes = filter (\<lambda>n. list_all (\<lambda>d. n mod d \<noteq> 0) [2..n - 1]) [2..311]"

definition iroot :: "nat \<Rightarrow> int \<Rightarrow> int" where
  "iroot k n = foldl (\<lambda>r b. if (r + 2 ^ b) ^ k \<le> n then r + 2 ^ b else r) 0 (rev [0..<40])"

definition root_bits :: "nat \<Rightarrow> int \<Rightarrow> 32 word" where
  "root_bits k p = word_of_int (iroot k (p * 2 ^ (32 * k)))"

definition sha_K :: "32 word list" where
  "sha_K = map (root_bits 3) small_primes"

text \<open>The message schedule, newest word first: each new word from the ones 2, 7, 15 and 16 back.\<close>

definition sha_extend :: "32 word list \<Rightarrow> 32 word list" where
  "sha_extend ws =
     (let a = ws ! 14; b = ws ! 1
      in ((rotr 17 b XOR rotr 19 b XOR drop_bit 10 b) + ws ! 6 +
          (rotr 7 a XOR rotr 18 a XOR drop_bit 3 a) + ws ! 15) # ws)"

definition sha_schedule :: "8 word list \<Rightarrow> 32 word list" where
  "sha_schedule block = rev ((sha_extend ^^ 48) (rev (map be_word (chunks 4 16 block))))"

datatype sha_state = SHA "32 word" "32 word" "32 word" "32 word" "32 word" "32 word" "32 word" "32 word"

fun sha_round :: "sha_state \<Rightarrow> 32 word \<times> 32 word \<Rightarrow> sha_state" where
  "sha_round (SHA a b c d e f g h) (k, w) =
     (let t1 = h + (rotr 6 e XOR rotr 11 e XOR rotr 25 e) + ((e AND f) XOR (NOT e AND g)) + k + w;
          t2 = (rotr 2 a XOR rotr 13 a XOR rotr 22 a) + ((a AND b) XOR (a AND c) XOR (b AND c))
      in SHA (t1 + t2) a b c (d + t1) e f g)"

fun sha_add :: "sha_state \<Rightarrow> sha_state \<Rightarrow> sha_state" where
  "sha_add (SHA a b c d e f g h) (SHA a' b' c' d' e' f' g' h') =
     SHA (a + a') (b + b') (c + c') (d + d') (e + e') (f + f') (g + g') (h + h')"

definition sha_block :: "sha_state \<Rightarrow> 8 word list \<Rightarrow> sha_state" where
  "sha_block s block = sha_add s (foldl sha_round s (zip sha_K (sha_schedule block)))"

definition sha_init :: sha_state where
  "sha_init = SHA (root_bits 2 2) (root_bits 2 3) (root_bits 2 5) (root_bits 2 7)
     (root_bits 2 11) (root_bits 2 13) (root_bits 2 17) (root_bits 2 19)"

fun sha_bytes :: "sha_state \<Rightarrow> 8 word list" where
  "sha_bytes (SHA a b c d e f g h) = concat (map (\<lambda>w. be_bytes 4 w) [a, b, c, d, e, f, g, h])"

definition Sum256 :: "string \<Rightarrow> 8 word list" where
  "Sum256 s =
     (let p = sha_pad (map byte_of s)
      in sha_bytes (foldl sha_block sha_init (chunks 64 (length p div 64) p)))"

lemma length_be_bytes [simp]: "length (be_bytes n x) = n"
  by (induction n) simp_all

lemma length_sha_bytes [simp]: "length (sha_bytes s) = 32"
  by (cases s) simp

lemma length_Sum256 [simp]: "length (Sum256 s) = 32"
  by (simp add: Sum256_def Let_def)

lemma sha_pad_blocks: "64 dvd length (sha_pad m)"
proof -
  define q r where "q = length m div 64" and "r = length m mod 64"
  have l: "length m = 64 * q + r" "r < 64" by (simp_all add: q_def r_def)
  have z: "(119 - r) mod 64 = (if r \<le> 55 then 55 - r else 119 - r)"
  proof (cases "r \<le> 55")
    case True
    then have "119 - r = 64 + (55 - r)" by simp
    also have "\<dots> mod 64 = 55 - r" by (subst mod_add_self1) simp
    finally show ?thesis using True by simp
  qed (use l in simp)
  have "length (sha_pad m) = 64 * q + r + 1 + (119 - r) mod 64 + 8"
    using l(2) by (simp add: sha_pad_def Let_def l(1))
  also have "\<dots> = 64 * (if r \<le> 55 then q + 1 else q + 2)" using l(2) by (simp add: z)
  finally show ?thesis by simp
qed

end
