(* ===== verification/ShimBoot.thy ===== *)
theory ShimBoot
  imports Filepath Sandbox Sha256
begin

text \<open>
  The life of the shim process, \<open>pkg/shim/bootstrap.go\<close>: \<open>start\<close> listens, spawns the daemon and leaves
  its address and pid in the bundle, \<open>delete\<close> kills it and removes what it left. What touches the node
  is a parameter, one function for all actions and one that spawns; its state is threaded through.
\<close>

section \<open>Numbers and blanks\<close>

text \<open>
  \<open>strconv.Atoi\<close>, of which only failure matters, and \<open>strings.TrimSpace\<close> with the UTF-8 encodings of
  all white space. Each round of \<open>trim_front\<close> removes at least a byte, so the length is fuel enough.
\<close>

definition Atoi :: "string \<Rightarrow> int option" where
  "Atoi s =
     (let neg = HasPrefix s ''-'';
          ds = (if neg \<or> HasPrefix s ''+'' then drop 1 s else s);
          n = (if neg then - int (atou 0 ds) else int (atou 0 ds))
      in if ds = [] \<or> \<not> list_all is_digit ds \<or> n < - (2 ^ 63) \<or> n \<ge> 2 ^ 63
         then None else Some n)"

definition white_space :: "string list" where
  "white_space =
     map (\<lambda>c. [c]) [CHR 0x09, CHR 0x0A, CHR 0x0B, CHR 0x0C, CHR 0x0D, CHR '' ''] @
     [[CHR 0xC2, CHR 0x85], [CHR 0xC2, CHR 0xA0], [CHR 0xE1, CHR 0x9A, CHR 0x80]] @
     map (\<lambda>c. [CHR 0xE2, CHR 0x80, c])
       [CHR 0x80, CHR 0x81, CHR 0x82, CHR 0x83, CHR 0x84, CHR 0x85, CHR 0x86, CHR 0x87, CHR 0x88, CHR 0x89,
        CHR 0x8A, CHR 0xA8, CHR 0xA9, CHR 0xAF] @
     [[CHR 0xE2, CHR 0x81, CHR 0x9F], [CHR 0xE3, CHR 0x80, CHR 0x80]]"

fun trim_front :: "string list \<Rightarrow> nat \<Rightarrow> string \<Rightarrow> string" where
  "trim_front sps 0 s = s"
| "trim_front sps (Suc n) s =
     (case find (HasPrefix s) sps of
        None \<Rightarrow> s
      | Some p \<Rightarrow> trim_front sps n (drop (length p) s))"

definition TrimSpace :: "string \<Rightarrow> string" where
  "TrimSpace s =
     (let t = trim_front white_space (length s) s
      in rev (trim_front (map rev white_space) (length t) (rev t)))"

text \<open>The fuel is enough: what is left starts with no white space.\<close>

lemma trim_front_enough:
  assumes "\<And>p. p \<in> set sps \<Longrightarrow> p \<noteq> []" "length s \<le> n"
  shows "find (HasPrefix (trim_front sps n s)) sps = None"
  using assms(2)
proof (induction n arbitrary: s)
  case 0
  have "\<not> HasPrefix [] p" if "p \<in> set sps" for p
    using assms(1) [OF that] by (cases p) auto
  then show ?case using 0 by (auto simp: find_None_iff)
next
  case (Suc n)
  show ?case
  proof (cases "find (HasPrefix s) sps")
    case (Some p)
    then have "p \<in> set sps" by (auto simp: find_Some_iff)
    then have "0 < length p" using assms(1) by simp
    then have "length (drop (length p) s) \<le> n" unfolding length_drop using Suc.prems by linarith
    then show ?thesis using Suc.IH Some by simp
  qed simp
qed

section \<open>The node\<close>

text \<open>
  The handles of the \<open>start\<close> process, and its actions. \<open>SKeepSocket\<close> is \<open>SetUnlinkOnClose(false)\<close>, \<open>SFile\<close>
  duplicates the listener's descriptor, \<open>SOpenLog\<close> opens for appending; modes are in decimal (457 is
  0711, 420 is 0644).
\<close>

datatype handle = HListener | HDup | HLog

datatype sop =
    SMkdirAll string nat
  | SRemove string
  | SListen string
  | SKeepSocket
  | SFile
  | SOpenLog string
  | SClose handle
  | SWriteFile string string nat
  | SRename string string
  | SKill int

record shim_cmd =
  sc_args :: "string list"
  sc_Dir :: string
  sc_Extra :: "handle list"
  sc_Out :: handle
  sc_Setpgid :: bool

record 'g node_host =
  nh_env :: "string \<Rightarrow> string"
  nh_Executable :: "err + string"
  nh_Getwd :: "err + string"
  nh_Getpid :: "32 word"
  nh_Now :: int
  nh_ReadFile :: "string \<Rightarrow> 'g \<Rightarrow> err + string"
  nh_Start :: "shim_cmd \<Rightarrow> 'g \<Rightarrow> (err + int) \<times> 'g"
  nh_do :: "sop \<Rightarrow> 'g \<Rightarrow> err option \<times> 'g"

text \<open>An action whose error is ignored, and the deferred closes of a function that returned \<open>q\<close>.\<close>

definition always :: "'g node_host \<Rightarrow> sop \<Rightarrow> 'g \<Rightarrow> 'g" where
  "always H a g = snd (nh_do H a g)"

definition deferred :: "'g node_host \<Rightarrow> handle list \<Rightarrow> 'a \<times> 'g \<Rightarrow> 'a \<times> 'g" where
  "deferred H hs q = (fst q, fold (\<lambda>h. always H (SClose h)) hs (snd q))"

section \<open>The socket\<close>

definition socketRoot :: "(string \<Rightarrow> string) \<Rightarrow> string" where
  "socketRoot env =
     (let v = env ''VESSEL_SHIM_SOCKET_ROOT'' in if v \<noteq> [] then v else ''/run/containerd/s'')"

definition SocketAddress :: "(string \<Rightarrow> string) \<Rightarrow> string \<Rightarrow> string \<Rightarrow> string \<Rightarrow> string" where
  "SocketAddress env containerdAddress nspace tid =
     (let d = Sum256 (Join [containerdAddress, nspace, tid])
      in ''unix://'' @ Join [socketRoot env, hexEncode (take 8 d)])"

definition socketPath :: "string \<Rightarrow> string" where
  "socketPath address = TrimPrefix address ''unix://''"

section \<open>start\<close>

definition writeFileAtomic :: "'g node_host \<Rightarrow> string \<Rightarrow> string \<Rightarrow> 'g \<Rightarrow> err option \<times> 'g" where
  "writeFileAtomic H path content g =
     (let tmp = path @ ''.tmp''
      in andThen (nh_do H (SWriteFile tmp content 420) g) (nh_do H (SRename tmp path)))"

text \<open>The daemon: this executable without a subcommand, the listener at descriptor 3, its own group.\<close>

definition daemon_cmd :: "string \<Rightarrow> string \<Rightarrow> string \<Rightarrow> string \<Rightarrow> string \<Rightarrow> shim_cmd" where
  "daemon_cmd self bundle nspace tid containerdAddress =
     \<lparr>sc_args = [self, ''-namespace'', nspace, ''-id'', tid, ''-address'', containerdAddress],
      sc_Dir = bundle, sc_Extra = [HDup], sc_Out = HLog, sc_Setpgid = True\<rparr>"

text \<open>The two records; a daemon that cannot be recorded is killed.\<close>

definition record_daemon :: "'g node_host \<Rightarrow> string \<Rightarrow> string \<Rightarrow> int \<Rightarrow> 'g \<Rightarrow> (err + string) \<times> 'g" where
  "record_daemon H bundle address pid g =
     (case writeFileAtomic H (Join [bundle, ''address'']) address g of
        (Some e, g1) \<Rightarrow> (Inl e, always H (SKill pid) g1)
      | (None, g1) \<Rightarrow>
          (case writeFileAtomic H (Join [bundle, ''shim.pid'']) (Itoa pid) g1 of
             (Some e, g2) \<Rightarrow> (Inl e, always H (SKill pid) g2)
           | (None, g2) \<Rightarrow> (Inr address, g2)))"

definition spawn_daemon ::
  "'g node_host \<Rightarrow> string \<Rightarrow> string \<Rightarrow> string \<Rightarrow> string \<Rightarrow> string \<Rightarrow> string \<Rightarrow> 'g \<Rightarrow> (err + string) \<times> 'g" where
  "spawn_daemon H self bundle nspace tid containerdAddress address g =
     (case nh_do H (SOpenLog (Join [bundle, ''shim.log''])) g of
        (Some e, g1) \<Rightarrow> (Inl e, g1)
      | (None, g1) \<Rightarrow>
          deferred H [HLog]
            (case nh_Start H (daemon_cmd self bundle nspace tid containerdAddress) g1 of
               (Inl e, g2) \<Rightarrow> (Inl (Wrapf ''spawn shim daemon: %w'' [] e), g2)
             | (Inr pid, g2) \<Rightarrow> record_daemon H bundle address pid g2))"

text \<open>The directory of the socket, the stale socket, the listener, and its copy for the daemon.\<close>

definition listen_socket :: "'g node_host \<Rightarrow> string \<Rightarrow> 'g \<Rightarrow> err option \<times> 'g" where
  "listen_socket H address g =
     (let path = socketPath address
      in andThen (nh_do H (SMkdirAll (Dir path) 457) g) (\<lambda>g1.
         (case nh_do H (SListen path) (always H (SRemove path) g1) of
            (Some e, g2) \<Rightarrow> (Some (Wrapf ''listen %s: %w'' [address] e), g2)
          | (None, g2) \<Rightarrow>
              (case nh_do H SFile (always H SKeepSocket g2) of
                 (Some e, g3) \<Rightarrow> (Some e, always H (SClose HListener) g3)
               | (None, g3) \<Rightarrow> (None, g3)))))"

definition RunStart :: "'g node_host \<Rightarrow> string \<Rightarrow> string \<Rightarrow> string \<Rightarrow> 'g \<Rightarrow> (err + string) \<times> 'g" where
  "RunStart H nspace tid containerdAddress g =
     (case nh_Executable H of
        Inl e \<Rightarrow> (Inl e, g)
      | Inr self \<Rightarrow>
          (case nh_Getwd H of
             Inl e \<Rightarrow> (Inl e, g)
           | Inr bundle \<Rightarrow>
               (let address = SocketAddress (nh_env H) containerdAddress nspace tid
                in case listen_socket H address g of
                     (Some e, g1) \<Rightarrow> (Inl e, g1)
                   | (None, g1) \<Rightarrow>
                       deferred H [HDup, HListener]
                         (spawn_daemon H self bundle nspace tid containerdAddress address g1))))"

section \<open>delete\<close>

record DeleteResponse =
  dr_Pid :: "32 word"
  dr_ExitStatus :: "32 word"
  dr_ExitedAt :: int

text \<open>The pid of the daemon, if the file names one that may be signalled.\<close>

definition recorded_pid :: "'g node_host \<Rightarrow> string \<Rightarrow> 'g \<Rightarrow> int option" where
  "recorded_pid H bundle g =
     (case nh_ReadFile H (Join [bundle, ''shim.pid'']) g of
        Inl e \<Rightarrow> None
      | Inr data \<Rightarrow>
          (case Atoi (TrimSpace data) of
             None \<Rightarrow> None
           | Some pid \<Rightarrow> if pid > 1 then Some pid else None))"

definition RunDelete :: "'g node_host \<Rightarrow> string \<Rightarrow> string \<Rightarrow> string \<Rightarrow> 'g \<Rightarrow> (err + DeleteResponse) \<times> 'g" where
  "RunDelete H nspace tid containerdAddress g =
     (case nh_Getwd H of
        Inl e \<Rightarrow> (Inl e, g)
      | Inr bundle \<Rightarrow>
          (let g1 = (case recorded_pid H bundle g of
                       None \<Rightarrow> g
                     | Some pid \<Rightarrow> always H (SKill pid) (always H (SKill (- pid)) g));
               g2 = always H (SRemove (socketPath (SocketAddress (nh_env H) containerdAddress nspace tid))) g1;
               g3 = always H (SRemove (Join [bundle, ''address''])) g2;
               g4 = always H (SRemove (Join [bundle, ''shim.pid''])) g3
           in (Inr \<lparr>dr_Pid = nh_Getpid H, dr_ExitStatus = 137, dr_ExitedAt = nh_Now H\<rparr>, g4)))"

end
