(* ===== verification/ShimConfig.thy ===== *)
theory ShimConfig
  imports Prelude
begin

text \<open>
  The node configuration of the shim and its template registry, \<open>pkg/shim/config.go\<close> and
  \<open>pkg/shim/templates.go\<close>. What \<open>os.ReadFile\<close> and \<open>json.Unmarshal\<close> made of a path is an argument,
  a \<open>json_file\<close>.
\<close>

section \<open>Templates\<close>

record Template =
  tpl_Driver :: string
  tpl_Path :: string

type_synonym MapTemplates = "string \<rightharpoonup> Template"

text \<open>\<open>Lookup\<close> returns the zero strings, and false, for an unknown id.\<close>

definition Lookup :: "MapTemplates \<Rightarrow> string \<Rightarrow> string \<times> string \<times> bool" where
  "Lookup m tid = (case m tid of None \<Rightarrow> ([], [], False) | Some t \<Rightarrow> (tpl_Driver t, tpl_Path t, True))"

text \<open>The loop over the entries, in the order \<open>ks\<close>: the first one without a path.\<close>

fun missing_path :: "MapTemplates \<Rightarrow> string list \<Rightarrow> string option" where
  "missing_path m [] = None"
| "missing_path m (k # ks) =
     (case m k of
        None \<Rightarrow> missing_path m ks
      | Some t \<Rightarrow> if tpl_Path t = [] then Some k else missing_path m ks)"

lemma missing_path_None: "missing_path m ks = None \<longleftrightarrow> (\<forall>k \<in> set ks. \<forall>t. m k = Some t \<longrightarrow> tpl_Path t \<noteq> [])"
  by (induction ks) (auto split: option.splits)

lemma missing_path_SomeD: "missing_path m ks = Some k \<Longrightarrow> k \<in> set ks \<and> (\<exists>t. m k = Some t \<and> tpl_Path t = [])"
  by (induction ks) (auto split: option.splits if_splits)

definition LoadTemplates :: "string \<Rightarrow> MapTemplates json_file \<Rightarrow> string list \<Rightarrow> MapTemplates res" where
  "LoadTemplates path file ks =
     (case file of
        NotExist \<Rightarrow> Err (Wrapf ''read template registry: %w'' [] (Ext ''file does not exist''))
      | ReadErr e \<Rightarrow> Err (Wrapf ''read template registry: %w'' [] e)
      | Malformed e \<Rightarrow> Err (Wrapf ''parse template registry %s: %w'' [path] e)
      | Parsed m \<Rightarrow>
          (case missing_path m ks of
             Some k \<Rightarrow> Err (New ''template %q: path is required'' [k])
           | None \<Rightarrow> Ok m))"

section \<open>Node configuration\<close>

record Config =
  cfg_Kernel :: string
  cfg_Rootfs :: string
  cfg_CHBinary :: string
  cfg_Pool :: int
  cfg_Templates :: MapTemplates

definition empty_Config :: Config where
  "empty_Config = \<lparr>cfg_Kernel = [], cfg_Rootfs = [], cfg_CHBinary = [], cfg_Pool = 0,
     cfg_Templates = Map.empty\<rparr>"

definition DefaultConfigPath :: string where
  "DefaultConfigPath = ''/etc/vessel/shim.json''"

definition config_path :: "(string \<Rightarrow> string) \<Rightarrow> string \<Rightarrow> string" where
  "config_path getenv path =
     (let path1 = (if path = [] then getenv ''VESSEL_SHIM_CONFIG'' else path)
      in if path1 = [] then DefaultConfigPath else path1)"

definition LoadConfig ::
  "(string \<Rightarrow> string) \<Rightarrow> (string \<Rightarrow> Config json_file) \<Rightarrow> string list \<Rightarrow> string \<Rightarrow> Config res" where
  "LoadConfig getenv files ks path0 =
     (let path = config_path getenv path0
      in case files path of
           NotExist \<Rightarrow> Ok empty_Config
         | ReadErr e \<Rightarrow> Err (Wrapf ''read shim config: %w'' [] e)
         | Malformed e \<Rightarrow> Err (Wrapf ''parse shim config %s: %w'' [path] e)
         | Parsed c \<Rightarrow>
             (case missing_path (cfg_Templates c) ks of
                Some k \<Rightarrow> Err (New ''shim config %s: template %q: path is required'' [path, k])
              | None \<Rightarrow> Ok c))"

definition DefaultDriver :: "Config \<Rightarrow> string" where
  "DefaultDriver c = (if cfg_Kernel c \<noteq> [] then ''cloudhypervisor'' else ''process'')"

text \<open>
  A configuration that loads gives every template a snapshot path, in whatever order the entries
  are visited; a present file that cannot be read or parsed, or that has an entry without a path, is
  an error and never the silent default; only a missing file is the default.
\<close>

theorem LoadConfig_sound:
  assumes "\<And>c. files (config_path getenv path) = Parsed c \<Longrightarrow> range_order (cfg_Templates c) ks"
  shows "case LoadConfig getenv files ks path of
       Ok c \<Rightarrow> (files (config_path getenv path) = NotExist \<and> c = empty_Config \<or>
                files (config_path getenv path) = Parsed c) \<and>
               (\<forall>tid drv p. Lookup (cfg_Templates c) tid = (drv, p, True) \<longrightarrow> p \<noteq> [])
     | Err e \<Rightarrow> files (config_path getenv path) \<noteq> NotExist \<and>
               (\<forall>c. files (config_path getenv path) = Parsed c \<longrightarrow>
                  (\<exists>tid drv. Lookup (cfg_Templates c) tid = (drv, [], True)))
     | Panic \<Rightarrow> False"
proof (cases "files (config_path getenv path)")
  case (Parsed c)
  have dom: "set ks = dom (cfg_Templates c)" using assms [OF Parsed] by (simp add: range_order_def)
  show ?thesis
  proof (cases "missing_path (cfg_Templates c) ks")
    case None
    then have "\<And>k t. cfg_Templates c k = Some t \<Longrightarrow> tpl_Path t \<noteq> []"
      using dom by (force simp: missing_path_None)
    with Parsed None show ?thesis
      by (auto simp: LoadConfig_def Lookup_def Let_def split: option.splits)
  next
    case (Some k)
    from missing_path_SomeD [OF this] obtain t where "cfg_Templates c k = Some t" "tpl_Path t = []"
      by blast
    then have "Lookup (cfg_Templates c) k = (tpl_Driver t, [], True)" by (simp add: Lookup_def)
    with Parsed Some show ?thesis by (auto simp: LoadConfig_def Let_def)
  qed
qed (auto simp: LoadConfig_def Lookup_def empty_Config_def Let_def)

definition py_Config :: Config where
  "py_Config = empty_Config\<lparr>cfg_Templates := [''py'' \<mapsto> \<lparr>tpl_Driver = [], tpl_Path = ''/t''\<rparr>]\<rparr>"

theorem LoadConfig_sound_witness:
  "LoadConfig (\<lambda>_. []) (\<lambda>_. Parsed py_Config) [''py''] [] = Ok py_Config \<and>
   Lookup (cfg_Templates py_Config) ''py'' \<noteq> ([], [], True)"
proof -
  have "LoadConfig (\<lambda>_. []) (\<lambda>_. Parsed py_Config) [''py''] [] = Ok py_Config"
    by (simp add: LoadConfig_def py_Config_def empty_Config_def Let_def)
  with LoadConfig_sound [of "\<lambda>_. Parsed py_Config" "\<lambda>_. []" "[]" "[''py'']"] show ?thesis
    by (auto simp: py_Config_def empty_Config_def range_order_def)
qed

end
