(* ===== verification/ShimService.thy ===== *)
theory ShimService
  imports Filepath Sandbox ShimConfig
begin

text \<open>
  The containerd task service, \<open>pkg/shim/service.go\<close>, \<open>exec.go\<close> and the event part of \<open>events.go\<close>.
  Tasks and exec processes are pointers into two heaps, because a handler keeps its pointer across
  unlocked sections while the maps change under it. Every region under \<open>s.mu\<close> is one definition,
  and each RPC handler composes the regions in the order of the code; \<open>ShimThreads\<close> interleaves the
  same regions.
\<close>

section \<open>Data\<close>

text \<open>The statuses of \<open>task.Status\<close> that the service uses.\<close>

datatype Status = Status_CREATED | Status_RUNNING | Status_STOPPED

text \<open>
  What \<open>taskState\<close> and \<open>execState\<close> have in common: the status, the exit record (\<open>exitedAt\<close> is 0 for
  the zero \<open>time.Time\<close>) and the channels of the waiters.
\<close>

record latch =
  l_status :: Status
  l_exitStatus :: "32 word"
  l_exitedAt :: int
  l_waiters :: "nat list"

record 'w taskState = latch +
  ts_inst :: "'w Instance"
  ts_bundle :: string
  ts_execs :: "string \<rightharpoonup> nat"

record execState = latch +
  es_args :: "string list"
  es_stdout :: string
  es_stderr :: string

datatype event =
    TaskCreate string string "32 word"
  | TaskStart string "32 word"
  | TaskExit string string "32 word" "32 word" "int option"
  | TaskDelete string "32 word" "32 word" "int option"

definition TopicTaskCreate :: string where "TopicTaskCreate = ''/tasks/create''"
definition TopicTaskStart :: string where "TopicTaskStart = ''/tasks/start''"
definition TopicTaskExit :: string where "TopicTaskExit = ''/tasks/exit''"
definition TopicTaskDelete :: string where "TopicTaskDelete = ''/tasks/delete''"

text \<open>What a running exec writes: the bytes of the process, or the line that reports its error.\<close>

datatype chunk = Bytes string | ExecError err

text \<open>
  The service. \<open>svc_publisher\<close> gives the outcome of the \<open>n\<close>-th event that is forwarded (\<open>None\<close>: no
  publisher was set); \<open>svc_events\<close> are the forwarded events, \<open>svc_stderr\<close> the log lines of the shim,
  \<open>svc_written\<close> what the execs wrote to the output paths of containerd. Channels are numbers, and
  \<open>svc_closed\<close> those that were closed.
\<close>

record 'w Service =
  svc_mgr :: "'w Manager"
  svc_defaultDriver :: string
  svc_templates :: MapTemplates
  svc_pid :: "32 word"
  svc_publisher :: "(nat \<Rightarrow> err option) option"
  svc_onShutdown :: bool
  svc_tasks :: "string \<rightharpoonup> nat"
  svc_theap :: "nat \<rightharpoonup> 'w taskState"
  svc_eheap :: "nat \<rightharpoonup> execState"
  svc_tnext :: nat
  svc_enext :: nat
  svc_chnext :: nat
  svc_closed :: "nat set"
  svc_events :: "(string \<times> event) list"
  svc_stderr :: "(string \<times> string list \<times> err) list"
  svc_written :: "(string \<times> chunk list) list"
  svc_stopped :: bool

definition NewService ::
  "'w Manager \<Rightarrow> string \<Rightarrow> MapTemplates option \<Rightarrow> 32 word \<Rightarrow> 'w Service" where
  "NewService mgr defaultDriver templates pid =
     \<lparr>svc_mgr = mgr, svc_defaultDriver = defaultDriver,
      svc_templates = (case templates of None \<Rightarrow> Map.empty | Some t \<Rightarrow> t), svc_pid = pid,
      svc_publisher = None, svc_onShutdown = False, svc_tasks = Map.empty, svc_theap = Map.empty,
      svc_eheap = Map.empty, svc_tnext = 0, svc_enext = 0, svc_chnext = 0, svc_closed = {},
      svc_events = [], svc_stderr = [], svc_written = [], svc_stopped = False\<rparr>"

definition SetPublisher :: "(nat \<Rightarrow> err option) \<Rightarrow> 'w Service \<Rightarrow> 'w Service" where
  "SetPublisher p s = s\<lparr>svc_publisher := Some p\<rparr>"

definition SetShutdown :: "'w Service \<Rightarrow> 'w Service" where
  "SetShutdown s = s\<lparr>svc_onShutdown := True\<rparr>"

text \<open>
  The machine around the service: reading a file of the bundle, the two ways its JSON is decoded
  (\<open>None\<close>: \<open>Unmarshal\<close> failed), opening an output path, and the reading of \<open>time.Now\<close>.
\<close>

record shim_env =
  sh_ReadFile :: "string \<Rightarrow> string option"
  sh_annotations :: "string \<Rightarrow> (string \<rightharpoonup> string) option"
  sh_namespaces :: "string \<Rightarrow> (string \<times> string) list option"
  sh_open :: "string \<Rightarrow> err option"
  sh_now :: int

section \<open>Errors, times and events\<close>

definition errNotFound :: "string \<Rightarrow> err" where
  "errNotFound tid = StatusErr NotFound ''task %q not found'' [tid]"

definition errExecNotFound :: "string \<Rightarrow> err" where
  "errExecNotFound eid = StatusErr NotFound ''exec %q not found'' [eid]"

definition errUnimplemented :: "string \<Rightarrow> err" where
  "errUnimplemented op = StatusErr Unimplemented ''%s is not supported by the vessel shim yet'' [op]"

fun status_name :: "Status \<Rightarrow> string" where
  "status_name Status_CREATED = ''CREATED''"
| "status_name Status_RUNNING = ''RUNNING''"
| "status_name Status_STOPPED = ''STOPPED''"

definition tspb :: "int \<Rightarrow> int option" where
  "tspb t = (if t = 0 then None else Some t)"

definition publish :: "string \<Rightarrow> event \<Rightarrow> 'w Service \<Rightarrow> err option \<times> 'w Service" where
  "publish topic ev s =
     (case svc_publisher s of
        None \<Rightarrow> (None, s)
      | Some p \<Rightarrow> (p (length (svc_events s)), s\<lparr>svc_events := svc_events s @ [(topic, ev)]\<rparr>))"

definition logf :: "string \<Rightarrow> string list \<Rightarrow> err \<Rightarrow> 'w Service \<Rightarrow> 'w Service" where
  "logf fmt args e s = s\<lparr>svc_stderr := svc_stderr s @ [(fmt, args, e)]\<rparr>"

definition publishWarn :: "string \<Rightarrow> event \<Rightarrow> 'w Service \<Rightarrow> 'w Service" where
  "publishWarn topic ev s =
     (case publish topic ev s of
        (None, s') \<Rightarrow> s'
      | (Some e, s') \<Rightarrow> logf ''vessel-shim: publish %s: %v'' [topic] e s')"

definition publishTaskExit :: "string \<Rightarrow> 32 word \<Rightarrow> int \<Rightarrow> 'w Service \<Rightarrow> err option \<times> 'w Service" where
  "publishTaskExit tid code exitedAt s =
     publish TopicTaskExit (TaskExit tid tid (svc_pid s) code (Some exitedAt)) s"

section \<open>The OCI bundle\<close>

fun network_path :: "(string \<times> string) list \<Rightarrow> string" where
  "network_path [] = []"
| "network_path ((ty, path) # ns) = (if ty = ''network'' then path else network_path ns)"

definition bundleNetns :: "shim_env \<Rightarrow> string \<Rightarrow> string" where
  "bundleNetns env bundle =
     (if bundle = [] then []
      else case sh_ReadFile env (Join [bundle, ''config.json'']) of
             None \<Rightarrow> []
           | Some data \<Rightarrow>
               (case sh_namespaces env data of None \<Rightarrow> [] | Some ns \<Rightarrow> network_path ns))"

definition bundleAnnotation :: "shim_env \<Rightarrow> string \<Rightarrow> string \<Rightarrow> string" where
  "bundleAnnotation env bundle key =
     (if bundle = [] then []
      else case sh_ReadFile env (Join [bundle, ''config.json'']) of
             None \<Rightarrow> []
           | Some data \<Rightarrow>
               (case sh_annotations env data of
                  None \<Rightarrow> []
                | Some as \<Rightarrow> (case as key of None \<Rightarrow> [] | Some v \<Rightarrow> v)))"

definition TemplateAnnotation :: string where
  "TemplateAnnotation = ''vessel.dev/template''"

section \<open>The exit latch\<close>

text \<open>
  \<open>close\<close> of each waiter's channel, in order; \<open>None\<close> is the panic of closing a channel twice.
\<close>

fun close_chans :: "nat list \<Rightarrow> nat set \<Rightarrow> nat set option" where
  "close_chans [] cs = Some cs"
| "close_chans (ch # chs) cs = (if ch \<in> cs then None else close_chans chs (insert ch cs))"

definition latch_exit :: "32 word \<Rightarrow> int \<Rightarrow> ('a latch_scheme) \<Rightarrow> ('a latch_scheme)" where
  "latch_exit code now l =
     l\<lparr>l_status := Status_STOPPED, l_exitStatus := code, l_exitedAt := now, l_waiters := []\<rparr>"

text \<open>The sections under the lock in \<open>markExited\<close> and \<open>markExecExited\<close>: true if this call stopped it.\<close>

definition mark_task :: "nat \<Rightarrow> 32 word \<Rightarrow> int \<Rightarrow> 'w Service \<Rightarrow> bool res \<times> 'w Service" where
  "mark_task a code now s =
     (case svc_theap s a of
        None \<Rightarrow> (Panic, s)
      | Some ts \<Rightarrow>
          if l_status ts = Status_STOPPED then (Ok False, s)
          else (case close_chans (l_waiters ts) (svc_closed s) of
                  None \<Rightarrow> (Panic, s)
                | Some cs \<Rightarrow>
                    (Ok True, s\<lparr>svc_theap := (svc_theap s)(a \<mapsto> latch_exit code now ts), svc_closed := cs\<rparr>)))"

definition mark_exec :: "nat \<Rightarrow> 32 word \<Rightarrow> int \<Rightarrow> 'w Service \<Rightarrow> bool res \<times> 'w Service" where
  "mark_exec e code now s =
     (case svc_eheap s e of
        None \<Rightarrow> (Panic, s)
      | Some es \<Rightarrow>
          if l_status es = Status_STOPPED then (Ok False, s)
          else (case close_chans (l_waiters es) (svc_closed s) of
                  None \<Rightarrow> (Panic, s)
                | Some cs \<Rightarrow>
                    (Ok True, s\<lparr>svc_eheap := (svc_eheap s)(e \<mapsto> latch_exit code now es), svc_closed := cs\<rparr>)))"

definition log_exit :: "string \<Rightarrow> string list \<Rightarrow> err option \<times> 'w Service \<Rightarrow> 'w Service" where
  "log_exit fmt args r = (case r of (None, s) \<Rightarrow> s | (Some e, s) \<Rightarrow> logf fmt args e s)"

definition exit_event :: "string \<Rightarrow> 32 word \<Rightarrow> int \<Rightarrow> 'w Service \<Rightarrow> 'w Service" where
  "exit_event tid code now s =
     log_exit ''vessel-shim: publish TaskExit for %s: %v'' [tid] (publishTaskExit tid code now s)"

definition exec_exit_event :: "string \<Rightarrow> string \<Rightarrow> 32 word \<Rightarrow> int \<Rightarrow> 'w Service \<Rightarrow> 'w Service" where
  "exec_exit_event tid eid code now s =
     log_exit ''vessel-shim: publish TaskExit for %s/%s: %v'' [tid, eid]
       (publish TopicTaskExit (TaskExit tid eid (svc_pid s) code (tspb now)) s)"

definition markExited :: "string \<Rightarrow> nat \<Rightarrow> 32 word \<Rightarrow> int \<Rightarrow> 'w Service \<Rightarrow> unit res \<times> 'w Service" where
  "markExited tid a code now s =
     (case mark_task a code now s of
        (Ok True, s') \<Rightarrow> (Ok (), exit_event tid code now s')
      | (Ok False, s') \<Rightarrow> (Ok (), s')
      | (Err e, s') \<Rightarrow> (Err e, s')
      | (Panic, s') \<Rightarrow> (Panic, s'))"

definition markExecExited ::
  "string \<Rightarrow> string \<Rightarrow> nat \<Rightarrow> 32 word \<Rightarrow> int \<Rightarrow> 'w Service \<Rightarrow> unit res \<times> 'w Service" where
  "markExecExited tid eid e code now s =
     (case mark_exec e code now s of
        (Ok True, s') \<Rightarrow> (Ok (), exec_exit_event tid eid code now s')
      | (Ok False, s') \<Rightarrow> (Ok (), s')
      | (Err er, s') \<Rightarrow> (Err er, s')
      | (Panic, s') \<Rightarrow> (Panic, s'))"

section \<open>Task RPCs\<close>

record CreateTaskRequest =
  ct_ID :: string
  ct_Bundle :: string

record StateResponse =
  sr_ID :: string
  sr_Bundle :: string
  sr_Pid :: "32 word"
  sr_Status :: Status
  sr_Stdout :: string
  sr_Stderr :: string
  sr_ExitStatus :: "32 word"
  sr_ExitedAt :: "int option"
  sr_ExecID :: string

record ExitResponse =
  xr_Pid :: "32 word"
  xr_ExitStatus :: "32 word"
  xr_ExitedAt :: "int option"

definition alreadyExists :: "string \<Rightarrow> err" where
  "alreadyExists tid = StatusErr AlreadyExists ''task %q already exists'' [tid]"

text \<open>The first locked region of \<open>Create\<close> (with the test before it): the error, if any.\<close>

definition create_check :: "CreateTaskRequest \<Rightarrow> 'w Service \<Rightarrow> err option" where
  "create_check r s =
     (if ct_ID r = [] then Some (StatusErr InvalidArgument ''task id is required'' [])
      else if svc_tasks s (ct_ID r) \<noteq> None then Some (alreadyExists (ct_ID r))
      else None)"

text \<open>The unlocked middle of \<open>Create\<close>: restore from the template of the bundle, or boot.\<close>

definition create_spec :: "shim_env \<Rightarrow> CreateTaskRequest \<Rightarrow> Spec" where
  "create_spec env r = zero_Spec\<lparr>spec_Name := ct_ID r, spec_Rootfs := Join [ct_Bundle r, ''rootfs''],
     spec_Netns := bundleNetns env (ct_Bundle r)\<rparr>"

definition create_sandbox ::
  "shim_env \<Rightarrow> CreateTaskRequest \<Rightarrow> 'w Service \<Rightarrow> 'w \<Rightarrow> 'w Instance res \<times> 'w Service \<times> 'w" where
  "create_sandbox env r s w =
     (let tmplID = bundleAnnotation env (ct_Bundle r) TemplateAnnotation
      in if tmplID \<noteq> [] then
           (case Lookup (svc_templates s) tmplID of
              (driver, path, ok) \<Rightarrow>
                if \<not> ok then
                  (Err (StatusErr NotFound ''annotation %s=%q: template not registered with this shim''
                          [TemplateAnnotation, tmplID]), s, w)
                else
                  (case mgr_RestoreFrom (svc_mgr s) (if driver = [] then svc_defaultDriver s else driver)
                          path \<lparr>opts_Netns = bundleNetns env (ct_Bundle r)\<rparr> w of
                     (q, m, w') \<Rightarrow> (q, s\<lparr>svc_mgr := m\<rparr>, w')))
         else
           (case mgr_Create (svc_mgr s) (svc_defaultDriver s) (Some (create_spec env r)) w of
              (q, m, w') \<Rightarrow> (q, s\<lparr>svc_mgr := m\<rparr>, w')))"

text \<open>The second locked region: enter the task unless a concurrent \<open>Create\<close> was faster.\<close>

definition new_task :: "CreateTaskRequest \<Rightarrow> 'w Instance \<Rightarrow> 'w taskState" where
  "new_task r i = \<lparr>l_status = Status_CREATED, l_exitStatus = 0, l_exitedAt = 0, l_waiters = [],
     ts_inst = i, ts_bundle = ct_Bundle r, ts_execs = Map.empty\<rparr>"

definition create_insert ::
  "CreateTaskRequest \<Rightarrow> 'w Instance \<Rightarrow> 'w Service \<Rightarrow> bool \<times> 'w Service" where
  "create_insert r i s =
     (if svc_tasks s (ct_ID r) \<noteq> None then (False, s)
      else (True, s\<lparr>svc_theap := (svc_theap s)(svc_tnext s \<mapsto> new_task r i),
                    svc_tasks := (svc_tasks s)(ct_ID r \<mapsto> svc_tnext s),
                    svc_tnext := Suc (svc_tnext s)\<rparr>))"

definition create_event :: "CreateTaskRequest \<Rightarrow> 'w Service \<Rightarrow> 'w Service" where
  "create_event r s = publishWarn TopicTaskCreate (TaskCreate (ct_ID r) (ct_Bundle r) (svc_pid s)) s"

definition shim_Create ::
  "shim_env \<Rightarrow> CreateTaskRequest \<Rightarrow> 'w Service \<Rightarrow> 'w \<Rightarrow> 32 word res \<times> 'w Service \<times> 'w" where
  "shim_Create env r s w =
     (case create_check r s of
        Some e \<Rightarrow> (Err e, s, w)
      | None \<Rightarrow>
          (case create_sandbox env r s w of
             (Err e, s1, w1) \<Rightarrow> (Err e, s1, w1)
           | (Panic, s1, w1) \<Rightarrow> (Panic, s1, w1)
           | (Ok i, s1, w1) \<Rightarrow>
               (case create_insert r i s1 of
                  (True, s2) \<Rightarrow> (Ok (svc_pid s2), create_event r s2, w1)
                | (False, s2) \<Rightarrow>
                    (case inst_Stop i w1 of
                       (Panic, w2) \<Rightarrow> (Panic, s2, w2)
                     | (_, w2) \<Rightarrow> (Err (alreadyExists (ct_ID r)), s2, w2)))))"

text \<open>The task of an identifier, as each handler looks it up.\<close>

definition find_task :: "string \<Rightarrow> 'w Service \<Rightarrow> (nat \<times> 'w taskState) option" where
  "find_task tid s =
     (case svc_tasks s tid of
        None \<Rightarrow> None
      | Some a \<Rightarrow> (case svc_theap s a of None \<Rightarrow> None | Some ts \<Rightarrow> Some (a, ts)))"

definition start_task :: "string \<Rightarrow> 'w Service \<Rightarrow> 32 word res \<times> 'w Service" where
  "start_task tid s =
     (case find_task tid s of
        None \<Rightarrow> (Err (errNotFound tid), s)
      | Some (a, ts) \<Rightarrow>
          if l_status ts \<noteq> Status_CREATED then
            (Err (StatusErr FailedPrecondition ''task %q is %s, not created'' [tid, status_name (l_status ts)]), s)
          else
            (let s' = s\<lparr>svc_theap := (svc_theap s)(a \<mapsto> ts\<lparr>l_status := Status_RUNNING\<rparr>)\<rparr>
             in (Ok (svc_pid s'), publishWarn TopicTaskStart (TaskStart tid (svc_pid s')) s')))"

definition state_task :: "string \<Rightarrow> 'w Service \<Rightarrow> StateResponse res" where
  "state_task tid s =
     (case find_task tid s of
        None \<Rightarrow> Err (errNotFound tid)
      | Some (a, ts) \<Rightarrow>
          Ok \<lparr>sr_ID = tid, sr_Bundle = ts_bundle ts, sr_Pid = svc_pid s, sr_Status = l_status ts,
              sr_Stdout = [], sr_Stderr = [], sr_ExitStatus = l_exitStatus ts,
              sr_ExitedAt = tspb (l_exitedAt ts), sr_ExecID = []\<rparr>)"

definition kill_code :: "32 word \<Rightarrow> 32 word" where
  "kill_code sig = 128 + (if sig = 0 then 9 else sig)"

definition kill_task ::
  "shim_env \<Rightarrow> string \<Rightarrow> 32 word \<Rightarrow> 'w Service \<Rightarrow> 'w \<Rightarrow> unit res \<times> 'w Service \<times> 'w" where
  "kill_task env tid sig s w =
     (case find_task tid s of
        None \<Rightarrow> (Err (errNotFound tid), s, w)
      | Some (a, ts) \<Rightarrow>
          (case inst_Stop (ts_inst ts) w of
             (Panic, w') \<Rightarrow> (Panic, s, w')
           | (_, w') \<Rightarrow>
               (case markExited tid a (kill_code sig) (sh_now env) s of (q, s') \<Rightarrow> (q, s', w'))))"

text \<open>The last locked region of \<open>Delete\<close>: drop the map entry, read the exit record.\<close>

definition delete_remove :: "string \<Rightarrow> nat \<Rightarrow> 'w Service \<Rightarrow> (32 word \<times> int) res \<times> 'w Service" where
  "delete_remove tid a s =
     (let s' = s\<lparr>svc_tasks := (svc_tasks s)(tid := None)\<rparr>
      in case svc_theap s' a of
           None \<Rightarrow> (Panic, s')
         | Some ts \<Rightarrow> (Ok (l_exitStatus ts, l_exitedAt ts), s'))"

definition exit_response :: "'w Service \<Rightarrow> 32 word \<Rightarrow> int \<Rightarrow> ExitResponse" where
  "exit_response s code t = \<lparr>xr_Pid = svc_pid s, xr_ExitStatus = code, xr_ExitedAt = tspb t\<rparr>"

definition delete_event :: "string \<Rightarrow> 32 word \<Rightarrow> int \<Rightarrow> 'w Service \<Rightarrow> 'w Service" where
  "delete_event tid code t s = publishWarn TopicTaskDelete (TaskDelete tid (svc_pid s) code (tspb t)) s"

definition delete_task ::
  "shim_env \<Rightarrow> string \<Rightarrow> 'w Service \<Rightarrow> 'w \<Rightarrow> ExitResponse res \<times> 'w Service \<times> 'w" where
  "delete_task env tid s w =
     (case find_task tid s of
        None \<Rightarrow> (Err (errNotFound tid), s, w)
      | Some (a, ts) \<Rightarrow>
          (case inst_Stop (ts_inst ts) w of
             (Panic, w1) \<Rightarrow> (Panic, s, w1)
           | (_, w1) \<Rightarrow>
               (case markExited tid a 0 (sh_now env) s of
                  (Panic, s1) \<Rightarrow> (Panic, s1, w1)
                | (_, s1) \<Rightarrow>
                    (case delete_remove tid a s1 of
                       (Ok (code, t), s2) \<Rightarrow> (Ok (exit_response s2 code t), delete_event tid code t s2, w1)
                     | (Err e, s2) \<Rightarrow> (Err e, s2, w1)
                     | (Panic, s2) \<Rightarrow> (Panic, s2, w1)))))"

text \<open>
  \<open>Wait\<close>: the first locked region answers at once or registers a channel, on which the handler then
  selects together with its context; the last region reads the exit record.
\<close>

datatype wait_result = WaitDone ExitResponse | WaitErr err | WaitOn nat nat

definition wait_response :: "32 word \<Rightarrow> int \<Rightarrow> ExitResponse" where
  "wait_response code t = \<lparr>xr_Pid = 0, xr_ExitStatus = code, xr_ExitedAt = tspb t\<rparr>"

definition add_waiter :: "nat \<Rightarrow> ('a latch_scheme) \<Rightarrow> ('a latch_scheme)" where
  "add_waiter ch l = l\<lparr>l_waiters := l_waiters l @ [ch]\<rparr>"

definition wait_task :: "string \<Rightarrow> 'w Service \<Rightarrow> wait_result \<times> 'w Service" where
  "wait_task tid s =
     (case find_task tid s of
        None \<Rightarrow> (WaitErr (errNotFound tid), s)
      | Some (a, ts) \<Rightarrow>
          if l_status ts = Status_STOPPED then (WaitDone (wait_response (l_exitStatus ts) (l_exitedAt ts)), s)
          else (WaitOn a (svc_chnext s),
                s\<lparr>svc_theap := (svc_theap s)(a \<mapsto> add_waiter (svc_chnext s) ts),
                  svc_chnext := Suc (svc_chnext s)\<rparr>))"

definition wait_task_read :: "nat \<Rightarrow> 'w Service \<Rightarrow> ExitResponse res" where
  "wait_task_read a s =
     (case svc_theap s a of
        None \<Rightarrow> Panic
      | Some ts \<Rightarrow> Ok (wait_response (l_exitStatus ts) (l_exitedAt ts)))"

definition shim_Pids :: "string \<Rightarrow> 'w Service \<Rightarrow> 32 word list res" where
  "shim_Pids tid s = (if svc_tasks s tid = None then Err (errNotFound tid) else Ok [svc_pid s])"

definition shim_Connect :: "'w Service \<Rightarrow> 32 word \<times> 32 word" where
  "shim_Connect s = (svc_pid s, svc_pid s)"

text \<open>\<open>len(s.tasks) == 0\<close>.\<close>

definition shim_Shutdown :: "'w Service \<Rightarrow> 'w Service" where
  "shim_Shutdown s =
     (let idle_now = (card (dom (svc_tasks s)) = 0)
      in if idle_now \<and> svc_onShutdown s then s\<lparr>svc_stopped := True\<rparr> else s)"

definition shim_Stats :: "string \<Rightarrow> 'w Service \<Rightarrow> unit res" where
  "shim_Stats tid s = (if svc_tasks s tid = None then Err (errNotFound tid) else Ok ())"

definition ResizePty :: "unit res" where "ResizePty = Err (errUnimplemented ''ResizePty'')"
definition CloseIO :: "unit res" where "CloseIO = Err (errUnimplemented ''CloseIO'')"
definition Pause :: "unit res" where "Pause = Err (errUnimplemented ''Pause'')"
definition Resume :: "unit res" where "Resume = Err (errUnimplemented ''Resume'')"
definition Checkpoint :: "unit res" where "Checkpoint = Err (errUnimplemented ''Checkpoint'')"
definition Update :: "unit res" where "Update = Err (errUnimplemented ''Update'')"

section \<open>Exec processes\<close>

record processSpec =
  pspec_Terminal :: bool
  pspec_Args :: "string list"
  pspec_Env :: "string list"
  pspec_Cwd :: string

text \<open>\<open>er_Spec\<close>: nil, the error of \<open>Unmarshal\<close>, or the decoded process spec.\<close>

record ExecProcessRequest =
  er_ID :: string
  er_ExecID :: string
  er_Spec :: "(err + processSpec) option"
  er_Terminal :: bool
  er_Stdin :: string
  er_Stdout :: string
  er_Stderr :: string

definition exec_validate :: "ExecProcessRequest \<Rightarrow> err + processSpec" where
  "exec_validate r =
     (if er_ExecID r = [] then Inl (StatusErr InvalidArgument ''exec id is required'' [])
      else case er_Spec r of
             None \<Rightarrow> Inl (StatusErr InvalidArgument ''process spec is required'' [])
           | Some (Inl e) \<Rightarrow> Inl (StatusErr InvalidArgument ''parse process spec: %v'' [])
           | Some (Inr spec) \<Rightarrow>
               if er_Terminal r \<or> pspec_Terminal spec then
                 Inl (StatusErr Unimplemented
                   ''terminal exec is not supported yet (needs streaming pty plumbing)'' [])
               else if length (pspec_Args spec) = 0 then
                 Inl (StatusErr InvalidArgument ''process spec has no args'' [])
               else if er_Stdin r \<noteq> [] then
                 Inl (StatusErr Unimplemented ''exec stdin is not supported yet'' [])
               else Inr spec)"

definition new_exec :: "ExecProcessRequest \<Rightarrow> processSpec \<Rightarrow> execState" where
  "new_exec r spec = \<lparr>l_status = Status_CREATED, l_exitStatus = 0, l_exitedAt = 0, l_waiters = [],
     es_args = pspec_Args spec, es_stdout = er_Stdout r, es_stderr = er_Stderr r\<rparr>"

definition shim_Exec :: "ExecProcessRequest \<Rightarrow> 'w Service \<Rightarrow> unit res \<times> 'w Service" where
  "shim_Exec r s =
     (case exec_validate r of
        Inl e \<Rightarrow> (Err e, s)
      | Inr spec \<Rightarrow>
          (case find_task (er_ID r) s of
             None \<Rightarrow> (Err (errNotFound (er_ID r)), s)
           | Some (a, ts) \<Rightarrow>
               if l_status ts \<noteq> Status_RUNNING then
                 (Err (StatusErr FailedPrecondition ''task %q is %s, not running''
                         [er_ID r, status_name (l_status ts)]), s)
               else if ts_execs ts (er_ExecID r) \<noteq> None then
                 (Err (StatusErr AlreadyExists ''exec %q already exists'' [er_ExecID r]), s)
               else
                 (Ok (), s\<lparr>svc_eheap := (svc_eheap s)(svc_enext s \<mapsto> new_exec r spec),
                    svc_theap := (svc_theap s)(a \<mapsto> ts\<lparr>ts_execs := (ts_execs ts)(er_ExecID r \<mapsto> svc_enext s)\<rparr>),
                    svc_enext := Suc (svc_enext s)\<rparr>)))"

text \<open>The exec of an identifier: the error of the lookup, or task, pointer and state.\<close>

definition find_exec ::
  "string \<Rightarrow> string \<Rightarrow> 'w Service \<Rightarrow> err + ((nat \<times> 'w taskState) \<times> nat \<times> execState)" where
  "find_exec tid eid s =
     (case find_task tid s of
        None \<Rightarrow> Inl (errNotFound tid)
      | Some (a, ts) \<Rightarrow>
          (case ts_execs ts eid of
             None \<Rightarrow> Inl (errExecNotFound eid)
           | Some e \<Rightarrow>
               (case svc_eheap s e of
                  None \<Rightarrow> Inl (errExecNotFound eid)
                | Some es \<Rightarrow> Inr ((a, ts), e, es))))"

text \<open>
  \<open>startExec\<close>: the locked region marks the exec running and hands the job to a goroutine, which gets
  the instance, the arguments and the output paths that were read under the lock.
\<close>

record 'w exec_job =
  job_task :: string
  job_exec :: string
  job_ptr :: nat
  job_inst :: "'w Instance"
  job_args :: "string list"
  job_stdout :: string
  job_stderr :: string

definition exec_begin :: "string \<Rightarrow> string \<Rightarrow> 'w Service \<Rightarrow> (32 word \<times> 'w exec_job) res \<times> 'w Service" where
  "exec_begin tid eid s =
     (case find_exec tid eid s of
        Inl e \<Rightarrow> (Err e, s)
      | Inr ((a, ts), e, es) \<Rightarrow>
          if l_status es \<noteq> Status_CREATED then
            (Err (StatusErr FailedPrecondition ''exec %q is %s, not created'' [eid, status_name (l_status es)]), s)
          else
            (Ok (svc_pid s, \<lparr>job_task = tid, job_exec = eid, job_ptr = e, job_inst = ts_inst ts,
                 job_args = es_args es, job_stdout = es_stdout es, job_stderr = es_stderr es\<rparr>),
             s\<lparr>svc_eheap := (svc_eheap s)(e \<mapsto> es\<lparr>l_status := Status_RUNNING\<rparr>)\<rparr>))"

text \<open>An empty path, or one that cannot be opened (which is logged), discards the output.\<close>

definition openOutput :: "shim_env \<Rightarrow> string \<Rightarrow> 'w Service \<Rightarrow> string option \<times> 'w Service" where
  "openOutput env path s =
     (if path = [] then (None, s)
      else case sh_open env path of
             Some e \<Rightarrow> (None, logf ''vessel-shim: open exec output %s: %v'' [path] e s)
           | None \<Rightarrow> (Some path, s))"

definition write_out :: "string option \<Rightarrow> chunk list \<Rightarrow> 'w Service \<Rightarrow> 'w Service" where
  "write_out f cs s = (case f of None \<Rightarrow> s | Some path \<Rightarrow> s\<lparr>svc_written := svc_written s @ [(path, cs)]\<rparr>)"

text \<open>The goroutine up to the call of \<open>markExecExited\<close>; the result is the exit code it will record.\<close>

definition exec_run ::
  "shim_env \<Rightarrow> 'w exec_job \<Rightarrow> 'w Service \<Rightarrow> 'w \<Rightarrow> 32 word res \<times> 'w Service \<times> 'w" where
  "exec_run env j s w =
     (let (stdout, s1) = openOutput env (job_stdout j) s;
          (stderr, s2) = openOutput env (job_stderr j) s1
      in case inst_Exec (job_inst j) (job_args j) w of
           (Panic, out, errout, w') \<Rightarrow> (Panic, s2, w')
         | (Err e, out, errout, w') \<Rightarrow>
             (Ok (word_of_int 255),
              write_out stderr [Bytes errout, ExecError e] (write_out stdout [Bytes out] s2), w')
         | (Ok code, out, errout, w') \<Rightarrow>
             (Ok (word_of_int code), write_out stderr [Bytes errout] (write_out stdout [Bytes out] s2), w'))"

definition exec_goroutine ::
  "shim_env \<Rightarrow> 'w exec_job \<Rightarrow> 'w Service \<Rightarrow> 'w \<Rightarrow> unit res \<times> 'w Service \<times> 'w" where
  "exec_goroutine env j s w =
     (case exec_run env j s w of
        (Ok code, s1, w1) \<Rightarrow>
          (case markExecExited (job_task j) (job_exec j) (job_ptr j) code (sh_now env) s1 of
             (q, s2) \<Rightarrow> (q, s2, w1))
      | (Err e, s1, w1) \<Rightarrow> (Err e, s1, w1)
      | (Panic, s1, w1) \<Rightarrow> (Panic, s1, w1))"

definition execState_of :: "string \<Rightarrow> string \<Rightarrow> 'w Service \<Rightarrow> StateResponse res" where
  "execState_of tid eid s =
     (case find_exec tid eid s of
        Inl e \<Rightarrow> Err e
      | Inr ((a, ts), e, es) \<Rightarrow>
          Ok \<lparr>sr_ID = eid, sr_Bundle = ts_bundle ts, sr_Pid = svc_pid s, sr_Status = l_status es,
              sr_Stdout = es_stdout es, sr_Stderr = es_stderr es, sr_ExitStatus = l_exitStatus es,
              sr_ExitedAt = tspb (l_exitedAt es), sr_ExecID = eid\<rparr>)"

definition wait_exec :: "string \<Rightarrow> string \<Rightarrow> 'w Service \<Rightarrow> wait_result \<times> 'w Service" where
  "wait_exec tid eid s =
     (case find_exec tid eid s of
        Inl e \<Rightarrow> (WaitErr e, s)
      | Inr ((a, ts), e, es) \<Rightarrow>
          if l_status es = Status_STOPPED then (WaitDone (wait_response (l_exitStatus es) (l_exitedAt es)), s)
          else (WaitOn e (svc_chnext s),
                s\<lparr>svc_eheap := (svc_eheap s)(e \<mapsto> add_waiter (svc_chnext s) es),
                  svc_chnext := Suc (svc_chnext s)\<rparr>))"

definition wait_exec_read :: "nat \<Rightarrow> 'w Service \<Rightarrow> ExitResponse res" where
  "wait_exec_read e s =
     (case svc_eheap s e of
        None \<Rightarrow> Panic
      | Some es \<Rightarrow> Ok (wait_response (l_exitStatus es) (l_exitedAt es)))"

definition deleteExec :: "string \<Rightarrow> string \<Rightarrow> 'w Service \<Rightarrow> ExitResponse res \<times> 'w Service" where
  "deleteExec tid eid s =
     (case find_exec tid eid s of
        Inl e \<Rightarrow> (Err e, s)
      | Inr ((a, ts), e, es) \<Rightarrow>
          if l_status es = Status_RUNNING then
            (Err (StatusErr FailedPrecondition ''exec %q is still running'' [eid]), s)
          else
            (Ok (exit_response s (l_exitStatus es) (l_exitedAt es)),
             s\<lparr>svc_theap := (svc_theap s)(a \<mapsto> ts\<lparr>ts_execs := (ts_execs ts)(eid := None)\<rparr>)\<rparr>))"

definition killExec :: "string \<Rightarrow> string \<Rightarrow> 'w Service \<Rightarrow> unit res" where
  "killExec tid eid s =
     (case find_exec tid eid s of
        Inl e \<Rightarrow> Err e
      | Inr x \<Rightarrow> Err (StatusErr Unimplemented
          ''signalling an exec process inside the guest is not supported yet'' []))"

section \<open>RPCs that serve both\<close>

text \<open>A request with an exec id is about the exec, one without about the task.\<close>

definition shim_Start ::
  "string \<Rightarrow> string \<Rightarrow> 'w Service \<Rightarrow> 32 word res \<times> 'w exec_job option \<times> 'w Service" where
  "shim_Start tid eid s =
     (if eid \<noteq> [] then
        (case exec_begin tid eid s of
           (Ok (pid, j), s') \<Rightarrow> (Ok pid, Some j, s')
         | (Err e, s') \<Rightarrow> (Err e, None, s')
         | (Panic, s') \<Rightarrow> (Panic, None, s'))
      else (case start_task tid s of (q, s') \<Rightarrow> (q, None, s')))"

definition shim_State :: "string \<Rightarrow> string \<Rightarrow> 'w Service \<Rightarrow> StateResponse res" where
  "shim_State tid eid s = (if eid \<noteq> [] then execState_of tid eid s else state_task tid s)"

definition shim_Kill ::
  "shim_env \<Rightarrow> string \<Rightarrow> string \<Rightarrow> 32 word \<Rightarrow> 'w Service \<Rightarrow> 'w \<Rightarrow> unit res \<times> 'w Service \<times> 'w" where
  "shim_Kill env tid eid sig s w =
     (if eid \<noteq> [] then (killExec tid eid s, s, w) else kill_task env tid sig s w)"

definition shim_Delete ::
  "shim_env \<Rightarrow> string \<Rightarrow> string \<Rightarrow> 'w Service \<Rightarrow> 'w \<Rightarrow> ExitResponse res \<times> 'w Service \<times> 'w" where
  "shim_Delete env tid eid s w =
     (if eid \<noteq> [] then (case deleteExec tid eid s of (q, s') \<Rightarrow> (q, s', w))
      else delete_task env tid s w)"

definition shim_Wait :: "string \<Rightarrow> string \<Rightarrow> 'w Service \<Rightarrow> wait_result \<times> 'w Service" where
  "shim_Wait tid eid s = (if eid \<noteq> [] then wait_exec tid eid s else wait_task tid s)"

end
