(* ===== verification/ExitLatch.thy ===== *)
theory ExitLatch
  imports ShimService
begin

text \<open>
  The contract of the exit latch. \<open>latch_sys\<close> is its specification: a table of latches over any kind
  of key, the channels closed so far and the next fresh one; \<open>lstep\<close> are its moves and \<open>linv\<close> its
  invariant. The locale \<open>exit_latch\<close> says what an implementation has to offer, and is interpreted
  twice, on the sections of the code for tasks and for exec processes.
\<close>

section \<open>The order of the states\<close>

fun rank :: "Status \<Rightarrow> nat" where
  "rank Status_CREATED = 0"
| "rank Status_RUNNING = 1"
| "rank Status_STOPPED = 2"

instantiation Status :: linorder
begin

definition less_eq_Status :: "Status \<Rightarrow> Status \<Rightarrow> bool" where
  "less_eq_Status a b \<longleftrightarrow> rank a \<le> rank b"

definition less_Status :: "Status \<Rightarrow> Status \<Rightarrow> bool" where
  "less_Status a b \<longleftrightarrow> rank a < rank b"

instance
proof
  fix a b :: Status
  show "a \<le> b \<Longrightarrow> b \<le> a \<Longrightarrow> a = b"
    by (cases a; cases b) (simp_all add: less_eq_Status_def)
qed (auto simp: less_eq_Status_def less_Status_def)

end

lemma Status_order [simp]: "Status_CREATED \<le> st" "st \<le> Status_STOPPED" "Status_RUNNING \<le> st \<longleftrightarrow> st \<noteq> Status_CREATED"
  by (cases st; simp add: less_eq_Status_def)+

section \<open>The specification\<close>

record 'k latch_sys =
  ls_latch :: "'k \<rightharpoonup> latch"
  ls_closed :: "nat set"
  ls_next :: nat

definition fresh_latch :: latch where
  "fresh_latch = \<lparr>l_status = Status_CREATED, l_exitStatus = 0, l_exitedAt = 0, l_waiters = []\<rparr>"

definition ls_set :: "'k \<Rightarrow> latch \<Rightarrow> 'k latch_sys \<Rightarrow> 'k latch_sys" where
  "ls_set k l s = s\<lparr>ls_latch := (ls_latch s)(k \<mapsto> l)\<rparr>"

inductive lstep :: "'k latch_sys \<Rightarrow> 'k latch_sys \<Rightarrow> bool" where
  skip: "lstep s s"
| new: "ls_latch s k = None \<Longrightarrow> lstep s (ls_set k fresh_latch s)"
| start: "ls_latch s k = Some l \<Longrightarrow> l_status l = Status_CREATED \<Longrightarrow>
    lstep s (ls_set k (l\<lparr>l_status := Status_RUNNING\<rparr>) s)"
| exit: "ls_latch s k = Some l \<Longrightarrow> l_status l \<noteq> Status_STOPPED \<Longrightarrow>
    lstep s (ls_set k (latch_exit code now l) s\<lparr>ls_closed := ls_closed s \<union> set (l_waiters l)\<rparr>)"
| enter: "ls_latch s k = Some l \<Longrightarrow> l_status l \<noteq> Status_STOPPED \<Longrightarrow>
    lstep s (ls_set k (add_waiter (ls_next s) l) s\<lparr>ls_next := Suc (ls_next s)\<rparr>)"

text \<open>The moves that record no exit.\<close>

inductive lquiet :: "'k latch_sys \<Rightarrow> 'k latch_sys \<Rightarrow> bool" where
  skip: "lquiet s s"
| new: "ls_latch s k = None \<Longrightarrow> lquiet s (ls_set k fresh_latch s)"
| start: "ls_latch s k = Some l \<Longrightarrow> l_status l = Status_CREATED \<Longrightarrow>
    lquiet s (ls_set k (l\<lparr>l_status := Status_RUNNING\<rparr>) s)"
| enter: "ls_latch s k = Some l \<Longrightarrow> l_status l \<noteq> Status_STOPPED \<Longrightarrow>
    lquiet s (ls_set k (add_waiter (ls_next s) l) s\<lparr>ls_next := Suc (ls_next s)\<rparr>)"

inductive_cases lstepE: "lstep s s'"
inductive_cases lquietE: "lquiet s s'"

lemma lquiet_lstep: "lquiet s s' \<Longrightarrow> lstep s s'"
  by (induction rule: lquiet.induct) (auto intro: lstep.intros)

definition linv :: "'k latch_sys \<Rightarrow> bool" where
  "linv s \<longleftrightarrow>
     (\<forall>k l. ls_latch s k = Some l \<longrightarrow>
        distinct (l_waiters l) \<and> set (l_waiters l) \<inter> ls_closed s = {} \<and>
        (\<forall>ch \<in> set (l_waiters l). ch < ls_next s) \<and>
        (l_status l = Status_STOPPED \<longrightarrow> l_waiters l = [])) \<and>
     (\<forall>k k' l l'. k \<noteq> k' \<longrightarrow> ls_latch s k = Some l \<longrightarrow> ls_latch s k' = Some l' \<longrightarrow>
        set (l_waiters l) \<inter> set (l_waiters l') = {}) \<and>
     (\<forall>ch \<in> ls_closed s. ch < ls_next s)"

lemma linvD:
  assumes "linv s"
  shows "\<And>k l. ls_latch s k = Some l \<Longrightarrow> distinct (l_waiters l)"
    "\<And>k l ch. ls_latch s k = Some l \<Longrightarrow> ch \<in> set (l_waiters l) \<Longrightarrow> ch \<notin> ls_closed s \<and> ch < ls_next s"
    "\<And>k l. ls_latch s k = Some l \<Longrightarrow> l_status l = Status_STOPPED \<Longrightarrow> l_waiters l = []"
    "\<And>k k' l l' ch. ls_latch s k = Some l \<Longrightarrow> ls_latch s k' = Some l' \<Longrightarrow> ch \<in> set (l_waiters l) \<Longrightarrow>
       ch \<in> set (l_waiters l') \<Longrightarrow> k = k'"
    "\<And>ch. ch \<in> ls_closed s \<Longrightarrow> ch < ls_next s"
  using assms unfolding linv_def by (blast+)

lemma ls_set_sel [simp]:
  "ls_latch (ls_set k l s) = (ls_latch s)(k \<mapsto> l)" "ls_closed (ls_set k l s) = ls_closed s"
  "ls_next (ls_set k l s) = ls_next s"
  by (simp_all add: ls_set_def)

lemma latch_exit_sel [simp]:
  "l_status (latch_exit c t l) = Status_STOPPED" "l_waiters (latch_exit c t l) = []"
  "l_exitStatus (latch_exit c t l) = c" "l_exitedAt (latch_exit c t l) = t"
  by (simp_all add: latch_exit_def)

lemma add_waiter_sel [simp]:
  "l_status (add_waiter ch l) = l_status l" "l_waiters (add_waiter ch l) = l_waiters l @ [ch]"
  "l_exitStatus (add_waiter ch l) = l_exitStatus l" "l_exitedAt (add_waiter ch l) = l_exitedAt l"
  by (simp_all add: add_waiter_def)

text \<open>Changing one latch: the waiters it had may be closed, the ones it gets are fresh.\<close>

lemma linv_update:
  assumes inv: "linv s" and l: "ls_latch s k = Some l"
    and w': "distinct (l_waiters l')" "set (l_waiters l') \<inter> C = {}"
      "set (l_waiters l') \<subseteq> set (l_waiters l) \<union> {ls_next s ..< n}"
      "l_status l' = Status_STOPPED \<Longrightarrow> l_waiters l' = []"
    and C: "C \<subseteq> ls_closed s \<union> set (l_waiters l)" and n: "ls_next s \<le> n"
  shows "linv (ls_set k l' s\<lparr>ls_closed := C, ls_next := n\<rparr>)"
proof -
  note I = linvD [OF inv]
  have lt: "ch \<in> set (l_waiters l) \<Longrightarrow> ch < n" for ch using I(2) [OF l] n by fastforce
  have own: "ch \<in> set (l_waiters l') \<Longrightarrow> ch < n" for ch using w'(3) lt by auto
  have other: "ch \<notin> C \<and> ch < n \<and> ch \<notin> set (l_waiters l')"
    if "ls_latch s j = Some m" "j \<noteq> k" "ch \<in> set (l_waiters m)" for j m ch
    using I(2) [OF that(1,3)] I(4) [OF that(1) l that(3)] that(2) C w'(3) n by auto
  have "ch \<in> C \<Longrightarrow> ch < n" for ch using C I(5) lt n by fastforce
  with w' own other I(1,3,4) show ?thesis
    by (auto simp: linv_def disjoint_iff; metis)
qed

lemma linv_new:
  assumes "linv s" "ls_latch s k = None"
  shows "linv (ls_set k fresh_latch s)"
  using assms by (auto simp: linv_def fresh_latch_def)

lemma linv_step:
  assumes "lstep s s'" "linv s"
  shows "linv s'"
  using assms(1)
proof cases
  case (start k l)
  have "set (l_waiters l) \<inter> ls_closed s = {}" using linvD(2) [OF assms(2) start(2)] by auto
  with start show ?thesis
    using linv_update [OF assms(2), of k l "l\<lparr>l_status := Status_RUNNING\<rparr>" "ls_closed s" "ls_next s"]
      linvD(1) [OF assms(2)] by (auto simp: ls_set_def)
next
  case (exit k l code now)
  then show ?thesis
    using linv_update [OF assms(2), of k l "latch_exit code now l" "ls_closed s \<union> set (l_waiters l)"
        "ls_next s"] by (simp add: ls_set_def)
next
  case (enter k l)
  note I = linvD(1,2,5) [OF assms(2)]
  have "ls_next s \<notin> set (l_waiters l)" "ls_next s \<notin> ls_closed s"
    using I(2) [OF enter(2)] I(3) by blast+
  then show ?thesis
    using enter linv_update [OF assms(2), of k l "add_waiter (ls_next s) l" "ls_closed s"
        "Suc (ls_next s)"] I(1,2) by (auto simp: ls_set_def disjoint_iff)
qed (use assms(2) linv_new in auto)

text \<open>A stopped latch never changes again, a latch never disappears, and the status only advances.\<close>

lemma lstep_stopped:
  "lstep s s' \<Longrightarrow> ls_latch s k = Some l \<Longrightarrow> l_status l = Status_STOPPED \<Longrightarrow> ls_latch s' k = Some l"
  by (erule lstepE) (auto split: if_splits)

lemma lstep_advances:
  "lstep s s' \<Longrightarrow> ls_latch s k = Some l \<Longrightarrow>
   \<exists>l'. ls_latch s' k = Some l' \<and> l_status l \<le> l_status l'"
  by (erule lstepE) auto

definition stopped_keys :: "'k latch_sys \<Rightarrow> 'k set" where
  "stopped_keys s = {k. \<exists>l. ls_latch s k = Some l \<and> l_status l = Status_STOPPED}"

lemma lquiet_stopped: "lquiet s s' \<Longrightarrow> stopped_keys s' = stopped_keys s"
  by (erule lquietE) (auto simp: stopped_keys_def fresh_latch_def)

text \<open>
  A waiter on channel \<open>ch\<close> of latch \<open>k\<close> is either still registered, or its channel is closed and the
  latch has stopped. Every step keeps this, so a waiter on a stopped latch can always go on.
\<close>

definition waiting :: "'k \<Rightarrow> nat \<Rightarrow> 'k latch_sys \<Rightarrow> bool" where
  "waiting k ch s \<longleftrightarrow> (\<exists>l. ls_latch s k = Some l \<and>
     (ch \<in> set (l_waiters l) \<or> ch \<in> ls_closed s \<and> l_status l = Status_STOPPED))"

lemma waiting_step: "lstep s s' \<Longrightarrow> waiting k ch s \<Longrightarrow> waiting k ch s'"
  by (erule lstepE) (auto simp: waiting_def split: if_splits)

lemma waiting_closed_iff:
  assumes "linv s" "waiting k ch s" "ls_latch s k = Some l"
  shows "ch \<in> ls_closed s \<longleftrightarrow> l_status l = Status_STOPPED"
  using assms linvD(2,3) [OF assms(1) assms(3)] by (auto simp: waiting_def)

lemma close_chans_Some:
  "distinct chs \<Longrightarrow> set chs \<inter> cs = {} \<Longrightarrow> close_chans chs cs = Some (cs \<union> set chs)"
  by (induction chs arbitrary: cs) auto

lemma linv_close:
  assumes "linv s" "ls_latch s k = Some l"
  shows "close_chans (l_waiters l) (ls_closed s) = Some (ls_closed s \<union> set (l_waiters l))"
  using linvD(1,2) [OF assms] by (intro close_chans_Some) auto

section \<open>What an implementation offers\<close>

text \<open>
  \<open>abs\<close> reads a latch system out of the implementation's state; \<open>mark\<close> is the exit section, \<open>await\<close>
  the registration section (which finds the latch by its own kind of identifier), \<open>look\<close> the read of
  the exit record after waking up.
\<close>

locale exit_latch =
  fixes abs :: "'s \<Rightarrow> 'k latch_sys"
    and key :: "nat \<Rightarrow> 'k"
    and mark :: "nat \<Rightarrow> 32 word \<Rightarrow> int \<Rightarrow> 's \<Rightarrow> bool res \<times> 's"
    and await :: "'x \<Rightarrow> 's \<Rightarrow> wait_result \<times> 's"
    and look :: "nat \<Rightarrow> 's \<Rightarrow> ExitResponse res"
  assumes mark_stopped: "ls_latch (abs s) (key p) = Some l \<Longrightarrow> l_status l = Status_STOPPED \<Longrightarrow>
      mark p code now s = (Ok False, s)"
    and mark_live: "ls_latch (abs s) (key p) = Some l \<Longrightarrow> l_status l \<noteq> Status_STOPPED \<Longrightarrow>
      close_chans (l_waiters l) (ls_closed (abs s)) = Some cs \<Longrightarrow>
      fst (mark p code now s) = Ok True \<and>
      abs (snd (mark p code now s)) = ls_set (key p) (latch_exit code now l) (abs s)\<lparr>ls_closed := cs\<rparr>"
    and mark_panic: "fst (mark p code now s) \<noteq> Ok True \<Longrightarrow> snd (mark p code now s) = s"
    and await_on: "await x s = (WaitOn p ch, s') \<Longrightarrow>
      ch = ls_next (abs s) \<and> (\<exists>l. ls_latch (abs s) (key p) = Some l \<and> l_status l \<noteq> Status_STOPPED \<and>
        abs s' = ls_set (key p) (add_waiter ch l) (abs s)\<lparr>ls_next := Suc ch\<rparr>)"
    and await_done: "await x s = (r, s') \<Longrightarrow> (\<forall>p ch. r \<noteq> WaitOn p ch) \<Longrightarrow> s' = s"
    and look_read: "ls_latch (abs s) (key p) = Some l \<Longrightarrow>
      look p s = Ok (wait_response (l_exitStatus l) (l_exitedAt l))"
begin

lemma mark_result:
  assumes "linv (abs s)" "ls_latch (abs s) (key p) = Some l"
  shows "mark p code now s =
     (Ok (l_status l \<noteq> Status_STOPPED), snd (mark p code now s))"
  using assms mark_stopped [OF assms(2)] mark_live [OF assms(2) _ linv_close [OF assms]]
  by (cases "l_status l = Status_STOPPED") (auto simp: prod_eq_iff)

lemma mark_step:
  assumes "linv (abs s)" "ls_latch (abs s) (key p) = Some l"
  shows "lstep (abs s) (abs (snd (mark p code now s)))"
proof (cases "l_status l = Status_STOPPED")
  case True
  then show ?thesis using mark_stopped [OF assms(2)] by (simp add: lstep.skip)
next
  case False
  then show ?thesis
    using mark_live [OF assms(2) False linv_close [OF assms]] lstep.exit [OF assms(2) False] by simp
qed

lemma mark_stops:
  assumes "linv (abs s)" "ls_latch (abs s) (key p) = Some l"
  shows "\<exists>l'. ls_latch (abs (snd (mark p code now s))) (key p) = Some l' \<and> l_status l' = Status_STOPPED \<and>
     (l_status l \<noteq> Status_STOPPED \<longrightarrow> l_exitStatus l' = code \<and> l_exitedAt l' = now) \<and>
     (l_status l = Status_STOPPED \<longrightarrow> l' = l)"
  using assms mark_stopped [OF assms(2)] mark_live [OF assms(2) _ linv_close [OF assms]]
  by (cases "l_status l = Status_STOPPED") auto

text \<open>The exit is recorded once: a second mark does nothing.\<close>

lemma mark_once:
  assumes "linv (abs s)" "ls_latch (abs s) (key p) = Some l"
  shows "mark p code' now' (snd (mark p code now s)) = (Ok False, snd (mark p code now s))"
  using mark_stops [OF assms] mark_stopped by blast

lemma mark_keys:
  assumes "linv (abs s)" "ls_latch (abs s) (key p) = Some l"
  shows "stopped_keys (abs (snd (mark p code now s))) = insert (key p) (stopped_keys (abs s))"
    "fst (mark p code now s) = Ok (key p \<notin> stopped_keys (abs s))"
  using assms mark_stopped [OF assms(2)] mark_live [OF assms(2) _ linv_close [OF assms]]
  by (cases "l_status l = Status_STOPPED"; force simp: stopped_keys_def)+

lemma await_step: "await x s = (r, s') \<Longrightarrow> lquiet (abs s) (abs s')"
proof (cases r)
  case (WaitOn p ch)
  moreover assume "await x s = (r, s')"
  ultimately show ?thesis using await_on [of x s p ch s'] by (auto intro: lquiet.enter)
qed (use await_done [of x s r s'] in \<open>auto intro: lquiet.skip\<close>)

lemma await_waiting: "await x s = (WaitOn p ch, s') \<Longrightarrow> waiting (key p) ch (abs s')"
  by (drule await_on) (auto simp: waiting_def)

text \<open>A waiter that finds its latch stopped has a closed channel and reads the exit record.\<close>

lemma woken:
  assumes "linv (abs s)" "waiting (key p) ch (abs s)" "ls_latch (abs s) (key p) = Some l"
    "l_status l = Status_STOPPED"
  shows "ch \<in> ls_closed (abs s) \<and> look p s = Ok (wait_response (l_exitStatus l) (l_exitedAt l))"
  using waiting_closed_iff [OF assms(1-3)] look_read [OF assms(3)] assms(4) by simp

end

end
