(* ===== verification/ShimLatch.thy ===== *)
theory ShimLatch
  imports ExitLatch
begin

text \<open>
  The two implementations of the exit latch in the service: tasks and exec processes share the
  channels, so one latch system, keyed by task pointers (\<open>Inl\<close>) and exec pointers (\<open>Inr\<close>), is read
  out of both heaps. Every locked region of the service is a step of it.
\<close>

section \<open>Reading the latches out of the service\<close>

definition svc_latch :: "'w Service \<Rightarrow> nat + nat \<Rightarrow> latch option" where
  "svc_latch s k = (case k of Inl a \<Rightarrow> map_option latch.truncate (svc_theap s a)
                            | Inr e \<Rightarrow> map_option latch.truncate (svc_eheap s e))"

definition svc_abs :: "'w Service \<Rightarrow> (nat + nat) latch_sys" where
  "svc_abs s = \<lparr>ls_latch = svc_latch s, ls_closed = svc_closed s, ls_next = svc_chnext s\<rparr>"

lemma truncate_sel [simp]:
  "l_status (latch.truncate l) = l_status l" "l_exitStatus (latch.truncate l) = l_exitStatus l"
  "l_exitedAt (latch.truncate l) = l_exitedAt l" "l_waiters (latch.truncate l) = l_waiters l"
  by (simp_all add: latch.truncate_def)

lemma truncate_upd [simp]:
  "latch.truncate (latch_exit c t l) = latch_exit c t (latch.truncate l)"
  "latch.truncate (add_waiter ch l) = add_waiter ch (latch.truncate l)"
  "latch.truncate (l\<lparr>l_status := st\<rparr>) = (latch.truncate l)\<lparr>l_status := st\<rparr>"
  by (simp_all add: latch.truncate_def latch_exit_def add_waiter_def)

lemma truncate_task_upd [simp]: "latch.truncate (ts\<lparr>ts_execs := x\<rparr>) = latch.truncate ts"
  by (simp add: latch.truncate_def)

lemma truncate_new [simp]:
  "latch.truncate (new_task r i) = fresh_latch" "latch.truncate (new_exec q spec) = fresh_latch"
  by (simp_all add: latch.truncate_def new_task_def new_exec_def fresh_latch_def)

lemma svc_latch_simps [simp]:
  "svc_latch s (Inl a) = map_option latch.truncate (svc_theap s a)"
  "svc_latch s (Inr e) = map_option latch.truncate (svc_eheap s e)"
  by (simp_all add: svc_latch_def)

lemma svc_abs_sel [simp]:
  "ls_latch (svc_abs s) = svc_latch s" "ls_closed (svc_abs s) = svc_closed s"
  "ls_next (svc_abs s) = svc_chnext s"
  by (simp_all add: svc_abs_def)

lemma svc_abs_eqI:
  "svc_latch s' = L \<Longrightarrow> svc_closed s' = C \<Longrightarrow> svc_chnext s' = n \<Longrightarrow>
   svc_abs s' = \<lparr>ls_latch = L, ls_closed = C, ls_next = n\<rparr>"
  by (simp add: svc_abs_def)

lemma svc_latch_theap: "svc_theap s' = (svc_theap s)(a \<mapsto> ts) \<Longrightarrow> svc_eheap s' = svc_eheap s \<Longrightarrow>
    svc_latch s' = (svc_latch s)(Inl a \<mapsto> latch.truncate ts)"
  by (auto simp: svc_latch_def fun_eq_iff split: sum.splits)

lemma svc_latch_eheap: "svc_eheap s' = (svc_eheap s)(e \<mapsto> es) \<Longrightarrow> svc_theap s' = svc_theap s \<Longrightarrow>
    svc_latch s' = (svc_latch s)(Inr e \<mapsto> latch.truncate es)"
  by (auto simp: svc_latch_def fun_eq_iff split: sum.splits)

lemma svc_latch_same: "svc_eheap s' = svc_eheap s \<Longrightarrow> svc_theap s' = svc_theap s \<Longrightarrow>
    svc_latch s' = svc_latch s"
  by (auto simp: svc_latch_def fun_eq_iff split: sum.splits)

section \<open>Events and log lines leave the latches alone\<close>

text \<open>Everything but the event list and the log is the same.\<close>

definition same_core :: "'w Service \<Rightarrow> 'w Service \<Rightarrow> bool" where
  "same_core s s' \<longleftrightarrow> s\<lparr>svc_events := svc_events s', svc_stderr := svc_stderr s'\<rparr> = s'"

lemma same_coreD:
  assumes "same_core s s'"
  shows "svc_mgr s' = svc_mgr s" "svc_tasks s' = svc_tasks s" "svc_theap s' = svc_theap s"
    "svc_eheap s' = svc_eheap s" "svc_tnext s' = svc_tnext s" "svc_enext s' = svc_enext s"
    "svc_chnext s' = svc_chnext s" "svc_closed s' = svc_closed s" "svc_pid s' = svc_pid s"
    "svc_publisher s' = svc_publisher s" "svc_templates s' = svc_templates s"
    "svc_defaultDriver s' = svc_defaultDriver s" "svc_abs s' = svc_abs s"
  using assms unfolding same_core_def svc_abs_def svc_latch_def
  by (cases s, cases s', simp)+

lemma same_core_refl [intro, simp]: "same_core s s"
  by (simp add: same_core_def)

lemma same_core_logf: "same_core s s' \<Longrightarrow> same_core s (logf f a e s')"
  by (cases s, cases s') (simp add: same_core_def logf_def)

lemma same_core_publish: "same_core s s' \<Longrightarrow> publish t e s' = (r, s'') \<Longrightarrow> same_core s s''"
  by (cases s, cases s') (auto simp: same_core_def publish_def split: option.splits)

lemma same_core_publishWarn [intro]: "same_core s (publishWarn t e s)"
  unfolding publishWarn_def
  by (auto split: prod.splits option.splits intro: same_core_logf same_core_publish [OF same_core_refl])

lemma same_core_exit_event [intro]: "same_core s (exit_event tid c t s)"
  unfolding exit_event_def log_exit_def publishTaskExit_def
  by (auto split: prod.splits option.splits intro: same_core_logf same_core_publish [OF same_core_refl])

lemma same_core_exec_exit_event [intro]: "same_core s (exec_exit_event tid eid c t s)"
  unfolding exec_exit_event_def log_exit_def
  by (auto split: prod.splits option.splits intro: same_core_logf same_core_publish [OF same_core_refl])

lemma same_core_create_event [intro]: "same_core s (create_event r s)"
  unfolding create_event_def by (rule same_core_publishWarn)

lemma same_core_delete_event [intro]: "same_core s (delete_event tid c t s)"
  unfolding delete_event_def by (rule same_core_publishWarn)

section \<open>The two interpretations\<close>

interpretation task_latch: exit_latch svc_abs Inl mark_task wait_task wait_task_read
proof
  fix s :: "'a Service" and p l code now
  assume "ls_latch (svc_abs s) (Inl p) = Some l" "l_status l = Status_STOPPED"
  then show "mark_task p code now s = (Ok False, s)"
    by (auto simp: mark_task_def)
next
  fix s :: "'a Service" and p l code now cs
  assume "ls_latch (svc_abs s) (Inl p) = Some l" "l_status l \<noteq> Status_STOPPED"
    "close_chans (l_waiters l) (ls_closed (svc_abs s)) = Some cs"
  then show "fst (mark_task p code now s) = Ok True \<and> svc_abs (snd (mark_task p code now s)) =
      ls_set (Inl p) (latch_exit code now l) (svc_abs s)\<lparr>ls_closed := cs\<rparr>"
    by (auto simp: mark_task_def ls_set_def svc_abs_def svc_latch_def fun_eq_iff split: sum.splits)
next
  fix s :: "'a Service" and p code now
  assume "fst (mark_task p code now s) \<noteq> Ok True"
  then show "snd (mark_task p code now s) = s"
    by (auto simp: mark_task_def split: option.splits if_splits)
next
  fix s s' :: "'a Service" and x p ch
  assume "wait_task x s = (WaitOn p ch, s')"
  then obtain ts where "svc_theap s p = Some ts" "l_status ts \<noteq> Status_STOPPED" "ch = svc_chnext s"
    "s' = s\<lparr>svc_theap := (svc_theap s)(p \<mapsto> add_waiter ch ts), svc_chnext := Suc ch\<rparr>"
    by (auto simp: wait_task_def find_task_def split: option.splits if_splits)
  then show "ch = ls_next (svc_abs s) \<and> (\<exists>l. ls_latch (svc_abs s) (Inl p) = Some l \<and>
      l_status l \<noteq> Status_STOPPED \<and>
      svc_abs s' = ls_set (Inl p) (add_waiter ch l) (svc_abs s)\<lparr>ls_next := Suc ch\<rparr>)"
    by (auto simp: ls_set_def svc_abs_def svc_latch_def fun_eq_iff split: sum.splits)
next
  fix s s' :: "'a Service" and x r
  assume "wait_task x s = (r, s')" "\<forall>p ch. r \<noteq> WaitOn p ch"
  then show "s' = s" by (auto simp: wait_task_def split: option.splits if_splits)
next
  fix s :: "'a Service" and p l
  assume "ls_latch (svc_abs s) (Inl p) = Some l"
  then show "wait_task_read p s = Ok (wait_response (l_exitStatus l) (l_exitedAt l))"
    by (auto simp: wait_task_read_def)
qed

interpretation exec_latch: exit_latch svc_abs Inr mark_exec
  "\<lambda>x. wait_exec (fst x) (snd x)" wait_exec_read
proof
  fix s :: "'a Service" and p l code now
  assume "ls_latch (svc_abs s) (Inr p) = Some l" "l_status l = Status_STOPPED"
  then show "mark_exec p code now s = (Ok False, s)"
    by (auto simp: mark_exec_def)
next
  fix s :: "'a Service" and p l code now cs
  assume "ls_latch (svc_abs s) (Inr p) = Some l" "l_status l \<noteq> Status_STOPPED"
    "close_chans (l_waiters l) (ls_closed (svc_abs s)) = Some cs"
  then show "fst (mark_exec p code now s) = Ok True \<and> svc_abs (snd (mark_exec p code now s)) =
      ls_set (Inr p) (latch_exit code now l) (svc_abs s)\<lparr>ls_closed := cs\<rparr>"
    by (auto simp: mark_exec_def ls_set_def svc_abs_def svc_latch_def fun_eq_iff split: sum.splits)
next
  fix s :: "'a Service" and p code now
  assume "fst (mark_exec p code now s) \<noteq> Ok True"
  then show "snd (mark_exec p code now s) = s"
    by (auto simp: mark_exec_def split: option.splits if_splits)
next
  fix s s' :: "'a Service" and x :: "string \<times> string" and p ch
  assume "wait_exec (fst x) (snd x) s = (WaitOn p ch, s')"
  then obtain es where "svc_eheap s p = Some es" "l_status es \<noteq> Status_STOPPED" "ch = svc_chnext s"
    "s' = s\<lparr>svc_eheap := (svc_eheap s)(p \<mapsto> add_waiter ch es), svc_chnext := Suc ch\<rparr>"
    by (auto simp: wait_exec_def find_exec_def split: option.splits if_splits sum.splits prod.splits)
  then show "ch = ls_next (svc_abs s) \<and> (\<exists>l. ls_latch (svc_abs s) (Inr p) = Some l \<and>
      l_status l \<noteq> Status_STOPPED \<and>
      svc_abs s' = ls_set (Inr p) (add_waiter ch l) (svc_abs s)\<lparr>ls_next := Suc ch\<rparr>)"
    by (auto simp: ls_set_def svc_abs_def svc_latch_def fun_eq_iff split: sum.splits)
next
  fix s s' :: "'a Service" and x :: "string \<times> string" and r
  assume "wait_exec (fst x) (snd x) s = (r, s')" "\<forall>p ch. r \<noteq> WaitOn p ch"
  then show "s' = s" by (auto simp: wait_exec_def split: sum.splits prod.splits if_splits)
next
  fix s :: "'a Service" and p l
  assume "ls_latch (svc_abs s) (Inr p) = Some l"
  then show "wait_exec_read p s = Ok (wait_response (l_exitStatus l) (l_exitedAt l))"
    by (auto simp: wait_exec_read_def)
qed

section \<open>Well-formed services\<close>

text \<open>Every map entry points to a cell, cells from the next pointer on are free, the latches are sound.\<close>

definition svc_wf :: "'w Service \<Rightarrow> bool" where
  "svc_wf s \<longleftrightarrow>
     ran (svc_tasks s) \<subseteq> dom (svc_theap s) \<and>
     (\<forall>a ts. svc_theap s a = Some ts \<longrightarrow> ran (ts_execs ts) \<subseteq> dom (svc_eheap s)) \<and>
     (\<forall>a \<ge> svc_tnext s. svc_theap s a = None) \<and> (\<forall>e \<ge> svc_enext s. svc_eheap s e = None)"

definition svc_ok :: "'w Service \<Rightarrow> bool" where
  "svc_ok s \<longleftrightarrow> linv (svc_abs s) \<and> svc_wf s"

text \<open>A region keeps the service well-formed and is a step of the latches.\<close>

definition good_step :: "'w Service \<Rightarrow> 'w Service \<Rightarrow> bool" where
  "good_step s s' \<longleftrightarrow> svc_ok s' \<and> lstep (svc_abs s) (svc_abs s')"

lemma svc_okD:
  assumes "svc_ok s"
  shows "linv (svc_abs s)"
    "\<And>tid a. svc_tasks s tid = Some a \<Longrightarrow> \<exists>ts. svc_theap s a = Some ts"
    "\<And>a ts eid e. svc_theap s a = Some ts \<Longrightarrow> ts_execs ts eid = Some e \<Longrightarrow> \<exists>es. svc_eheap s e = Some es"
    "svc_theap s (svc_tnext s) = None" "svc_eheap s (svc_enext s) = None"
    "\<And>a. svc_tnext s \<le> a \<Longrightarrow> svc_theap s a = None" "\<And>e. svc_enext s \<le> e \<Longrightarrow> svc_eheap s e = None"
  using assms by (fastforce simp: svc_ok_def svc_wf_def ran_def)+

lemma svc_wfI:
  assumes "\<And>tid a. svc_tasks s tid = Some a \<Longrightarrow> svc_theap s a \<noteq> None"
    "\<And>a ts eid e. svc_theap s a = Some ts \<Longrightarrow> ts_execs ts eid = Some e \<Longrightarrow> svc_eheap s e \<noteq> None"
    "\<And>a. svc_tnext s \<le> a \<Longrightarrow> svc_theap s a = None" "\<And>e. svc_enext s \<le> e \<Longrightarrow> svc_eheap s e = None"
  shows "svc_wf s"
  using assms by (fastforce simp: svc_wf_def ran_def)

lemma good_stepI:
  "svc_ok s \<Longrightarrow> lstep (svc_abs s) (svc_abs s') \<Longrightarrow> svc_wf s' \<Longrightarrow> good_step s s'"
  by (auto simp: good_step_def svc_ok_def intro: linv_step)

text \<open>A region that records no exit.\<close>

definition quiet_step :: "'w Service \<Rightarrow> 'w Service \<Rightarrow> bool" where
  "quiet_step s s' \<longleftrightarrow> svc_ok s' \<and> lquiet (svc_abs s) (svc_abs s')"

lemma quiet_good: "quiet_step s s' \<Longrightarrow> good_step s s'"
  by (simp add: quiet_step_def good_step_def lquiet_lstep)

lemma quiet_stepI:
  "svc_ok s \<Longrightarrow> lquiet (svc_abs s) (svc_abs s') \<Longrightarrow> svc_wf s' \<Longrightarrow> quiet_step s s'"
  by (auto simp: quiet_step_def svc_ok_def intro: linv_step lquiet_lstep)

lemma quiet_same_core: "svc_ok s \<Longrightarrow> same_core s s' \<Longrightarrow> quiet_step s s'"
  by (auto simp: quiet_step_def svc_ok_def svc_wf_def same_coreD lquiet.skip)

lemma quiet_refl: "svc_ok s \<Longrightarrow> quiet_step s s"
  by (simp add: quiet_same_core)

lemma find_task_SomeD:
  "find_task tid s = Some (a, ts) \<Longrightarrow> svc_tasks s tid = Some a \<and> svc_theap s a = Some ts"
  by (auto simp: find_task_def split: option.splits)

lemma find_exec_InrD:
  "find_exec tid eid s = Inr ((a, ts), e, es) \<Longrightarrow>
   find_task tid s = Some (a, ts) \<and> ts_execs ts eid = Some e \<and> svc_eheap s e = Some es"
  by (auto simp: find_exec_def split: option.splits)

text \<open>Changing one cell in place, keeping the execs of a task.\<close>

lemma wf_task_cell:
  assumes "svc_ok s" "svc_theap s a = Some ts" "ts_execs ts' = ts_execs ts"
    and "svc_theap s' = (svc_theap s)(a \<mapsto> ts')" "svc_eheap s' = svc_eheap s" "svc_tasks s' = svc_tasks s"
    "svc_tnext s' = svc_tnext s" "svc_enext s' = svc_enext s"
  shows "svc_wf s'"
  using svc_okD(2,3,6,7) [OF assms(1)] assms(2-)
  by (intro svc_wfI) (auto split: if_splits)

lemma wf_exec_cell:
  assumes "svc_ok s" "svc_eheap s e = Some es"
    and "svc_eheap s' = (svc_eheap s)(e \<mapsto> es')" "svc_theap s' = svc_theap s" "svc_tasks s' = svc_tasks s"
    "svc_tnext s' = svc_tnext s" "svc_enext s' = svc_enext s"
  shows "svc_wf s'"
  using svc_okD(2,3,6,7) [OF assms(1)] assms(2-)
  by (intro svc_wfI) (auto split: if_splits)

lemma good_mark_task:
  assumes "svc_ok s" "svc_theap s a \<noteq> None"
  shows "good_step s (snd (mark_task a code now s))"
proof (rule good_stepI [OF assms(1)])
  from assms(2) obtain ts where ts: "svc_theap s a = Some ts" by blast
  show "lstep (svc_abs s) (svc_abs (snd (mark_task a code now s)))"
    using task_latch.mark_step [OF svc_okD(1) [OF assms(1)]] ts by simp
  have wf: "svc_wf s" using assms(1) by (simp add: svc_ok_def)
  have "svc_wf (s\<lparr>svc_theap := (svc_theap s)(a \<mapsto> latch_exit code now ts), svc_closed := cs\<rparr>)" for cs
    by (rule wf_task_cell [OF assms(1) ts]) (simp_all add: latch_exit_def)
  with wf show "svc_wf (snd (mark_task a code now s))"
    using ts by (simp add: mark_task_def split: option.splits)
qed

lemma good_mark_exec:
  assumes "svc_ok s" "svc_eheap s e \<noteq> None"
  shows "good_step s (snd (mark_exec e code now s))"
proof (rule good_stepI [OF assms(1)])
  from assms(2) obtain es where es: "svc_eheap s e = Some es" by blast
  show "lstep (svc_abs s) (svc_abs (snd (mark_exec e code now s)))"
    using exec_latch.mark_step [OF svc_okD(1) [OF assms(1)]] es by simp
  have wf: "svc_wf s" using assms(1) by (simp add: svc_ok_def)
  have "svc_wf (s\<lparr>svc_eheap := (svc_eheap s)(e \<mapsto> latch_exit code now es), svc_closed := cs\<rparr>)" for cs
    by (rule wf_exec_cell [OF assms(1) es]) simp_all
  with wf show "svc_wf (snd (mark_exec e code now s))"
    using es by (simp add: mark_exec_def split: option.splits)
qed

lemma quiet_wait_task:
  assumes "svc_ok s" "wait_task tid s = (r, s')"
  shows "quiet_step s s'"
proof (rule quiet_stepI [OF assms(1)])
  show "lquiet (svc_abs s) (svc_abs s')" using task_latch.await_step [OF assms(2)] .
  have wf: "svc_wf s" using assms(1) by (simp add: svc_ok_def)
  have "svc_wf (s\<lparr>svc_theap := (svc_theap s)(a \<mapsto> add_waiter ch ts), svc_chnext := n\<rparr>)"
    if "find_task tid s = Some (a, ts)" for a ts ch n
    by (rule wf_task_cell [OF assms(1) conjunct2 [OF find_task_SomeD [OF that]]])
      (simp_all add: add_waiter_def)
  with wf show "svc_wf s'"
    using assms(2) by (auto simp: wait_task_def split: option.splits if_splits)
qed

lemma quiet_wait_exec:
  assumes "svc_ok s" "wait_exec tid eid s = (r, s')"
  shows "quiet_step s s'"
proof (rule quiet_stepI [OF assms(1)])
  show "lquiet (svc_abs s) (svc_abs s')" using exec_latch.await_step [of "(tid, eid)"] assms(2) by simp
  have wf: "svc_wf s" using assms(1) by (simp add: svc_ok_def)
  have "svc_wf (s\<lparr>svc_eheap := (svc_eheap s)(e \<mapsto> add_waiter ch es), svc_chnext := n\<rparr>)"
    if "svc_eheap s e = Some es" for e es ch n
    by (rule wf_exec_cell [OF assms(1) that]) simp_all
  with wf show "svc_wf s'"
    using assms(2) by (auto simp: wait_exec_def split: sum.splits if_splits dest!: find_exec_InrD)
qed

lemma quiet_create_insert:
  assumes "svc_ok s"
  shows "quiet_step s (snd (create_insert r i s))"
proof (cases "svc_tasks s (ct_ID r)")
  case (Some a)
  then show ?thesis using quiet_refl [OF assms] by (simp add: create_insert_def)
next
  case None
  let ?a = "svc_tnext s" and ?s = "snd (create_insert r i s)"
  note I = svc_okD [OF assms]
  have "svc_abs ?s = ls_set (Inl ?a) fresh_latch (svc_abs s)"
    using None by (auto simp: create_insert_def ls_set_def svc_abs_def svc_latch_def fun_eq_iff split: sum.splits)
  moreover have "lquiet (svc_abs s) (ls_set (Inl ?a) fresh_latch (svc_abs s))"
    using I(4) by (intro lquiet.new) simp
  moreover have "svc_wf ?s"
    using None I(2,3,6,7) by (intro svc_wfI) (auto simp: create_insert_def new_task_def split: if_splits)
  ultimately show ?thesis by (simp add: quiet_stepI [OF assms])
qed

lemma quiet_start_task:
  assumes "svc_ok s" "start_task tid s = (r, s')"
  shows "quiet_step s s'"
proof (cases "\<exists>a ts. find_task tid s = Some (a, ts) \<and> l_status ts = Status_CREATED")
  case False
  then show ?thesis
    using assms quiet_refl [OF assms(1)] by (auto simp: start_task_def split: option.splits if_splits)
next
  case True
  then obtain a ts where ts: "svc_theap s a = Some ts" "find_task tid s = Some (a, ts)"
    and st: "l_status ts = Status_CREATED" using find_task_SomeD by blast
  let ?s = "s\<lparr>svc_theap := (svc_theap s)(a \<mapsto> ts\<lparr>l_status := Status_RUNNING\<rparr>)\<rparr>"
  have s': "same_core ?s s'" using assms(2) ts st by (auto simp: start_task_def)
  have "svc_abs ?s = ls_set (Inl a) ((latch.truncate ts)\<lparr>l_status := Status_RUNNING\<rparr>) (svc_abs s)"
    by (auto simp: ls_set_def svc_abs_def svc_latch_def fun_eq_iff split: sum.splits)
  then have "lquiet (svc_abs s) (svc_abs ?s)"
    using lquiet.start [of "svc_abs s" "Inl a" "latch.truncate ts"] ts st by simp
  moreover have "svc_wf ?s" by (rule wf_task_cell [OF assms(1) ts(1)]) simp_all
  ultimately have "quiet_step s ?s" by (rule quiet_stepI [OF assms(1)])
  then show ?thesis using quiet_same_core [OF _ s'] same_coreD(13) [OF s'] by (simp add: quiet_step_def)
qed

lemma quiet_exec_begin:
  assumes "svc_ok s" "exec_begin tid eid s = (r, s')"
  shows "quiet_step s s'"
proof (cases "\<exists>x e es. find_exec tid eid s = Inr (x, e, es) \<and> l_status es = Status_CREATED")
  case False
  then show ?thesis
    using assms quiet_refl [OF assms(1)] by (fastforce simp: exec_begin_def split: sum.splits if_splits)
next
  case True
  then obtain a ts e es where f: "find_exec tid eid s = Inr ((a, ts), e, es)"
    and st: "l_status es = Status_CREATED" by (metis prod.collapse)
  then have es: "svc_eheap s e = Some es" using find_exec_InrD by blast
  have s': "s' = s\<lparr>svc_eheap := (svc_eheap s)(e \<mapsto> es\<lparr>l_status := Status_RUNNING\<rparr>)\<rparr>"
    using assms(2) f st by (simp add: exec_begin_def)
  have "svc_abs s' = ls_set (Inr e) ((latch.truncate es)\<lparr>l_status := Status_RUNNING\<rparr>) (svc_abs s)"
    by (auto simp: s' ls_set_def svc_abs_def svc_latch_def fun_eq_iff split: sum.splits)
  then have "lquiet (svc_abs s) (svc_abs s')"
    using lquiet.start [of "svc_abs s" "Inr e" "latch.truncate es"] es st by simp
  moreover have "svc_wf s'" by (rule wf_exec_cell [OF assms(1) es]) (simp_all add: s')
  ultimately show ?thesis by (rule quiet_stepI [OF assms(1)])
qed

lemma quiet_shim_Exec:
  assumes "svc_ok s" "shim_Exec r s = (q, s')"
  shows "quiet_step s s'"
proof (cases "is_ok q")
  case False
  then have "s' = s"
    using assms(2) by (auto simp: shim_Exec_def split: sum.splits option.splits if_splits)
  then show ?thesis using quiet_refl [OF assms(1)] by simp
next
  case True
  then obtain spec where v: "exec_validate r = Inr spec"
    using assms(2) by (cases "exec_validate r") (auto simp: shim_Exec_def)
  obtain a ts where ts: "find_task (er_ID r) s = Some (a, ts)"
    using assms(2) True v by (cases "find_task (er_ID r) s") (auto simp: shim_Exec_def)
  have s': "s' = s\<lparr>svc_eheap := (svc_eheap s)(svc_enext s \<mapsto> new_exec r spec),
        svc_theap := (svc_theap s)(a \<mapsto> ts\<lparr>ts_execs := (ts_execs ts)(er_ExecID r \<mapsto> svc_enext s)\<rparr>),
        svc_enext := Suc (svc_enext s)\<rparr>"
    using assms(2) True v ts by (simp add: shim_Exec_def split: if_splits) auto
  note I = svc_okD [OF assms(1)] and a = find_task_SomeD [OF ts]
  have "svc_abs s' = ls_set (Inr (svc_enext s)) fresh_latch (svc_abs s)"
    using a by (auto simp: s' ls_set_def svc_abs_def svc_latch_def fun_eq_iff split: sum.splits)
  then have "lquiet (svc_abs s) (svc_abs s')"
    using lquiet.new [of "svc_abs s" "Inr (svc_enext s)"] I(5) by simp
  moreover have "svc_wf s'"
    using a I(2,3,6,7) by (intro svc_wfI) (auto simp: s' split: if_splits)
  ultimately show ?thesis by (rule quiet_stepI [OF assms(1)])
qed

lemma quiet_deleteExec:
  assumes "svc_ok s" "deleteExec tid eid s = (r, s')"
  shows "quiet_step s s'"
proof (cases "is_ok r")
  case False
  then have "s' = s" using assms(2) by (auto simp: deleteExec_def split: sum.splits if_splits)
  then show ?thesis using quiet_refl [OF assms(1)] by simp
next
  case True
  then obtain a ts e es where f: "find_exec tid eid s = Inr ((a, ts), e, es)"
    and s': "s' = s\<lparr>svc_theap := (svc_theap s)(a \<mapsto> ts\<lparr>ts_execs := (ts_execs ts)(eid := None)\<rparr>)\<rparr>"
    using assms(2) by (auto simp: deleteExec_def split: sum.splits if_splits)
  then have ts: "svc_theap s a = Some ts" using find_exec_InrD find_task_SomeD by blast
  have "svc_abs s' = svc_abs s"
    using ts by (auto simp: s' svc_abs_def svc_latch_def fun_eq_iff split: sum.splits)
  moreover have "svc_wf s'"
    using ts svc_okD(2,3,6,7) [OF assms(1)] by (intro svc_wfI) (auto simp: s' split: if_splits)
  ultimately show ?thesis by (intro quiet_stepI [OF assms(1)]) (simp_all add: lquiet.skip)
qed

lemma quiet_delete_remove:
  assumes "svc_ok s"
  shows "quiet_step s (snd (delete_remove tid a s))"
proof -
  let ?s = "s\<lparr>svc_tasks := (svc_tasks s)(tid := None)\<rparr>"
  have "svc_wf ?s"
    using svc_okD(2,3,6,7) [OF assms] by (intro svc_wfI) (auto split: if_splits)
  moreover have "svc_abs ?s = svc_abs s"
    by (auto simp: svc_abs_def svc_latch_def fun_eq_iff split: sum.splits)
  ultimately have "quiet_step s ?s" by (intro quiet_stepI [OF assms]) (simp_all add: lquiet.skip)
  moreover have "snd (delete_remove tid a s) = ?s"
    by (simp add: delete_remove_def Let_def split: option.splits)
  ultimately show ?thesis by simp
qed

text \<open>Regions that leave the tables and the heaps alone.\<close>

lemma quiet_frame:
  assumes "svc_ok s" "svc_tasks s' = svc_tasks s" "svc_theap s' = svc_theap s" "svc_eheap s' = svc_eheap s"
    "svc_tnext s' = svc_tnext s" "svc_enext s' = svc_enext s" "svc_closed s' = svc_closed s"
    "svc_chnext s' = svc_chnext s"
  shows "quiet_step s s'"
proof -
  have "svc_abs s' = svc_abs s"
    using assms by (auto simp: svc_abs_def svc_latch_def fun_eq_iff split: sum.splits)
  with assms show ?thesis by (simp add: quiet_step_def svc_ok_def svc_wf_def lquiet.skip)
qed

lemma quiet_create_sandbox:
  "svc_ok s \<Longrightarrow> create_sandbox env r s w = (q, s', w') \<Longrightarrow> quiet_step s s'"
  by (rule quiet_frame) (auto simp: create_sandbox_def Let_def split: prod.splits if_splits)

text \<open>The service up to its log and its output files.\<close>

definition core :: "'w Service \<Rightarrow> 'w Service" where
  "core s = s\<lparr>svc_stderr := [], svc_written := []\<rparr>"

lemma core_openOutput: "openOutput env path s = (f, s') \<Longrightarrow> core s' = core s"
  by (auto simp: openOutput_def logf_def core_def split: if_splits option.splits)

lemma core_write_out [simp]: "core (write_out f cs s) = core s"
  by (simp add: write_out_def core_def split: option.split)

lemma exec_run_core: "exec_run env j s w = (q, s', w') \<Longrightarrow> core s' = core s"
  by (auto simp: exec_run_def Let_def dest!: core_openOutput split: prod.splits res.splits)

lemma core_eqD:
  assumes "core s' = core s"
  shows "svc_tasks s' = svc_tasks s" "svc_theap s' = svc_theap s" "svc_eheap s' = svc_eheap s"
    "svc_tnext s' = svc_tnext s" "svc_enext s' = svc_enext s" "svc_closed s' = svc_closed s"
    "svc_chnext s' = svc_chnext s"
  using assms unfolding core_def by (cases s, cases s', simp)+

lemma quiet_exec_run:
  assumes "svc_ok s" "exec_run env j s w = (q, s', w')"
  shows "quiet_step s s'"
  by (rule quiet_frame [OF assms(1)]) (simp_all add: core_eqD [OF exec_run_core [OF assms(2)]])

lemma quiet_shim_Shutdown: "svc_ok s \<Longrightarrow> quiet_step s (shim_Shutdown s)"
  by (rule quiet_frame) (simp_all add: shim_Shutdown_def Let_def)

lemma svc_ok_New: "svc_ok (NewService mgr d ts pid)"
  by (auto simp: svc_ok_def svc_wf_def linv_def svc_latch_def NewService_def split: sum.splits)

section \<open>Published exits\<close>

text \<open>The number of forwarded exit events, which only the two exit publications change.\<close>

definition exits :: "'w Service \<Rightarrow> nat" where
  "exits s = length (filter (\<lambda>x. fst x = TopicTaskExit) (svc_events s))"

definition same_pub :: "'w Service \<Rightarrow> 'w Service \<Rightarrow> bool" where
  "same_pub s s' \<longleftrightarrow> svc_publisher s' = svc_publisher s \<and> exits s' = exits s"

lemma same_pubI: "svc_publisher s' = svc_publisher s \<Longrightarrow> svc_events s' = svc_events s \<Longrightarrow> same_pub s s'"
  by (simp add: same_pub_def exits_def)

lemma same_pub_refl [simp]: "same_pub s s"
  by (simp add: same_pub_def)

lemma same_pub_publishWarn: "topic \<noteq> TopicTaskExit \<Longrightarrow> same_pub s (publishWarn topic ev s)"
  by (simp add: same_pub_def exits_def publishWarn_def publish_def logf_def split: option.split)

lemmas topics = TopicTaskCreate_def TopicTaskStart_def TopicTaskExit_def TopicTaskDelete_def

lemma same_pub_events [simp]:
  "same_pub s (create_event r s)" "same_pub s (delete_event tid code t s)"
  by (simp_all add: create_event_def delete_event_def same_pub_publishWarn topics)

lemma exits_publish:
  "exits (log_exit f as (publish TopicTaskExit ev s)) =
     (if svc_publisher s = None then exits s else Suc (exits s))"
  "svc_publisher (log_exit f as (publish TopicTaskExit ev s)) = svc_publisher s"
  by (simp_all add: exits_def log_exit_def publish_def logf_def split: option.split)

lemma exits_exit_event [simp]:
  "exits (exit_event tid c t s) = (if svc_publisher s = None then exits s else Suc (exits s))"
  "svc_publisher (exit_event tid c t s) = svc_publisher s"
  "exits (exec_exit_event tid eid c t s) = (if svc_publisher s = None then exits s else Suc (exits s))"
  "svc_publisher (exec_exit_event tid eid c t s) = svc_publisher s"
  by (simp_all add: exit_event_def exec_exit_event_def publishTaskExit_def exits_publish)

lemma same_pub_mark:
  "same_pub s (snd (mark_task a code now s))" "same_pub s (snd (mark_exec e code now s))"
  by (rule same_pubI; simp add: mark_task_def mark_exec_def split: option.split)+

lemma same_pub_create:
  "same_pub s (snd (create_insert r i s))"
  "create_sandbox env r s w = (q, s', w') \<Longrightarrow> same_pub s s'"
  by (rule same_pubI; auto simp: create_insert_def create_sandbox_def Let_def split: prod.splits if_splits)+

lemma same_pub_start: "shim_Start tid eid s = (r, j, s') \<Longrightarrow> same_pub s s'"
proof (cases "eid = []")
  case True
  moreover assume "shim_Start tid eid s = (r, j, s')"
  ultimately have "start_task tid s = (r, s')" by (simp add: shim_Start_def split: prod.splits)
  then show ?thesis
  proof (cases "\<exists>a ts. find_task tid s = Some (a, ts) \<and> l_status ts = Status_CREATED")
    case True
    then obtain a ts where "find_task tid s = Some (a, ts)" "l_status ts = Status_CREATED" by blast
    with \<open>start_task tid s = _\<close> same_pub_publishWarn [of TopicTaskStart
        "s\<lparr>svc_theap := (svc_theap s)(a \<mapsto> ts\<lparr>l_status := Status_RUNNING\<rparr>)\<rparr>" "TaskStart tid (svc_pid s)"]
    show ?thesis by (auto simp: start_task_def same_pub_def topics exits_def)
  qed (auto simp: start_task_def split: option.splits if_splits)
next
  case False
  moreover assume "shim_Start tid eid s = (r, j, s')"
  ultimately have "\<exists>q. exec_begin tid eid s = (q, s')" by (auto simp: shim_Start_def split: prod.splits res.splits)
  then show ?thesis
    by (intro same_pubI) (auto simp: exec_begin_def split: sum.splits prod.splits if_splits)
qed

lemma same_pub_exec:
  "deleteExec tid eid s = (d, s') \<Longrightarrow> same_pub s s'" "shim_Exec r s = (u, s') \<Longrightarrow> same_pub s s'"
  "shim_Wait tid eid s = (x, s') \<Longrightarrow> same_pub s s'"
  by (rule same_pubI; auto simp: deleteExec_def shim_Exec_def shim_Wait_def wait_task_def wait_exec_def
      split: sum.splits option.splits if_splits)+

lemma same_pub_exec_run:
  assumes "exec_run env j s w = (q, s', w')"
  shows "same_pub s s'"
proof -
  have "core s' = core s" by (rule exec_run_core [OF assms])
  then show ?thesis by (intro same_pubI) (cases s, cases s', simp add: core_def)+
qed

lemma same_pub_rest [simp]: "same_pub s (snd (delete_remove tid a s))" "same_pub s (shim_Shutdown s)"
  by (rule same_pubI; simp add: delete_remove_def shim_Shutdown_def Let_def split: option.split)+

end
