(* ===== verification/ShimThreads.thy ===== *)
theory ShimThreads
  imports ShimLatch FakeDriver
begin

text \<open>
  The task service under concurrency. An RPC is a thread whose program counter names the next region
  of its handler (a locked region, a call of the driver, the publication of an event); the goroutine
  of a started exec is a thread too. An event calls an RPC, runs one region of one thread, or cancels
  the context of a waiter. The driver's operations are one region each.
\<close>

section \<open>Threads\<close>

datatype reply =
    RPid "32 word" | REmpty | RExit ExitResponse | RErr err

datatype 'w shim_thread =
    T_CreateCheck CreateTaskRequest
  | T_CreateSandbox CreateTaskRequest
  | T_CreateInsert CreateTaskRequest "'w Instance"
  | T_CreateLost CreateTaskRequest "'w Instance"
  | T_CreateEvent CreateTaskRequest
  | T_Start string string
  | T_KillLookup string string "32 word"
  | T_KillStop string nat "'w Instance" "32 word"
  | T_KillMark string nat "32 word"
  | T_KillEvent string "32 word" int
  | T_DeleteLookup string string
  | T_DeleteStop string nat "'w Instance"
  | T_DeleteMark string nat
  | T_DeleteExitEvent string nat int
  | T_DeleteRemove string nat
  | T_DeleteEvent string "32 word" int
  | T_Wait string string
  | T_WaitOn "nat + nat" nat
  | T_WaitRead "nat + nat"
  | T_Exec ExecProcessRequest
  | T_ExecRun "'w exec_job"
  | T_ExecMark "'w exec_job" "32 word"
  | T_ExecEvent "'w exec_job" "32 word" int
  | T_Shutdown
  | Replied reply
  | Crashed

datatype rpc =
    CallCreate CreateTaskRequest | CallStart string string | CallKill string string "32 word"
  | CallDelete string string | CallWait string string | CallExec ExecProcessRequest | CallShutdown

fun rpc_thread :: "rpc \<Rightarrow> 'w shim_thread" where
  "rpc_thread (CallCreate r) = T_CreateCheck r"
| "rpc_thread (CallStart tid eid) = T_Start tid eid"
| "rpc_thread (CallKill tid eid sig) = T_KillLookup tid eid sig"
| "rpc_thread (CallDelete tid eid) = T_DeleteLookup tid eid"
| "rpc_thread (CallWait tid eid) = T_Wait tid eid"
| "rpc_thread (CallExec r) = T_Exec r"
| "rpc_thread CallShutdown = T_Shutdown"

record 'w ShimSys =
  sy_svc :: "'w Service"
  sy_world :: 'w
  sy_threads :: "'w shim_thread list"

definition wait_key :: "string \<Rightarrow> nat \<Rightarrow> nat + nat" where
  "wait_key eid p = (if eid \<noteq> [] then Inr p else Inl p)"

definition wait_read :: "nat + nat \<Rightarrow> 'w Service \<Rightarrow> ExitResponse res" where
  "wait_read k s = (case k of Inl a \<Rightarrow> wait_task_read a s | Inr e \<Rightarrow> wait_exec_read e s)"

text \<open>
  One region: the thread's next program counter, a goroutine it started, the service and the world.
\<close>

fun shim_region ::
  "shim_env \<Rightarrow> 'w shim_thread \<Rightarrow> 'w Service \<Rightarrow> 'w \<Rightarrow>
   'w shim_thread \<times> 'w exec_job option \<times> 'w Service \<times> 'w" where
  "shim_region env (T_CreateCheck r) s w =
     (case create_check r s of
        Some e \<Rightarrow> (Replied (RErr e), None, s, w)
      | None \<Rightarrow> (T_CreateSandbox r, None, s, w))"
| "shim_region env (T_CreateSandbox r) s w =
     (case create_sandbox env r s w of
        (Ok i, s', w') \<Rightarrow> (T_CreateInsert r i, None, s', w')
      | (Err e, s', w') \<Rightarrow> (Replied (RErr e), None, s', w')
      | (Panic, s', w') \<Rightarrow> (Crashed, None, s', w'))"
| "shim_region env (T_CreateInsert r i) s w =
     (case create_insert r i s of
        (True, s') \<Rightarrow> (T_CreateEvent r, None, s', w)
      | (False, s') \<Rightarrow> (T_CreateLost r i, None, s', w))"
| "shim_region env (T_CreateLost r i) s w =
     (case inst_Stop i w of
        (Panic, w') \<Rightarrow> (Crashed, None, s, w')
      | (_, w') \<Rightarrow> (Replied (RErr (alreadyExists (ct_ID r))), None, s, w'))"
| "shim_region env (T_CreateEvent r) s w = (Replied (RPid (svc_pid s)), None, create_event r s, w)"
| "shim_region env (T_Start tid eid) s w =
     (case shim_Start tid eid s of
        (Ok pid, j, s') \<Rightarrow> (Replied (RPid pid), j, s', w)
      | (Err e, j, s') \<Rightarrow> (Replied (RErr e), j, s', w)
      | (Panic, j, s') \<Rightarrow> (Crashed, j, s', w))"
| "shim_region env (T_KillLookup tid eid sig) s w =
     (if eid \<noteq> [] then
        (case killExec tid eid s of
           Err e \<Rightarrow> (Replied (RErr e), None, s, w)
         | Ok u \<Rightarrow> (Replied REmpty, None, s, w)
         | Panic \<Rightarrow> (Crashed, None, s, w))
      else
        (case find_task tid s of
           None \<Rightarrow> (Replied (RErr (errNotFound tid)), None, s, w)
         | Some (a, ts) \<Rightarrow> (T_KillStop tid a (ts_inst ts) sig, None, s, w)))"
| "shim_region env (T_KillStop tid a i sig) s w =
     (case inst_Stop i w of
        (Panic, w') \<Rightarrow> (Crashed, None, s, w')
      | (_, w') \<Rightarrow> (T_KillMark tid a (kill_code sig), None, s, w'))"
| "shim_region env (T_KillMark tid a code) s w =
     (case mark_task a code (sh_now env) s of
        (Ok True, s') \<Rightarrow> (T_KillEvent tid code (sh_now env), None, s', w)
      | (Ok False, s') \<Rightarrow> (Replied REmpty, None, s', w)
      | (_, s') \<Rightarrow> (Crashed, None, s', w))"
| "shim_region env (T_KillEvent tid code t) s w = (Replied REmpty, None, exit_event tid code t s, w)"
| "shim_region env (T_DeleteLookup tid eid) s w =
     (if eid \<noteq> [] then
        (case deleteExec tid eid s of
           (Ok x, s') \<Rightarrow> (Replied (RExit x), None, s', w)
         | (Err e, s') \<Rightarrow> (Replied (RErr e), None, s', w)
         | (Panic, s') \<Rightarrow> (Crashed, None, s', w))
      else
        (case find_task tid s of
           None \<Rightarrow> (Replied (RErr (errNotFound tid)), None, s, w)
         | Some (a, ts) \<Rightarrow> (T_DeleteStop tid a (ts_inst ts), None, s, w)))"
| "shim_region env (T_DeleteStop tid a i) s w =
     (case inst_Stop i w of
        (Panic, w') \<Rightarrow> (Crashed, None, s, w')
      | (_, w') \<Rightarrow> (T_DeleteMark tid a, None, s, w'))"
| "shim_region env (T_DeleteMark tid a) s w =
     (case mark_task a 0 (sh_now env) s of
        (Ok True, s') \<Rightarrow> (T_DeleteExitEvent tid a (sh_now env), None, s', w)
      | (Ok False, s') \<Rightarrow> (T_DeleteRemove tid a, None, s', w)
      | (_, s') \<Rightarrow> (Crashed, None, s', w))"
| "shim_region env (T_DeleteExitEvent tid a t) s w = (T_DeleteRemove tid a, None, exit_event tid 0 t s, w)"
| "shim_region env (T_DeleteRemove tid a) s w =
     (case delete_remove tid a s of
        (Ok (code, t), s') \<Rightarrow> (T_DeleteEvent tid code t, None, s', w)
      | (_, s') \<Rightarrow> (Crashed, None, s', w))"
| "shim_region env (T_DeleteEvent tid code t) s w =
     (Replied (RExit (exit_response s code t)), None, delete_event tid code t s, w)"
| "shim_region env (T_Wait tid eid) s w =
     (case shim_Wait tid eid s of
        (WaitDone x, s') \<Rightarrow> (Replied (RExit x), None, s', w)
      | (WaitErr e, s') \<Rightarrow> (Replied (RErr e), None, s', w)
      | (WaitOn p ch, s') \<Rightarrow> (T_WaitOn (wait_key eid p) ch, None, s', w))"
| "shim_region env (T_WaitOn k ch) s w =
     (if ch \<in> svc_closed s then (T_WaitRead k, None, s, w) else (T_WaitOn k ch, None, s, w))"
| "shim_region env (T_WaitRead k) s w =
     (case wait_read k s of
        Ok x \<Rightarrow> (Replied (RExit x), None, s, w)
      | Err e \<Rightarrow> (Replied (RErr e), None, s, w)
      | Panic \<Rightarrow> (Crashed, None, s, w))"
| "shim_region env (T_Exec r) s w =
     (case shim_Exec r s of
        (Ok u, s') \<Rightarrow> (Replied REmpty, None, s', w)
      | (Err e, s') \<Rightarrow> (Replied (RErr e), None, s', w)
      | (Panic, s') \<Rightarrow> (Crashed, None, s', w))"
| "shim_region env (T_ExecRun j) s w =
     (case exec_run env j s w of
        (Ok code, s', w') \<Rightarrow> (T_ExecMark j code, None, s', w')
      | (_, s', w') \<Rightarrow> (Crashed, None, s', w'))"
| "shim_region env (T_ExecMark j code) s w =
     (case mark_exec (job_ptr j) code (sh_now env) s of
        (Ok True, s') \<Rightarrow> (T_ExecEvent j code (sh_now env), None, s', w)
      | (Ok False, s') \<Rightarrow> (Replied REmpty, None, s', w)
      | (_, s') \<Rightarrow> (Crashed, None, s', w))"
| "shim_region env (T_ExecEvent j code t) s w =
     (Replied REmpty, None, exec_exit_event (job_task j) (job_exec j) code t s, w)"
| "shim_region env T_Shutdown s w = (Replied REmpty, None, shim_Shutdown s, w)"
| "shim_region env (Replied r) s w = (Replied r, None, s, w)"
| "shim_region env Crashed s w = (Crashed, None, s, w)"

text \<open>A cancelled context ends a waiter with the context's error.\<close>

fun cancel :: "'w shim_thread \<Rightarrow> 'w shim_thread" where
  "cancel (T_WaitOn k ch) = Replied (RErr (Ext ''context canceled''))"
| "cancel t = t"

datatype shim_event = Call rpc | Run nat shim_env | Cancel nat

fun shim_step :: "shim_event \<Rightarrow> 'w ShimSys \<Rightarrow> 'w ShimSys" where
  "shim_step (Call c) y = y\<lparr>sy_threads := sy_threads y @ [rpc_thread c]\<rparr>"
| "shim_step (Run i env) y =
     (if i < length (sy_threads y) then
        (case shim_region env (sy_threads y ! i) (sy_svc y) (sy_world y) of
           (t, j, s, w) \<Rightarrow>
             \<lparr>sy_svc = s, sy_world = w,
              sy_threads = (sy_threads y)[i := t] @ (case j of None \<Rightarrow> [] | Some j \<Rightarrow> [T_ExecRun j])\<rparr>)
      else y)"
| "shim_step (Cancel i) y =
     (if i < length (sy_threads y) then y\<lparr>sy_threads := (sy_threads y)[i := cancel (sy_threads y ! i)]\<rparr>
      else y)"

fun shim_run :: "shim_event list \<Rightarrow> 'w ShimSys \<Rightarrow> 'w ShimSys" where
  "shim_run [] y = y"
| "shim_run (e # es) y = shim_run es (shim_step e y)"

lemma shim_run_append: "shim_run (es @ fs) y = shim_run fs (shim_run es y)"
  by (induction es arbitrary: y) auto

inductive shim_reach :: "'w ShimSys \<Rightarrow> bool" where
  init: "shim_reach \<lparr>sy_svc = SetPublisher p (NewService mgr d ts pid), sy_world = w, sy_threads = []\<rparr>"
| init_quiet: "shim_reach \<lparr>sy_svc = NewService mgr d ts pid, sy_world = w, sy_threads = []\<rparr>"
| step: "shim_reach y \<Longrightarrow> shim_reach (shim_step e y)"

lemma shim_reach_run: "shim_reach y \<Longrightarrow> shim_reach (shim_run es y)"
  by (induction es arbitrary: y) (auto intro: shim_reach.step)

section \<open>The invariant\<close>

text \<open>What a thread relies on: the cells it points to, and the channel it waits on.\<close>

definition has_latch :: "nat + nat \<Rightarrow> 'w Service \<Rightarrow> bool" where
  "has_latch k s \<longleftrightarrow> svc_latch s k \<noteq> None"

definition stopped_latch :: "nat + nat \<Rightarrow> 'w Service \<Rightarrow> bool" where
  "stopped_latch k s \<longleftrightarrow> (\<exists>l. svc_latch s k = Some l \<and> l_status l = Status_STOPPED)"

fun thread_ok :: "'w Service \<Rightarrow> 'w shim_thread \<Rightarrow> bool" where
  "thread_ok s (T_KillStop tid a i sig) = has_latch (Inl a) s"
| "thread_ok s (T_KillMark tid a code) = has_latch (Inl a) s"
| "thread_ok s (T_DeleteStop tid a i) = has_latch (Inl a) s"
| "thread_ok s (T_DeleteMark tid a) = has_latch (Inl a) s"
| "thread_ok s (T_DeleteExitEvent tid a t) = stopped_latch (Inl a) s"
| "thread_ok s (T_DeleteRemove tid a) = stopped_latch (Inl a) s"
| "thread_ok s (T_WaitOn k ch) = waiting k ch (svc_abs s)"
| "thread_ok s (T_WaitRead k) = stopped_latch k s"
| "thread_ok s (T_ExecRun j) = has_latch (Inr (job_ptr j)) s"
| "thread_ok s (T_ExecMark j code) = has_latch (Inr (job_ptr j)) s"
| "thread_ok s _ = True"

definition shim_inv :: "'w ShimSys \<Rightarrow> bool" where
  "shim_inv y \<longleftrightarrow> svc_ok (sy_svc y) \<and> (\<forall>t \<in> set (sy_threads y). thread_ok (sy_svc y) t)"

lemma stopped_has [simp]: "stopped_latch k s \<Longrightarrow> has_latch k s"
  by (auto simp: stopped_latch_def has_latch_def)

lemma has_latch_step: "lstep (svc_abs s) (svc_abs s') \<Longrightarrow> has_latch k s \<Longrightarrow> has_latch k s'"
  using lstep_advances [of "svc_abs s" "svc_abs s'" k] by (auto simp: has_latch_def)

lemma stopped_latch_step: "lstep (svc_abs s) (svc_abs s') \<Longrightarrow> stopped_latch k s \<Longrightarrow> stopped_latch k s'"
  using lstep_stopped [of "svc_abs s" "svc_abs s'" k] by (fastforce simp: stopped_latch_def)

lemma thread_ok_step:
  assumes "lstep (svc_abs s) (svc_abs s')" "thread_ok s t"
  shows "thread_ok s' t"
  using assms has_latch_step [OF assms(1)] stopped_latch_step [OF assms(1)] waiting_step [OF assms(1)]
  by (cases "(s, t)" rule: thread_ok.cases) auto

lemma has_latch_simps [simp]:
  "has_latch (Inl a) s \<longleftrightarrow> svc_theap s a \<noteq> None" "has_latch (Inr e) s \<longleftrightarrow> svc_eheap s e \<noteq> None"
  by (auto simp: has_latch_def)

lemma mark_task_stopped:
  assumes "svc_ok s" "svc_theap s a \<noteq> None"
  shows "stopped_latch (Inl a) (snd (mark_task a code now s))"
    "fst (mark_task a code now s) = Ok True \<or> fst (mark_task a code now s) = Ok False"
proof -
  from assms(2) obtain l where ts: "ls_latch (svc_abs s) (Inl a) = Some l" by auto
  note I = svc_okD(1) [OF assms(1)]
  show "stopped_latch (Inl a) (snd (mark_task a code now s))"
    using task_latch.mark_stops [OF I ts, of code now] by (auto simp: stopped_latch_def)
  show "fst (mark_task a code now s) = Ok True \<or> fst (mark_task a code now s) = Ok False"
    using task_latch.mark_result [OF I ts, of code now] by (metis fst_conv)
qed

lemma mark_exec_result:
  assumes "svc_ok s" "svc_eheap s e \<noteq> None"
  shows "fst (mark_exec e code now s) = Ok True \<or> fst (mark_exec e code now s) = Ok False"
proof -
  from assms(2) obtain l where es: "ls_latch (svc_abs s) (Inr e) = Some l" by auto
  show ?thesis
    using exec_latch.mark_result [OF svc_okD(1) [OF assms(1)] es, of code now] by (metis fst_conv)
qed

lemma quiet_start:
  assumes "svc_ok s" "shim_Start tid eid s = (r, j, s')"
  shows "quiet_step s s' \<and> (\<forall>x. j = Some x \<longrightarrow> svc_eheap s' (job_ptr x) \<noteq> None)"
proof (cases "eid = []")
  case True
  then show ?thesis
    using assms quiet_start_task [OF assms(1)] by (auto simp: shim_Start_def split: prod.splits)
next
  case False
  obtain q s1 where q: "exec_begin tid eid s = (q, s1)" by fastforce
  have "s' = s1" "\<And>x. j = Some x \<Longrightarrow> \<exists>pid. q = Ok (pid, x)"
    using assms(2) False q by (auto simp: shim_Start_def split: res.splits)
  moreover have "svc_eheap s1 (job_ptr x) \<noteq> None" if "q = Ok (pid, x)" for pid x
    using q that by (auto simp: exec_begin_def split: sum.splits if_splits)
  ultimately show ?thesis using quiet_exec_begin [OF assms(1) q] by auto
qed

lemma quiet_wait:
  assumes "svc_ok s" "shim_Wait tid eid s = (r, s')"
  shows "quiet_step s s' \<and> (\<forall>p ch. r = WaitOn p ch \<longrightarrow> waiting (wait_key eid p) ch (svc_abs s'))"
proof (cases "eid = []")
  case True
  then have w: "wait_task tid s = (r, s')" using assms(2) by (simp add: shim_Wait_def)
  show ?thesis
    using quiet_wait_task [OF assms(1) w] task_latch.await_waiting w True by (auto simp: wait_key_def)
next
  case False
  then have w: "wait_exec tid eid s = (r, s')" using assms(2) by (simp add: shim_Wait_def)
  show ?thesis
    using quiet_wait_exec [OF assms(1) w] exec_latch.await_waiting [of "(tid, eid)"] w False
    by (auto simp: wait_key_def)
qed

text \<open>The threads that have stopped a task or an exec and not yet published its exit.\<close>

fun pending :: "'w shim_thread \<Rightarrow> bool" where
  "pending (T_KillEvent tid code t) = True"
| "pending (T_DeleteExitEvent tid a t) = True"
| "pending (T_ExecEvent j code t) = True"
| "pending _ = False"

abbreviation stopped_of :: "'w Service \<Rightarrow> (nat + nat) set" where
  "stopped_of s \<equiv> stopped_keys (svc_abs s)"

text \<open>
  One region keeps the service well-formed and leaves its thread, and a goroutine it starts, in order.
  It either records no exit and publishes none, or records one and becomes pending, or was pending
  and publishes.
\<close>

definition region_ok ::
  "'w Service \<Rightarrow> 'w shim_thread \<Rightarrow> 'w shim_thread \<times> 'w exec_job option \<times> 'w Service \<times> 'w \<Rightarrow> bool" where
  "region_ok s t q = (case q of (t', j, s', w') \<Rightarrow>
     good_step s s' \<and> thread_ok s' t' \<and> (\<forall>x. j = Some x \<longrightarrow> thread_ok s' (T_ExecRun x)) \<and>
     svc_publisher s' = svc_publisher s \<and>
     (if pending t then \<not> pending t' \<and> stopped_of s' = stopped_of s \<and>
        exits s' = (if svc_publisher s = None then exits s else Suc (exits s))
      else exits s' = exits s \<and>
        (if pending t' then \<exists>k. k \<notin> stopped_of s \<and> stopped_of s' = insert k (stopped_of s)
         else stopped_of s' = stopped_of s)))"

lemma quiet_stopped_of: "quiet_step s s' \<Longrightarrow> stopped_of s' = stopped_of s"
  by (simp add: quiet_step_def lquiet_stopped)

lemma region_quiet:
  "quiet_step s s' \<Longrightarrow> same_pub s s' \<Longrightarrow> thread_ok s' t' \<Longrightarrow> \<not> pending t \<Longrightarrow> \<not> pending t' \<Longrightarrow>
   region_ok s t (t', None, s', w)"
  by (simp add: region_ok_def quiet_good same_pub_def quiet_stopped_of)

lemma region_same: "svc_ok s \<Longrightarrow> thread_ok s t' \<Longrightarrow> \<not> pending t \<Longrightarrow> \<not> pending t' \<Longrightarrow> region_ok s t (t', None, s, w)"
  by (rule region_quiet) (simp_all add: quiet_refl)

lemma find_task_latch: "find_task tid s = Some (a, ts) \<Longrightarrow> svc_theap s a \<noteq> None"
  by (simp add: find_task_SomeD)

lemma region_mark:
  assumes "good_step s s'" "same_pub s s'" "stopped_of s' = insert k (stopped_of s)"
    "b = (k \<notin> stopped_of s)" "thread_ok s' t1" "thread_ok s' t2" "pending t1" "\<not> pending t2" "\<not> pending t"
  shows "region_ok s t (if b then t1 else t2, None, s', w)"
  using assms by (auto simp: region_ok_def same_pub_def insert_absorb)

lemma region_mark_task:
  assumes "svc_ok s" "svc_theap s a \<noteq> None"
  shows "region_ok s (T_KillMark tid a code) (shim_region env (T_KillMark tid a code) s w)"
    "region_ok s (T_DeleteMark tid a) (shim_region env (T_DeleteMark tid a) s w)"
proof -
  from assms(2) obtain l where l: "ls_latch (svc_abs s) (Inl a) = Some l" by auto
  have m: "\<exists>b s'. mark_task a c (sh_now env) s = (Ok b, s') \<and> good_step s s' \<and> stopped_latch (Inl a) s' \<and>
      same_pub s s' \<and> stopped_of s' = insert (Inl a) (stopped_of s) \<and> b = (Inl a \<notin> stopped_of s)" for c
    using good_mark_task [OF assms, of c "sh_now env"] mark_task_stopped [OF assms, of c "sh_now env"]
      task_latch.mark_keys [OF svc_okD(1) [OF assms(1)] l, of c "sh_now env"]
      same_pub_mark(1) [of s a c "sh_now env"]
    by (cases "mark_task a c (sh_now env) s") auto
  obtain b s' where k: "mark_task a code (sh_now env) s = (Ok b, s')" "good_step s s'" "same_pub s s'"
      "stopped_of s' = insert (Inl a) (stopped_of s)" "b = (Inl a \<notin> stopped_of s)"
    using m [of code] by blast
  have "shim_region env (T_KillMark tid a code) s w =
      (if b then T_KillEvent tid code (sh_now env) else Replied REmpty, None, s', w)"
    using k(1) by (cases b) simp_all
  then show "region_ok s (T_KillMark tid a code) (shim_region env (T_KillMark tid a code) s w)"
    using region_mark [OF k(2-5)] by simp
  obtain b s' where d: "mark_task a 0 (sh_now env) s = (Ok b, s')" "good_step s s'" "same_pub s s'"
      "stopped_of s' = insert (Inl a) (stopped_of s)" "b = (Inl a \<notin> stopped_of s)" "stopped_latch (Inl a) s'"
    using m [of 0] by blast
  have "shim_region env (T_DeleteMark tid a) s w =
      (if b then T_DeleteExitEvent tid a (sh_now env) else T_DeleteRemove tid a, None, s', w)"
    using d(1) by (cases b) simp_all
  then show "region_ok s (T_DeleteMark tid a) (shim_region env (T_DeleteMark tid a) s w)"
    using region_mark [OF d(2-5)] d(6) by simp
qed

lemma region_exec:
  assumes "svc_ok s" "svc_eheap s (job_ptr j) \<noteq> None"
  shows "region_ok s (T_ExecRun j) (shim_region env (T_ExecRun j) s w)"
    "region_ok s (T_ExecMark j code) (shim_region env (T_ExecMark j code) s w)"
proof -
  obtain q s' w' where r: "exec_run env j s w = (q, s', w')" by (metis prod_cases3)
  have "quiet_step s s'" by (rule quiet_exec_run [OF assms(1) r])
  moreover have "svc_eheap s' (job_ptr j) \<noteq> None"
    using core_eqD(3) [OF exec_run_core [OF r]] assms(2) by simp
  ultimately show "region_ok s (T_ExecRun j) (shim_region env (T_ExecRun j) s w)"
    using r same_pub_exec_run [OF r] by (cases q) (simp_all add: region_quiet)
  from assms(2) obtain l where l: "ls_latch (svc_abs s) (Inr (job_ptr j)) = Some l" by auto
  obtain b s1 where m: "mark_exec (job_ptr j) code (sh_now env) s = (Ok b, s1)"
    using mark_exec_result [OF assms, of code "sh_now env"] by (metis prod.collapse)
  note k = exec_latch.mark_keys [OF svc_okD(1) [OF assms(1)] l, of code "sh_now env"]
  have "good_step s s1" "same_pub s s1"
    using good_mark_exec [OF assms, of code "sh_now env"] same_pub_mark(2) [of s "job_ptr j" code "sh_now env"] m
    by simp_all
  moreover have "shim_region env (T_ExecMark j code) s w =
      (if b then T_ExecEvent j code (sh_now env) else Replied REmpty, None, s1, w)"
    using m by (cases b) simp_all
  ultimately show "region_ok s (T_ExecMark j code) (shim_region env (T_ExecMark j code) s w)"
    using region_mark [of s s1 "Inr (job_ptr j)" b] k m by simp
qed

lemma region_create:
  assumes "svc_ok s"
  shows "region_ok s (T_CreateCheck r) (shim_region env (T_CreateCheck r) s w)"
    "region_ok s (T_CreateSandbox r) (shim_region env (T_CreateSandbox r) s w)"
    "region_ok s (T_CreateInsert r i) (shim_region env (T_CreateInsert r i) s w)"
    "region_ok s (T_CreateLost r i) (shim_region env (T_CreateLost r i) s w)"
    "region_ok s (T_CreateEvent r) (shim_region env (T_CreateEvent r) s w)"
proof -
  show "region_ok s (T_CreateCheck r) (shim_region env (T_CreateCheck r) s w)"
    using assms by (simp add: region_same split: option.split)
  obtain q s' w' where c: "create_sandbox env r s w = (q, s', w')" by (metis prod_cases3)
  then show "region_ok s (T_CreateSandbox r) (shim_region env (T_CreateSandbox r) s w)"
    using quiet_create_sandbox [OF assms c] same_pub_create(2) [OF c]
    by (cases q) (simp_all add: region_quiet)
  obtain b s1 where i: "create_insert r i s = (b, s1)" by fastforce
  then show "region_ok s (T_CreateInsert r i) (shim_region env (T_CreateInsert r i) s w)"
    using quiet_create_insert [OF assms, of r i] same_pub_create(1) [of s r i]
    by (cases b) (simp_all add: region_quiet)
  show "region_ok s (T_CreateLost r i) (shim_region env (T_CreateLost r i) s w)"
    using assms by (simp add: region_same split: prod.split res.split)
  show "region_ok s (T_CreateEvent r) (shim_region env (T_CreateEvent r) s w)"
    using region_quiet [OF quiet_same_core [OF assms same_core_create_event]] by simp
qed

lemma region_delete_remove:
  assumes "svc_ok s" "stopped_latch (Inl a) s"
  shows "region_ok s (T_DeleteRemove tid a) (shim_region env (T_DeleteRemove tid a) s w)"
proof -
  obtain q s' where d: "delete_remove tid a s = (q, s')" by fastforce
  then have "quiet_step s s'" "same_pub s s'"
    using quiet_delete_remove [OF assms(1), of tid a] same_pub_rest(1) [of s tid a] by simp_all
  with d show ?thesis by (auto simp: region_quiet split: res.split prod.split)
qed

lemma region_publish:
  assumes "svc_ok s" "same_core s s'" "thread_ok s' t'" "pending t" "\<not> pending t'"
    "exits s' = (if svc_publisher s = None then exits s else Suc (exits s))"
  shows "region_ok s t (t', None, s', w)"
  using assms quiet_same_core [OF assms(1,2)]
  by (simp add: region_ok_def quiet_good quiet_stopped_of same_coreD(10))

lemma region_exit_events:
  assumes "svc_ok s"
  shows "region_ok s (T_KillEvent tid code t) (shim_region env (T_KillEvent tid code t) s w)"
    "stopped_latch (Inl a) s \<Longrightarrow>
     region_ok s (T_DeleteExitEvent tid a t) (shim_region env (T_DeleteExitEvent tid a t) s w)"
    "region_ok s (T_DeleteEvent tid code t) (shim_region env (T_DeleteEvent tid code t) s w)"
    "region_ok s (T_ExecEvent j code t) (shim_region env (T_ExecEvent j code t) s w)"
proof -
  show "region_ok s (T_KillEvent tid code t) (shim_region env (T_KillEvent tid code t) s w)"
    using region_publish [OF assms same_core_exit_event] by simp
  have "lstep (svc_abs s) (svc_abs (exit_event tid 0 t s))"
    using quiet_good [OF quiet_same_core [OF assms same_core_exit_event]] by (simp add: good_step_def)
  then show "region_ok s (T_DeleteExitEvent tid a t) (shim_region env (T_DeleteExitEvent tid a t) s w)"
    if "stopped_latch (Inl a) s"
    using region_publish [OF assms same_core_exit_event] stopped_latch_step that by fastforce
  show "region_ok s (T_DeleteEvent tid code t) (shim_region env (T_DeleteEvent tid code t) s w)"
    using region_quiet [OF quiet_same_core [OF assms same_core_delete_event]] by simp
  show "region_ok s (T_ExecEvent j code t) (shim_region env (T_ExecEvent j code t) s w)"
    using region_publish [OF assms same_core_exec_exit_event] by simp
qed

lemma region_wait:
  assumes "svc_ok s"
  shows "region_ok s (T_Wait tid eid) (shim_region env (T_Wait tid eid) s w)"
    "waiting k ch (svc_abs s) \<Longrightarrow> region_ok s (T_WaitOn k ch) (shim_region env (T_WaitOn k ch) s w)"
    "region_ok s (T_WaitRead k) (shim_region env (T_WaitRead k) s w)"
proof -
  obtain q s' where r: "shim_Wait tid eid s = (q, s')" by fastforce
  show "region_ok s (T_Wait tid eid) (shim_region env (T_Wait tid eid) s w)"
    using quiet_wait [OF assms r] same_pub_exec(3) [OF r] r by (cases q) (simp_all add: region_quiet)
  show "region_ok s (T_WaitOn k ch) (shim_region env (T_WaitOn k ch) s w)" if "waiting k ch (svc_abs s)"
    using that assms waiting_closed_iff [OF svc_okD(1) [OF assms] that]
    by (auto simp: stopped_latch_def waiting_def intro!: region_same)
  show "region_ok s (T_WaitRead k) (shim_region env (T_WaitRead k) s w)"
    using assms by (simp add: region_same split: res.split)
qed

lemma region_simple:
  assumes "svc_ok s"
  shows "region_ok s (T_Start tid eid) (shim_region env (T_Start tid eid) s w)"
    "region_ok s (T_KillLookup tid eid sig) (shim_region env (T_KillLookup tid eid sig) s w)"
    "region_ok s (T_DeleteLookup tid eid) (shim_region env (T_DeleteLookup tid eid) s w)"
    "region_ok s (T_Exec r) (shim_region env (T_Exec r) s w)"
    "region_ok s T_Shutdown (shim_region env T_Shutdown s w)"
proof -
  obtain q j s' where st: "shim_Start tid eid s = (q, j, s')" by (metis prod_cases3)
  then show "region_ok s (T_Start tid eid) (shim_region env (T_Start tid eid) s w)"
    using quiet_start [OF assms st] same_pub_start [OF st]
    by (cases q) (auto simp: region_ok_def quiet_good same_pub_def quiet_stopped_of)
  show "region_ok s (T_KillLookup tid eid sig) (shim_region env (T_KillLookup tid eid sig) s w)"
    using assms by (auto simp: region_same find_task_latch split: res.split option.split)
  obtain d s1 where d: "deleteExec tid eid s = (d, s1)" by fastforce
  show "region_ok s (T_DeleteLookup tid eid) (shim_region env (T_DeleteLookup tid eid) s w)"
    using assms quiet_deleteExec [OF assms d] same_pub_exec(1) [OF d] d
    by (auto simp: region_same region_quiet find_task_latch split: res.split option.split)
  obtain e s2 where e: "shim_Exec r s = (e, s2)" by fastforce
  then show "region_ok s (T_Exec r) (shim_region env (T_Exec r) s w)"
    using quiet_shim_Exec [OF assms e] same_pub_exec(2) [OF e] by (cases e) (simp_all add: region_quiet)
  show "region_ok s T_Shutdown (shim_region env T_Shutdown s w)"
    using quiet_shim_Shutdown [OF assms] by (simp add: region_quiet)
qed

lemma region_all:
  assumes "svc_ok s" "thread_ok s t"
  shows "region_ok s t (shim_region env t s w)"
proof (cases t)
  case (T_KillStop tid a i sig)
  then show ?thesis using assms by (auto simp: region_same split: prod.split res.split)
next
  case (T_DeleteStop tid a i)
  then show ?thesis using assms by (auto simp: region_same split: prod.split res.split)
qed (use assms region_create [OF assms(1)] region_mark_task [OF assms(1)] region_exec [OF assms(1)]
    region_delete_remove [OF assms(1)] region_exit_events [OF assms(1)] region_wait [OF assms(1)]
    region_simple [OF assms(1)] in \<open>simp_all add: region_same\<close>)

lemma cancel_ok: "thread_ok s t \<Longrightarrow> thread_ok s (cancel t)"
  by (cases t) auto

lemma shim_step_inv:
  assumes "shim_inv y"
  shows "shim_inv (shim_step e y) \<and> lstep (svc_abs (sy_svc y)) (svc_abs (sy_svc (shim_step e y)))"
proof (cases e)
  case (Call c)
  have "thread_ok s (rpc_thread c)" for s :: "'a Service" by (cases c) auto
  with Call assms show ?thesis by (auto simp: shim_inv_def lstep.skip)
next
  case (Cancel i)
  have "thread_ok (sy_svc y) x" if "x \<in> set ((sy_threads y)[i := cancel (sy_threads y ! i)])"
    "i < length (sy_threads y)" for x
    using that assms cancel_ok [of "sy_svc y" "sy_threads y ! i"]
      set_update_subset_insert [of "sy_threads y" i "cancel (sy_threads y ! i)"]
    by (auto simp: shim_inv_def)
  with Cancel assms show ?thesis by (auto simp: shim_inv_def lstep.skip)
next
  case (Run i env)
  show ?thesis
  proof (cases "i < length (sy_threads y)")
    case False
    with Run assms show ?thesis by (simp add: lstep.skip)
  next
    case True
    obtain t j s w where r: "shim_region env (sy_threads y ! i) (sy_svc y) (sy_world y) = (t, j, s, w)"
      by (metis prod_cases4)
    have "region_ok (sy_svc y) (sy_threads y ! i) (t, j, s, w)"
      using region_all [of "sy_svc y" "sy_threads y ! i" env "sy_world y"] True assms r
      by (simp add: shim_inv_def)
    then have st: "good_step (sy_svc y) s" "thread_ok s t" "\<And>x. j = Some x \<Longrightarrow> thread_ok s (T_ExecRun x)"
      by (auto simp: region_ok_def)
    have "thread_ok s x" if "x \<in> set (sy_threads y)" for x
    proof (rule thread_ok_step)
      show "lstep (svc_abs (sy_svc y)) (svc_abs s)" using st(1) by (simp add: good_step_def)
      show "thread_ok (sy_svc y) x" using that assms by (simp add: shim_inv_def)
    qed
    with st Run True r show ?thesis
      using set_update_subset_insert [of "sy_threads y" i t]
      by (auto simp: shim_inv_def good_step_def split: option.splits)
  qed
qed

lemma svc_ok_SetPublisher: "svc_ok (SetPublisher p s) = svc_ok s"
  using svc_latch_same [of "SetPublisher p s" s]
  by (simp add: svc_ok_def svc_wf_def SetPublisher_def svc_abs_def)

lemma shim_reach_inv: "shim_reach y \<Longrightarrow> shim_inv y"
proof (induction rule: shim_reach.induct)
  case (step y e)
  then show ?case using shim_step_inv by blast
qed (simp_all add: shim_inv_def svc_ok_New svc_ok_SetPublisher)

section \<open>Properties of the service under concurrency\<close>

lemma shim_run_inv:
  "shim_inv y \<Longrightarrow> shim_inv (shim_run es y)"
  by (induction es arbitrary: y) (use shim_step_inv in auto)

lemma run_stopped:
  assumes "shim_inv y" "svc_latch (sy_svc y) k = Some l" "l_status l = Status_STOPPED"
  shows "svc_latch (sy_svc (shim_run es y)) k = Some l"
  using assms
proof (induction es arbitrary: y)
  case (Cons e es)
  note st = shim_step_inv [OF Cons.prems(1), of e]
  have "svc_latch (sy_svc (shim_step e y)) k = Some l"
    using lstep_stopped [OF conjunct2 [OF st], of k l] Cons.prems(2,3) by simp
  then show ?case using Cons.IH [of "shim_step e y"] st Cons.prems(3) by simp
qed simp

lemma run_advances:
  assumes "shim_inv y" "svc_latch (sy_svc y) k = Some l"
  shows "\<exists>l'. svc_latch (sy_svc (shim_run es y)) k = Some l' \<and> l_status l \<le> l_status l'"
  using assms
proof (induction es arbitrary: y l)
  case (Cons e es)
  note st = shim_step_inv [OF Cons.prems(1), of e]
  obtain l1 where l1: "svc_latch (sy_svc (shim_step e y)) k = Some l1" "l_status l \<le> l_status l1"
    using lstep_advances [OF conjunct2 [OF st], of k l] Cons.prems(2) by auto
  then show ?case using Cons.IH [of "shim_step e y" l1] st by fastforce
qed auto

text \<open>
  C4. The exit of a task is recorded once and for all: in any reachable state of the service, once a
  task is stopped no interleaving of RPCs and goroutines changes its exit status, its exit time or
  its status again, and a task that is not stopped never goes back to an earlier status.
\<close>

theorem exit_record_permanent:
  assumes "shim_reach y" "svc_theap (sy_svc y) a = Some ts"
  shows "\<exists>ts'. svc_theap (sy_svc (shim_run es y)) a = Some ts' \<and>
     l_status ts \<le> l_status ts' \<and>
     (l_status ts = Status_STOPPED \<longrightarrow> l_status ts' = Status_STOPPED \<and>
        l_exitStatus ts' = l_exitStatus ts \<and> l_exitedAt ts' = l_exitedAt ts \<and> l_waiters ts' = [])"
proof -
  note inv = shim_reach_inv [OF assms(1)]
  have l: "svc_latch (sy_svc y) (Inl a) = Some (latch.truncate ts)" using assms(2) by simp
  obtain l' where l': "svc_latch (sy_svc (shim_run es y)) (Inl a) = Some l'"
    "l_status ts \<le> l_status l'"
    using run_advances [OF inv l, of es] unfolding truncate_sel by blast
  then obtain ts' where ts': "svc_theap (sy_svc (shim_run es y)) a = Some ts'" "l' = latch.truncate ts'"
    by auto
  have "l' = latch.truncate ts" if "l_status ts = Status_STOPPED"
  proof -
    have "l_status (latch.truncate ts) = Status_STOPPED" using that by simp
    from run_stopped [OF inv l this, of es] l'(1) show ?thesis by (metis option.inject)
  qed
  then have "l_status ts = Status_STOPPED \<longrightarrow> l_status l' = Status_STOPPED \<and>
      l_exitStatus l' = l_exitStatus ts \<and> l_exitedAt l' = l_exitedAt ts" by auto
  moreover have "l_status l' = Status_STOPPED \<Longrightarrow> l_waiters l' = []"
    using linvD(3) [of "svc_abs (sy_svc (shim_run es y))" "Inl a" l'] l'(1) shim_run_inv [OF inv, of es]
    by (simp add: shim_inv_def svc_ok_def)
  ultimately show ?thesis using l' ts' by auto
qed

text \<open>
  C9. No wake-up is lost and none comes early: a waiter whose task or exec has stopped runs on to
  return the recorded exit, whenever the stop happened relative to its registration, and a waiter
  whose task or exec has not stopped stays blocked.
\<close>

theorem wait_returns_exit:
  assumes "shim_reach y" "i < length (sy_threads y)" "sy_threads y ! i = T_WaitOn k ch"
    "svc_latch (sy_svc y) k = Some l"
  shows "sy_threads (shim_run [Run i e, Run i f] y) ! i =
     (if l_status l = Status_STOPPED then Replied (RExit (wait_response (l_exitStatus l) (l_exitedAt l)))
      else T_WaitOn k ch)"
proof -
  note inv = shim_reach_inv [OF assms(1)]
  have ok: "svc_ok (sy_svc y)" using inv by (simp add: shim_inv_def)
  have "thread_ok (sy_svc y) (T_WaitOn k ch)"
    using inv assms(2,3) by (metis nth_mem shim_inv_def)
  then have "ch \<in> svc_closed (sy_svc y) \<longleftrightarrow> l_status l = Status_STOPPED"
    using waiting_closed_iff [OF svc_okD(1) [OF ok]] assms(4) by simp
  moreover have "wait_read k (sy_svc y) = Ok (wait_response (l_exitStatus l) (l_exitedAt l))"
    using assms(4) task_latch.look_read exec_latch.look_read
    by (cases k) (auto simp: wait_read_def wait_task_read_def wait_exec_read_def)
  ultimately show ?thesis using assms(2,3) by (simp split: prod.splits)
qed

text \<open>The regions that close channels or follow a pointer.\<close>

fun latch_region :: "'w shim_thread \<Rightarrow> bool" where
  "latch_region (T_KillMark tid a code) = True"
| "latch_region (T_DeleteMark tid a) = True"
| "latch_region (T_DeleteRemove tid a) = True"
| "latch_region (T_WaitRead k) = True"
| "latch_region (T_ExecMark j code) = True"
| "latch_region _ = False"

lemma stopped_read: "stopped_latch k s \<Longrightarrow> \<exists>x. wait_read k s = Ok x"
  by (cases k) (auto simp: stopped_latch_def wait_read_def wait_task_read_def wait_exec_read_def)

lemma region_no_crash:
  assumes "svc_ok s" "thread_ok s t" "latch_region t"
  shows "fst (shim_region env t s w) \<noteq> Crashed"
proof (cases t)
  case (T_KillMark tid a code)
  then show ?thesis
    using assms mark_task_stopped(2) [OF assms(1), of a code "sh_now env"] by (auto split: prod.split)
next
  case (T_DeleteMark tid a)
  then show ?thesis
    using assms mark_task_stopped(2) [OF assms(1), of a 0 "sh_now env"] by (auto split: prod.split)
next
  case (T_DeleteRemove tid a)
  then show ?thesis
    using assms by (auto simp: delete_remove_def stopped_latch_def Let_def)
next
  case (T_WaitRead k)
  then show ?thesis using assms stopped_read [of k s] by auto
next
  case (T_ExecMark j code)
  then show ?thesis
    using assms mark_exec_result [OF assms(1), of "job_ptr j" code "sh_now env"]
    by (auto split: prod.split)
qed (use assms in auto)

text \<open>
  C26. No region that marks an exit, removes a task or reads an exit record ever panics: in every
  reachable state, running such a thread does not close a channel twice and finds its cell.
\<close>

theorem latch_regions_never_panic:
  assumes "shim_reach y" "i < length (sy_threads y)" "latch_region (sy_threads y ! i)"
  shows "sy_threads (shim_step (Run i env) y) ! i \<noteq> Crashed"
proof -
  have "svc_ok (sy_svc y)" "thread_ok (sy_svc y) (sy_threads y ! i)"
    using shim_reach_inv [OF assms(1)] assms(2) by (auto simp: shim_inv_def)
  from region_no_crash [OF this assms(3), of env "sy_world y"] show ?thesis
    using assms(2) by (auto simp: nth_append split: prod.splits)
qed

section \<open>Runs of the service on the in-memory driver\<close>

definition env0 :: shim_env where
  "env0 = \<lparr>sh_ReadFile = (\<lambda>_. None), sh_annotations = (\<lambda>_. None), sh_namespaces = (\<lambda>_. None),
     sh_open = (\<lambda>_. None), sh_now = 5\<rparr>"

definition sys0 :: "FakeWorld ShimSys" where
  "sys0 = \<lparr>sy_svc = NewService (fake_manager ''fake'') ''fake'' None 7,
     sy_world = NewFakeWorld fork_rnd, sy_threads = []\<rparr>"

definition req0 :: CreateTaskRequest where
  "req0 = \<lparr>ct_ID = ''p'', ct_Bundle = []\<rparr>"

fun runs :: "nat \<Rightarrow> nat \<Rightarrow> shim_event list" where
  "runs i 0 = []"
| "runs i (Suc n) = Run i env0 # runs i n"

lemma runs_numeral:
  "runs i 1 = [Run i env0]" "runs i 2 = [Run i env0, Run i env0]"
  "runs i 3 = [Run i env0, Run i env0, Run i env0]"
  "runs i 4 = [Run i env0, Run i env0, Run i env0, Run i env0]"
  "runs i 6 = [Run i env0, Run i env0, Run i env0, Run i env0, Run i env0, Run i env0]"
  by (simp_all add: numeral_eq_Suc)

lemma sys0_reach: "shim_reach sys0"
  unfolding sys0_def by (rule shim_reach.init_quiet)

lemmas shim_defs =
  env0_def sys0_def req0_def NewService_def create_check_def create_sandbox_def create_insert_def
  create_event_def new_task_def publishWarn_def publish_def bundleAnnotation_def
  find_task_def mark_task_def exit_event_def log_exit_def publishTaskExit_def delete_remove_def
  delete_event_def exit_response_def latch_exit_def shim_Wait_def wait_task_def add_waiter_def
  wait_response_def wait_key_def wait_read_def wait_task_read_def kill_code_def tspb_def

lemmas fake_run_defs =
  fork_rnd_def fake_manager_def RegisterDriver_def NewManager_def NewFakeWorld_def
  mgr_Create_def track_def fake_Create_def fake_alloc_def fake_Stop_def example_ids

text \<open>A task, a waiter on it, and a kill with SIGTERM.\<close>

definition kill_events :: "shim_event list" where
  "kill_events = Call (CallCreate req0) # runs 0 4 @ Call (CallWait ''p'' []) # runs 1 1 @
     Call (CallKill ''p'' [] 15) # runs 2 3"

definition killed :: "FakeWorld ShimSys" where
  "killed = shim_run kill_events sys0"

lemma killed_facts:
  "sy_threads killed = [Replied (RPid 7), T_WaitOn (Inl 0) 0, T_KillEvent ''p'' 143 5]"
  "map_option latch.truncate (svc_theap (sy_svc killed) 0) =
     Some \<lparr>l_status = Status_STOPPED, l_exitStatus = 143, l_exitedAt = 5, l_waiters = []\<rparr>"
  by (simp_all add: killed_def kill_events_def runs_numeral shim_defs fake_run_defs latch.truncate_def)

lemma killed_reach: "shim_reach killed"
  unfolding killed_def by (rule shim_reach_run [OF sys0_reach])

lemma killed_task: "\<exists>ts. svc_theap (sy_svc killed) 0 = Some ts \<and> l_status ts = Status_STOPPED \<and>
    l_exitStatus ts = 143"
  using killed_facts(2) by (auto simp: latch.truncate_def)

theorem exit_record_permanent_witness:
  "\<exists>ts. svc_theap (sy_svc (shim_run [Call (CallDelete ''p'' []), Run 3 env0, Run 3 env0, Run 3 env0] killed)) 0 =
     Some ts \<and> l_exitStatus ts = 143"
proof -
  obtain ts where ts: "svc_theap (sy_svc killed) 0 = Some ts" "l_status ts = Status_STOPPED"
    "l_exitStatus ts = 143" using killed_task by blast
  from exit_record_permanent [OF killed_reach ts(1),
      of "[Call (CallDelete ''p'' []), Run 3 env0, Run 3 env0, Run 3 env0]"] ts(2,3)
  show ?thesis by auto
qed

theorem wait_returns_exit_witness:
  "sy_threads (shim_run [Run 1 env0, Run 1 env0] killed) ! 1 = Replied (RExit (wait_response 143 5))"
  using wait_returns_exit [OF killed_reach, of 1 "Inl 0" 0
      "\<lparr>l_status = Status_STOPPED, l_exitStatus = 143, l_exitedAt = 5, l_waiters = []\<rparr>" env0 env0]
    killed_facts by simp

text \<open>The same run, stopped before the mark.\<close>

definition killing :: "FakeWorld ShimSys" where
  "killing = shim_run (Call (CallCreate req0) # runs 0 4 @ Call (CallWait ''p'' []) # runs 1 1 @
     Call (CallKill ''p'' [] 15) # runs 2 2) sys0"

lemma killing_facts:
  "sy_threads killing = [Replied (RPid 7), T_WaitOn (Inl 0) 0, T_KillMark ''p'' 0 143]"
  by (simp add: killing_def runs_numeral shim_defs fake_run_defs)

lemma killing_reach: "shim_reach killing"
  unfolding killing_def by (rule shim_reach_run [OF sys0_reach])

theorem latch_regions_never_panic_witness: "sy_threads (shim_step (Run 2 env0) killing) ! 2 \<noteq> Crashed"
  using latch_regions_never_panic [OF killing_reach, of 2 env0] by (simp add: killing_facts)

text \<open>
  C40. A delete can remove its successor. \<open>Delete\<close> looks its task up, works unlocked, and at the end
  removes whatever the map holds under the identifier: in every reachable state in which another task
  is under it by then, that task is dropped although no RPC asked for it. Its cell and the world stay as
  they are, so its sandbox stays alive, but no RPC finds it any more; the delete goes on to answer with
  the exit of the task it looked up.
\<close>

theorem delete_drops_successor:
  assumes "shim_reach y" "i < length (sy_threads y)" "sy_threads y ! i = T_DeleteRemove tid a"
    and "svc_tasks (sy_svc y) tid = Some b" "b \<noteq> a" and "y' = shim_step (Run i env) y"
  shows "svc_tasks (sy_svc y') = (svc_tasks (sy_svc y))(tid := None) \<and> find_task tid (sy_svc y') = None \<and>
     svc_theap (sy_svc y') = svc_theap (sy_svc y) \<and> svc_theap (sy_svc y) b \<noteq> None \<and> sy_world y' = sy_world y \<and>
     (\<exists>old. svc_theap (sy_svc y) a = Some old \<and> l_status old = Status_STOPPED \<and>
        sy_threads y' = (sy_threads y)[i := T_DeleteEvent tid (l_exitStatus old) (l_exitedAt old)])"
proof -
  have inv: "svc_ok (sy_svc y)" "thread_ok (sy_svc y) (T_DeleteRemove tid a)"
    using shim_reach_inv [OF assms(1)] nth_mem [OF assms(2)] assms(3) by (auto simp: shim_inv_def)
  then obtain old where old: "svc_theap (sy_svc y) a = Some old" "l_status old = Status_STOPPED"
    by (auto simp: stopped_latch_def)
  have "svc_theap (sy_svc y) b \<noteq> None" using svc_okD(2) [OF inv(1)] assms(4) by blast
  then show ?thesis
    using assms(2-4,6) old by (simp add: delete_remove_def find_task_def)
qed

text \<open>A second delete and a create inside the unlocked part of a delete.\<close>

definition delete_race :: "FakeWorld ShimSys" where
  "delete_race = shim_run (Call (CallCreate req0) # runs 0 4 @ Call (CallDelete ''p'' []) # runs 1 1 @
     Call (CallDelete ''p'' []) # runs 2 6 @ Call (CallCreate req0) # runs 3 4 @ runs 1 2) sys0"

lemma delete_race_facts:
  "sy_threads delete_race ! 1 = T_DeleteRemove ''p'' 0" "length (sy_threads delete_race) = 4"
  "svc_tasks (sy_svc delete_race) = [''p'' \<mapsto> 1]" "sy_threads delete_race ! 3 = Replied (RPid 7)"
  "fake_live (sy_world delete_race) = {1}"
proof -
  show "sy_threads delete_race ! 1 = T_DeleteRemove ''p'' 0" "length (sy_threads delete_race) = 4"
    "svc_tasks (sy_svc delete_race) = [''p'' \<mapsto> 1]" "sy_threads delete_race ! 3 = Replied (RPid 7)"
    by (simp_all add: delete_race_def runs_numeral shim_defs fake_run_defs)
  have "fheap (sy_world delete_race) =
      [1 \<mapsto> \<lparr>fi_id = ''0708090a0b0c'', fi_spec = Some (create_spec env0 req0), fi_state = StateRunning,
         fi_restoredFrom = [], fi_netns = []\<rparr>,
       0 \<mapsto> \<lparr>fi_id = ''010203040506'', fi_spec = Some (create_spec env0 req0), fi_state = StateStopped,
         fi_restoredFrom = [], fi_netns = []\<rparr>]"
    by (simp add: delete_race_def runs_numeral shim_defs fake_run_defs)
  then show "fake_live (sy_world delete_race) = {1}" by (auto simp: fake_live_def)
qed

theorem delete_drops_successor_witness:
  "sy_threads delete_race ! 3 = Replied (RPid 7) \<and> find_task ''p'' (sy_svc (shim_step (Run 1 env0) delete_race)) = None \<and>
   fake_live (sy_world (shim_step (Run 1 env0) delete_race)) = {1}"
proof -
  have "shim_reach delete_race" unfolding delete_race_def by (rule shim_reach_run [OF sys0_reach])
  from delete_drops_successor [OF this _ delete_race_facts(1) _ _ refl, of 1 env0] delete_race_facts
  show ?thesis by simp
qed

text \<open>
  The account of the exits: with a publisher, every latch that has stopped was published, or is about
  to be by exactly one thread.
\<close>

definition exit_account :: "'w ShimSys \<Rightarrow> bool" where
  "exit_account y \<longleftrightarrow> finite (stopped_of (sy_svc y)) \<and>
     (svc_publisher (sy_svc y) \<noteq> None \<longrightarrow>
        card (stopped_of (sy_svc y)) = exits (sy_svc y) + length (filter pending (sy_threads y)))"

lemma exit_account_step:
  assumes "shim_inv y" "exit_account y"
  shows "exit_account (shim_step e y)"
proof (cases e)
  case (Call c)
  have "\<not> pending (rpc_thread c :: 'a shim_thread)" by (cases c) auto
  with Call assms show ?thesis by (simp add: exit_account_def)
next
  case (Cancel i)
  have "pending (cancel t) = pending t" for t :: "'a shim_thread" by (cases t) auto
  with Cancel assms show ?thesis
    using count_update [of i "sy_threads y" pending "cancel (sy_threads y ! i)"]
    by (auto simp: exit_account_def)
next
  case (Run i env)
  show ?thesis
  proof (cases "i < length (sy_threads y)")
    case True
    let ?t = "sy_threads y ! i" and ?s = "sy_svc y"
    obtain t' j s w where r: "shim_region env ?t ?s (sy_world y) = (t', j, s, w)" by (metis prod_cases4)
    have R: "region_ok ?s ?t (t', j, s, w)"
      using region_all [of ?s ?t env "sy_world y"] True assms(1) r by (simp add: shim_inv_def)
    have cnt: "length (filter pending ((sy_threads y)[i := t'])) + (if pending ?t then 1 else 0) =
        length (filter pending (sy_threads y)) + (if pending t' then 1 else 0)"
      by (rule count_update [OF True])
    have fin: "finite (stopped_of s)"
      using R assms(2) by (auto simp: region_ok_def exit_account_def split: if_splits)
    have "card (stopped_of s) = exits s + length (filter pending ((sy_threads y)[i := t']))"
      if "svc_publisher s \<noteq> None"
      using R assms(2) cnt that by (auto simp: region_ok_def exit_account_def split: if_splits)
    with fin show ?thesis using Run True r by (auto simp: exit_account_def split: option.splits)
  qed (use Run assms in simp)
qed

lemma stopped_of_New [simp]: "stopped_of (NewService mgr d ts pid) = {}"
  by (auto simp: stopped_keys_def svc_latch_def NewService_def split: sum.splits)

lemma stopped_of_SetPublisher [simp]: "stopped_of (SetPublisher p s) = stopped_of s"
  using svc_latch_same [of "SetPublisher p s" s]
  by (simp add: stopped_keys_def SetPublisher_def)

lemma exits_New: "exits (NewService mgr d ts pid) = 0" "exits (SetPublisher p s) = exits s"
  by (simp_all add: exits_def NewService_def SetPublisher_def)

lemma exit_account_reach: "shim_reach y \<Longrightarrow> exit_account y"
proof (induction rule: shim_reach.induct)
  case (step y e)
  then show ?case using exit_account_step shim_reach_inv by blast
qed (simp_all add: exit_account_def exits_New)

text \<open>
  C10. Every exit is published exactly once. With a publisher set, in any reachable state the number of
  exit events forwarded to containerd plus the number of threads about to forward one is the number
  of tasks and execs that have stopped, so once the handlers have run to their ends neither a
  duplicate nor a missing exit event exists, however often a task was killed and deleted.
\<close>

theorem exit_published_once:
  assumes "shim_reach y" "svc_publisher (sy_svc y) \<noteq> None"
  shows "exits (sy_svc y) + length (filter pending (sy_threads y)) =
     card {k. \<exists>l. svc_latch (sy_svc y) k = Some l \<and> l_status l = Status_STOPPED}"
  using exit_account_reach [OF assms(1)] assms(2)
  by (simp add: exit_account_def stopped_keys_def)

definition sys1 :: "FakeWorld ShimSys" where
  "sys1 = sys0\<lparr>sy_svc := SetPublisher (\<lambda>n. None) (sy_svc sys0)\<rparr>"

lemma sys1_reach: "shim_reach sys1"
  using shim_reach.init by (simp add: sys1_def sys0_def)

theorem exit_published_once_witness:
  "card {k. \<exists>l. svc_latch (sy_svc (shim_run kill_events sys1)) k = Some l \<and> l_status l = Status_STOPPED} = 1"
proof -
  have "sy_threads (shim_run kill_events sys1) = [Replied (RPid 7), T_WaitOn (Inl 0) 0, T_KillEvent ''p'' 143 5]"
    "exits (sy_svc (shim_run kill_events sys1)) = 0"
    "svc_publisher (sy_svc (shim_run kill_events sys1)) \<noteq> None"
    by (simp_all add: kill_events_def runs_numeral sys1_def SetPublisher_def exits_def topics shim_defs fake_run_defs)
  with exit_published_once [OF shim_reach_run [OF sys1_reach], of kill_events] show ?thesis by simp
qed

end
