(* ===== verification/ShimProps.thy ===== *)
theory ShimProps
  imports ShimThreads
begin

text \<open>
  What the RPC handlers of the task service do when they run without interference: the template
  contract of \<open>Create\<close>, the exit record across \<open>Kill\<close> and \<open>Delete\<close>, the life of an exec process, and
  the agreement of the handlers with the threads of \<open>ShimThreads\<close>.
\<close>

section \<open>Handlers and threads\<close>

text \<open>A thread that runs alone, region after region.\<close>

fun alone :: "nat \<Rightarrow> shim_env \<Rightarrow> 'w shim_thread \<Rightarrow> 'w Service \<Rightarrow> 'w \<Rightarrow> 'w shim_thread \<times> 'w Service \<times> 'w"
where
  "alone 0 env t s w = (t, s, w)"
| "alone (Suc n) env t s w = (case shim_region env t s w of (t', _, s', w') \<Rightarrow> alone n env t' s' w')"

text \<open>How a result of a handler is sent back.\<close>

fun sent :: "('a \<Rightarrow> reply) \<Rightarrow> 'a res \<Rightarrow> 'w shim_thread" where
  "sent f (Ok x) = Replied (f x)"
| "sent f (Err e) = Replied (RErr e)"
| "sent f Panic = Crashed"

lemma alone_replied [simp]: "alone n env (Replied r) s w = (Replied r, s, w)"
  by (induction n) auto

lemma alone_crashed [simp]: "alone n env Crashed s w = (Crashed, s, w)"
  by (induction n) auto

lemma alone_numeral: "alone (numeral k) env t s w =
    (case shim_region env t s w of (t', _, s', w') \<Rightarrow> alone (pred_numeral k) env t' s' w')"
  by (simp add: numeral_eq_Suc)

lemma create_insert_pid: "create_insert r i s = (b, s') \<Longrightarrow> svc_pid s' = svc_pid s"
  by (auto simp: create_insert_def split: if_splits)

lemma no_err [simp]:
  "mark_task a code now s \<noteq> (Err e, s')" "mark_exec p code now s \<noteq> (Err e, s')"
  "delete_remove tid a s \<noteq> (Err e, s')" "exec_run env j s w \<noteq> (Err e, s', w')"
  by (auto simp: mark_task_def mark_exec_def delete_remove_def exec_run_def Let_def
      split: option.splits if_splits prod.splits res.splits)

lemma alone_create:
  "alone 5 env (T_CreateCheck r) s w = (case shim_Create env r s w of (q, s', w') \<Rightarrow> (sent RPid q, s', w'))"
  by (simp add: alone_numeral shim_Create_def split: option.split prod.split res.split bool.split)

lemma alone_kill:
  "alone 4 env (T_KillLookup tid [] sig) s w =
     (case kill_task env tid sig s w of (q, s', w') \<Rightarrow> (sent (\<lambda>_. REmpty) q, s', w'))"
  by (simp add: alone_numeral kill_task_def markExited_def
      split: option.split prod.split res.split bool.split)

lemma alone_delete:
  "alone 6 env (T_DeleteLookup tid []) s w =
     (case delete_task env tid s w of (q, s', w') \<Rightarrow> (sent RExit q, s', w'))"
  by (simp add: alone_numeral delete_task_def markExited_def
      split: option.split prod.split res.split bool.split)

lemma alone_exec:
  "alone 3 env (T_ExecRun j) s w =
     (case exec_goroutine env j s w of (q, s', w') \<Rightarrow> (sent (\<lambda>_. REmpty) q, s', w'))"
  by (simp add: alone_numeral exec_goroutine_def markExecExited_def
      split: option.split prod.split res.split bool.split)

text \<open>
  The handlers of \<open>Create\<close>, \<open>Kill\<close>, \<open>Delete\<close> and the goroutine of a started exec are what their
  threads do when nothing interferes: running the regions one after the other gives the reply, the
  service and the world of the handler.
\<close>

lemma handlers_are_threads:
  "alone 5 env (rpc_thread (CallCreate r)) s w =
     (case shim_Create env r s w of (q, s', w') \<Rightarrow> (sent RPid q, s', w')) \<and>
   alone 4 env (rpc_thread (CallKill tid [] sig)) s w =
     (case shim_Kill env tid [] sig s w of (q, s', w') \<Rightarrow> (sent (\<lambda>_. REmpty) q, s', w')) \<and>
   alone 6 env (rpc_thread (CallDelete tid [])) s w =
     (case shim_Delete env tid [] s w of (q, s', w') \<Rightarrow> (sent RExit q, s', w')) \<and>
   alone 3 env (T_ExecRun j) s w =
     (case exec_goroutine env j s w of (q, s', w') \<Rightarrow> (sent (\<lambda>_. REmpty) q, s', w'))"
  by (simp add: alone_create alone_kill alone_delete alone_exec shim_Kill_def shim_Delete_def)

section \<open>The template contract of Create\<close>

text \<open>
  C28. A bundle annotated with a template is served from that template or not at all: an unregistered
  id is \<open>NotFound\<close> with nothing changed, and a registered one is restored from its snapshot, with its
  driver or the default one and the pod's netns, never booted; an error of the restore is returned
  and no task appears; after success the task is registered, in state created, on the new sandbox.
\<close>

theorem create_template:
  assumes "ct_ID r \<noteq> []" "svc_tasks s (ct_ID r) = None"
    and "bundleAnnotation env (ct_Bundle r) TemplateAnnotation = tmpl" "tmpl \<noteq> []"
    and "drv = (case svc_templates s tmpl of None \<Rightarrow> [] | Some t \<Rightarrow>
           if tpl_Driver t = [] then svc_defaultDriver s else tpl_Driver t)"
    and "path = (case svc_templates s tmpl of None \<Rightarrow> [] | Some t \<Rightarrow> tpl_Path t)"
    and "mgr_RestoreFrom (svc_mgr s) drv path \<lparr>opts_Netns = bundleNetns env (ct_Bundle r)\<rparr> w = (q, m, w')"
  shows "case svc_templates s tmpl of
       None \<Rightarrow> \<exists>as. shim_Create env r s w = (Err (StatusErr NotFound
         ''annotation %s=%q: template not registered with this shim'' as), s, w)
     | Some t \<Rightarrow>
         (case q of
            Ok i \<Rightarrow> \<exists>s'. shim_Create env r s w = (Ok (svc_pid s), s', w') \<and> svc_mgr s' = m \<and>
              find_task (ct_ID r) s' = Some (svc_tnext s, new_task r i) \<and>
              (\<forall>tid. tid \<noteq> ct_ID r \<longrightarrow> svc_tasks s' tid = svc_tasks s tid)
          | Err e \<Rightarrow> shim_Create env r s w = (Err e, s\<lparr>svc_mgr := m\<rparr>, w')
          | Panic \<Rightarrow> shim_Create env r s w = (Panic, s\<lparr>svc_mgr := m\<rparr>, w'))"
proof -
  have ev: "svc_tasks (create_event r t) = svc_tasks t" "svc_theap (create_event r t) = svc_theap t"
    "svc_mgr (create_event r t) = svc_mgr t" for t :: "'a Service"
    using same_coreD(1-3) [OF same_core_create_event] by auto
  show ?thesis
    using assms
    by (cases "svc_templates s tmpl"; cases q)
      (auto simp: shim_Create_def create_check_def create_sandbox_def Lookup_def create_insert_def
        find_task_def ev Let_def)
qed

section \<open>Kill and Delete\<close>

lemma find_task_mark:
  assumes "find_task tid s = Some (a, ts)" "l_status ts \<noteq> Status_STOPPED" "svc_ok s"
  shows "mark_task a code now s =
     (Ok True, s\<lparr>svc_theap := (svc_theap s)(a \<mapsto> latch_exit code now ts),
        svc_closed := svc_closed s \<union> set (l_waiters ts)\<rparr>)"
proof -
  have ts: "svc_theap s a = Some ts" using find_task_SomeD [OF assms(1)] by simp
  then have "ls_latch (svc_abs s) (Inl a) = Some (latch.truncate ts)" by simp
  from linv_close [OF svc_okD(1) [OF assms(3)] this] ts assms(2) show ?thesis
    by (simp add: mark_task_def)
qed

text \<open>
  C27. A kill tears the sandbox down and records \<open>128 + signal\<close>, with 9 for a signal of zero, whatever
  \<open>Stop\<close> answers; \<open>State\<close> then shows the task stopped with that code, a wait returns it at once, a
  delete reports the code and time of the kill and not its own, and after it the task is gone.
\<close>

theorem kill_then_delete:
  assumes "svc_ok s" "find_task tid s = Some (a, ts)" "l_status ts \<noteq> Status_STOPPED"
    and "inst_Stop (ts_inst ts) w = (q1, w1)" "q1 \<noteq> Panic"
    and "inst_Stop (ts_inst ts) w1 = (q2, w2)" "q2 \<noteq> Panic"
  shows "\<exists>s1 s2. shim_Kill env tid [] sig s w = (Ok (), s1, w1) \<and>
     (\<exists>x. shim_State tid [] s1 = Ok x \<and> sr_Status x = Status_STOPPED \<and>
        sr_ExitStatus x = 128 + (if sig = 0 then 9 else sig) \<and> sr_ExitedAt x = tspb (sh_now env)) \<and>
     shim_Wait tid [] s1 = (WaitDone (wait_response (128 + (if sig = 0 then 9 else sig)) (sh_now env)), s1) \<and>
     shim_Delete env' tid [] s1 w1 =
       (Ok \<lparr>xr_Pid = svc_pid s, xr_ExitStatus = 128 + (if sig = 0 then 9 else sig),
            xr_ExitedAt = tspb (sh_now env)\<rparr>, s2, w2) \<and>
     shim_State tid [] s2 = Err (errNotFound tid)"
proof -
  let ?code = "kill_code sig" and ?now = "sh_now env"
  let ?s0 = "s\<lparr>svc_theap := (svc_theap s)(a \<mapsto> latch_exit ?code ?now ts),
      svc_closed := svc_closed s \<union> set (l_waiters ts)\<rparr>"
  note m = find_task_mark [OF assms(2,3,1), of ?code ?now]
  let ?s1 = "exit_event tid ?code ?now ?s0"
  have tid: "svc_tasks s tid = Some a" using find_task_SomeD [OF assms(2)] by simp
  note c = same_coreD [OF same_core_exit_event [of ?s0 tid ?code ?now]]
  have f1: "find_task tid ?s1 = Some (a, latch_exit ?code ?now ts)"
    using c(2,3) tid by (simp add: find_task_def)
  have kill: "shim_Kill env tid [] sig s w = (Ok (), ?s1, w1)"
    using assms(2,4,5) m by (cases q1) (simp_all add: shim_Kill_def kill_task_def markExited_def)
  have inst: "ts_inst (latch_exit ?code ?now ts) = ts_inst ts" by (simp add: latch_exit_def)
  have again: "mark_task a 0 (sh_now env') ?s1 = (Ok False, ?s1)"
    using c(3) by (simp add: mark_task_def)
  let ?s2 = "delete_event tid ?code ?now (?s1\<lparr>svc_tasks := (svc_tasks ?s1)(tid := None)\<rparr>)"
  have rem: "delete_remove tid a ?s1 = (Ok (?code, ?now), ?s1\<lparr>svc_tasks := (svc_tasks ?s1)(tid := None)\<rparr>)"
    using c(3) by (simp add: delete_remove_def)
  have del: "shim_Delete env' tid [] ?s1 w1 =
      (Ok \<lparr>xr_Pid = svc_pid s, xr_ExitStatus = ?code, xr_ExitedAt = tspb ?now\<rparr>, ?s2, w2)"
    using f1 inst assms(6,7) again rem c(9)
    by (cases q2) (simp_all add: shim_Delete_def delete_task_def markExited_def exit_response_def)
  have gone: "shim_State tid [] ?s2 = Err (errNotFound tid)"
    by (simp add: shim_State_def state_task_def find_task_def same_coreD(2) [OF same_core_delete_event])
  show ?thesis
    by (intro exI [of _ ?s1] exI [of _ ?s2] conjI kill gone)
      (use f1 del in \<open>simp_all add: shim_State_def state_task_def shim_Wait_def wait_task_def kill_code_def\<close>)
qed

section \<open>The life of an exec process\<close>

lemma exec_validate_InrD:
  "exec_validate r = Inr spec \<Longrightarrow> er_ExecID r \<noteq> [] \<and> er_Spec r = Some (Inr spec) \<and>
     \<not> er_Terminal r \<and> \<not> pspec_Terminal spec \<and> pspec_Args spec \<noteq> [] \<and> er_Stdin r = []"
  by (auto simp: exec_validate_def split: if_splits option.splits sum.splits)

lemma exec_accepted:
  "(\<exists>s'. shim_Exec r s = (Ok (), s')) \<longleftrightarrow>
     er_ExecID r \<noteq> [] \<and> er_Stdin r = [] \<and> \<not> er_Terminal r \<and>
     (\<exists>spec. er_Spec r = Some (Inr spec) \<and> \<not> pspec_Terminal spec \<and> pspec_Args spec \<noteq> []) \<and>
     (\<exists>a ts. find_task (er_ID r) s = Some (a, ts) \<and> l_status ts = Status_RUNNING \<and>
        ts_execs ts (er_ExecID r) = None)" (is "?L \<longleftrightarrow> ?R")
proof
  assume ?L
  then obtain spec a ts where "exec_validate r = Inr spec" "find_task (er_ID r) s = Some (a, ts)"
    "l_status ts = Status_RUNNING" "ts_execs ts (er_ExecID r) = None"
    by (auto simp: shim_Exec_def split: sum.splits option.splits if_splits)
  with exec_validate_InrD show ?R by blast
next
  assume ?R
  then show ?L by (auto simp: shim_Exec_def exec_validate_def)
qed

lemma shim_Exec_refused: "shim_Exec r s = (q, s') \<Longrightarrow> q \<noteq> Ok () \<Longrightarrow> s' = s"
  by (auto simp: shim_Exec_def split: sum.splits option.splits if_splits)

text \<open>
  An exec is accepted exactly when it has an id and a decodable process spec with arguments, asks
  for neither terminal nor stdin, and names a running task that has no exec of that id; anything
  else is refused with the service unchanged.
\<close>

theorem exec_accepted_iff:
  "((\<exists>s'. shim_Exec r s = (Ok (), s')) \<longleftrightarrow>
     er_ExecID r \<noteq> [] \<and> er_Stdin r = [] \<and> \<not> er_Terminal r \<and>
     (\<exists>spec. er_Spec r = Some (Inr spec) \<and> \<not> pspec_Terminal spec \<and> pspec_Args spec \<noteq> []) \<and>
     (\<exists>a ts. find_task (er_ID r) s = Some (a, ts) \<and> l_status ts = Status_RUNNING \<and>
        ts_execs ts (er_ExecID r) = None)) \<and>
   (fst (shim_Exec r s) \<noteq> Ok () \<longrightarrow> snd (shim_Exec r s) = s)"
  using exec_accepted [of r s] shim_Exec_refused [of r s] by (cases "shim_Exec r s") auto

lemma find_exec_core:
  "svc_tasks s' = svc_tasks s \<Longrightarrow> svc_theap s' = svc_theap s \<Longrightarrow> svc_eheap s' e = Some es' \<Longrightarrow>
   find_exec tid eid s = Inr ((a, ts), e, es) \<Longrightarrow> find_exec tid eid s' = Inr ((a, ts), e, es')"
  by (auto simp: find_exec_def find_task_def split: option.splits)

text \<open>
  The goroutine of an exec that has begun: it records the exit code, as an unsigned 32-bit number,
  or 255 when the exec could not be run.
\<close>

definition exec_code :: "int res \<Rightarrow> 32 word" where
  "exec_code q = (case q of Ok c \<Rightarrow> word_of_int c | _ \<Rightarrow> word_of_int 255)"

lemma exec_goroutine_records:
  assumes ok: "svc_ok s" and f: "find_exec tid eid s = Inr ((a, ts), e, es)"
    and st: "l_status es \<noteq> Status_STOPPED"
    and j: "job_ptr j = e" and x: "inst_Exec (job_inst j) (job_args j) w = (q, out, errout, w')" "q \<noteq> Panic"
  shows "\<exists>s'. exec_goroutine env j s w = (Ok (), s', w') \<and> svc_pid s' = svc_pid s \<and>
     find_exec tid eid s' = Inr ((a, ts), e, latch_exit (exec_code q) (sh_now env) es)"
proof -
  let ?c = "exec_code q" and ?now = "sh_now env"
  obtain o1 t1 where o1: "openOutput env (job_stdout j) s = (o1, t1)" by fastforce
  obtain o2 t2 where o2: "openOutput env (job_stderr j) t1 = (o2, t2)" by fastforce
  obtain s1 where r: "exec_run env j s w = (Ok ?c, s1, w')"
    using x o1 o2 by (cases q) (auto simp: exec_run_def exec_code_def)
  note core = core_eqD [OF exec_run_core [OF r]]
  have pid: "svc_pid s1 = svc_pid s" using exec_run_core [OF r] by (cases s, cases s1) (simp add: core_def)
  have "svc_eheap s e = Some es" using find_exec_InrD [OF f] by simp
  then have e1: "svc_eheap s1 e = Some es" using core(3) by simp
  then have "ls_latch (svc_abs s1) (Inr e) = Some (latch.truncate es)" by simp
  moreover have "svc_ok s1" using quiet_exec_run [OF ok r] by (simp add: quiet_step_def)
  ultimately have "close_chans (l_waiters es) (svc_closed s1) = Some (svc_closed s1 \<union> set (l_waiters es))"
    using linv_close [of "svc_abs s1" "Inr e"] svc_okD(1) by fastforce
  then have m: "mark_exec e ?c ?now s1 = (Ok True, s1\<lparr>svc_eheap := (svc_eheap s1)(e \<mapsto> latch_exit ?c ?now es),
        svc_closed := svc_closed s1 \<union> set (l_waiters es)\<rparr>)"
    using e1 st by (simp add: mark_exec_def)
  let ?s2 = "s1\<lparr>svc_eheap := (svc_eheap s1)(e \<mapsto> latch_exit ?c ?now es),
      svc_closed := svc_closed s1 \<union> set (l_waiters es)\<rparr>"
  let ?s' = "exec_exit_event (job_task j) (job_exec j) ?c ?now ?s2"
  note c = same_coreD [OF same_core_exec_exit_event [of ?s2 "job_task j" "job_exec j" ?c ?now]]
  have "exec_goroutine env j s w = (Ok (), ?s', w')"
    using r m j by (simp add: exec_goroutine_def markExecExited_def)
  moreover have "find_exec tid eid ?s' = Inr ((a, ts), e, latch_exit ?c ?now es)"
    by (rule find_exec_core [OF _ _ _ f]) (use c core in simp_all)
  ultimately show ?thesis using c(9) pid by auto
qed

text \<open>
  C30. The life of an exec: registered on a running task, started, run by its goroutine, it ends with
  the exit code of the process modulo \<open>2 ^ 32\<close>, or 255 when it could not be run; a wait returns
  that code, a delete reports it once and removes the record, and the task itself keeps running.
\<close>

theorem exec_lifecycle:
  assumes "svc_ok s" "exec_validate r = Inr spec" "find_task (er_ID r) s = Some (a, ts)"
    and "l_status ts = Status_RUNNING" "ts_execs ts (er_ExecID r) = None"
    and "inst_Exec (ts_inst ts) (pspec_Args spec) w = (q, out, errout, w')" "q \<noteq> Panic"
  shows "\<exists>s1 j s2 s3 s4. shim_Exec r s = (Ok (), s1) \<and>
     shim_Start (er_ID r) (er_ExecID r) s1 = (Ok (svc_pid s), Some j, s2) \<and>
     exec_goroutine env j s2 w = (Ok (), s3, w') \<and>
     shim_Wait (er_ID r) (er_ExecID r) s3 = (WaitDone (wait_response (exec_code q) (sh_now env)), s3) \<and>
     shim_Delete env (er_ID r) (er_ExecID r) s3 w' =
       (Ok \<lparr>xr_Pid = svc_pid s, xr_ExitStatus = exec_code q, xr_ExitedAt = tspb (sh_now env)\<rparr>, s4, w') \<and>
     shim_State (er_ID r) (er_ExecID r) s4 = Err (errExecNotFound (er_ExecID r)) \<and>
     (\<exists>ts'. find_task (er_ID r) s4 = Some (a, ts') \<and> l_status ts' = Status_RUNNING)"
proof -
  let ?tid = "er_ID r" and ?eid = "er_ExecID r" and ?e = "svc_enext s"
  note v = exec_validate_InrD [OF assms(2)]
  let ?ts = "ts\<lparr>ts_execs := (ts_execs ts)(?eid \<mapsto> ?e)\<rparr>"
  define s1 where "s1 = s\<lparr>svc_eheap := (svc_eheap s)(?e \<mapsto> new_exec r spec),
      svc_theap := (svc_theap s)(a \<mapsto> ?ts), svc_enext := Suc ?e\<rparr>"
  have x1: "shim_Exec r s = (Ok (), s1)"
    using assms(2-5) by (simp add: shim_Exec_def s1_def)
  have ok1: "svc_ok s1" using quiet_shim_Exec [OF assms(1) x1] by (simp add: quiet_step_def)
  have f1: "find_exec ?tid ?eid s1 = Inr ((a, ?ts), ?e, new_exec r spec)"
    using find_task_SomeD [OF assms(3)] by (simp add: find_exec_def find_task_def s1_def)
  define j where "j = \<lparr>job_task = ?tid, job_exec = ?eid, job_ptr = ?e, job_inst = ts_inst ts,
      job_args = pspec_Args spec, job_stdout = er_Stdout r, job_stderr = er_Stderr r\<rparr>"
  define s2 where "s2 = s1\<lparr>svc_eheap := (svc_eheap s1)(?e \<mapsto> (new_exec r spec)\<lparr>l_status := Status_RUNNING\<rparr>)\<rparr>"
  have b: "exec_begin ?tid ?eid s1 = (Ok (svc_pid s1, j), s2)"
    using f1 by (simp add: exec_begin_def s2_def j_def new_exec_def)
  have ok2: "svc_ok s2" using quiet_exec_begin [OF ok1 b] by (simp add: quiet_step_def)
  have f2: "find_exec ?tid ?eid s2 = Inr ((a, ?ts), ?e, (new_exec r spec)\<lparr>l_status := Status_RUNNING\<rparr>)"
    by (rule find_exec_core [OF _ _ _ f1]) (simp_all add: s2_def)
  have "inst_Exec (job_inst j) (job_args j) w = (q, out, errout, w')" "job_ptr j = ?e"
    using assms(6) by (simp_all add: j_def)
  then obtain s3 where g: "exec_goroutine env j s2 w = (Ok (), s3, w')" and pid: "svc_pid s3 = svc_pid s2"
    and f3: "find_exec ?tid ?eid s3 = Inr ((a, ?ts), ?e,
        latch_exit (exec_code q) (sh_now env) ((new_exec r spec)\<lparr>l_status := Status_RUNNING\<rparr>))"
    using exec_goroutine_records [OF ok2 f2, of j w q out errout w' env] assms(7) by auto
  define s4 where "s4 = s3\<lparr>svc_theap := (svc_theap s3)(a \<mapsto> ?ts\<lparr>ts_execs := (ts_execs ?ts)(?eid := None)\<rparr>)\<rparr>"
  have pids: "svc_pid s3 = svc_pid s" "svc_pid s1 = svc_pid s" using pid by (simp_all add: s2_def s1_def)
  have "svc_tasks s3 ?tid = Some a"
    using find_exec_InrD [OF f3] find_task_SomeD by blast
  then have f4: "find_task ?tid s4 = Some (a, ?ts\<lparr>ts_execs := (ts_execs ?ts)(?eid := None)\<rparr>)"
    by (simp add: find_task_def s4_def)
  show ?thesis
    by (intro exI [of _ s1] exI [of _ j] exI [of _ s2] exI [of _ s3] exI [of _ s4] conjI x1 g)
      (use v b f3 f4 pids assms(4) in \<open>simp_all add: shim_Start_def shim_Wait_def wait_exec_def shim_Delete_def
         deleteExec_def exit_response_def s4_def shim_State_def execState_of_def find_exec_def\<close>)
qed

section \<open>Witnesses\<close>

text \<open>One running task of the in-memory driver, and a bundle that asks for a template.\<close>

definition one_task :: "FakeWorld ShimSys" where
  "one_task = shim_run (Call (CallCreate req0) # runs 0 4 @ Call (CallStart ''p'' []) # runs 1 1) sys0"

definition fake0 :: "FakeWorld Instance" where
  "fake0 = fake_instance 0 ''010203040506''"

lemma one_task_reach: "shim_reach one_task"
  unfolding one_task_def by (rule shim_reach_run [OF sys0_reach])

lemma one_task_ok: "svc_ok (sy_svc one_task)"
  using shim_reach_inv [OF one_task_reach] by (simp add: shim_inv_def)

lemma one_task_facts:
  "find_task ''p'' (sy_svc one_task) = Some (0, (new_task req0 fake0)\<lparr>l_status := Status_RUNNING\<rparr>)"
  "svc_pid (sy_svc one_task) = 7"
  by (simp_all add: one_task_def runs_numeral shim_Start_def start_task_def fake0_def shim_defs fake_run_defs)

lemma fake0_stop: "fheap w 0 \<noteq> None \<Longrightarrow> \<exists>w'. inst_Stop fake0 w = (Ok (), w') \<and> fheap w' 0 \<noteq> None"
  by (auto simp: fake0_def fake_Stop_def)

lemma one_task_world: "fheap (sy_world one_task) 0 \<noteq> None"
  by (simp add: one_task_def runs_numeral shim_Start_def start_task_def shim_defs fake_run_defs)

theorem kill_then_delete_witness:
  "\<exists>s1 w1. shim_Kill env0 ''p'' [] 15 (sy_svc one_task) (sy_world one_task) = (Ok (), s1, w1) \<and>
     shim_Wait ''p'' [] s1 = (WaitDone (wait_response 143 5), s1)"
proof -
  obtain w1 where w1: "inst_Stop fake0 (sy_world one_task) = (Ok (), w1)" "fheap w1 0 \<noteq> None"
    using fake0_stop [OF one_task_world] by blast
  obtain w2 where w2: "inst_Stop fake0 w1 = (Ok (), w2)" using fake0_stop [OF w1(2)] by blast
  have i: "ts_inst ((new_task req0 fake0)\<lparr>l_status := Status_RUNNING\<rparr>) = fake0"
    by (simp add: new_task_def)
  have "env0\<lparr>sh_now := 5\<rparr> = env0" "sh_now env0 = 5" by (simp_all add: env0_def)
  with kill_then_delete [OF one_task_ok one_task_facts(1) _ _ _ _, of "sy_world one_task" "Ok ()" w1 "Ok ()" w2 env0 15 env0]
    w1(1) w2 i show ?thesis by fastforce
qed

definition echo_req :: ExecProcessRequest where
  "echo_req = \<lparr>er_ID = ''p'', er_ExecID = ''e'',
     er_Spec = Some (Inr \<lparr>pspec_Terminal = False, pspec_Args = [''echo''], pspec_Env = [], pspec_Cwd = []\<rparr>),
     er_Terminal = False, er_Stdin = [], er_Stdout = ''/out'', er_Stderr = []\<rparr>"

theorem exec_accepted_iff_witness: "\<exists>s'. shim_Exec echo_req (sy_svc one_task) = (Ok (), s')"
  unfolding conjunct1 [OF exec_accepted_iff [of echo_req "sy_svc one_task"]] using one_task_facts(1)
  by (auto simp: echo_req_def new_task_def)

theorem exec_lifecycle_witness:
  "\<exists>s1. shim_Exec echo_req (sy_svc one_task) = (Ok (), s1) \<and> (\<exists>j s2. shim_Start ''p'' ''e'' s1 = (Ok 7, Some j, s2))"
proof -
  have v: "exec_validate echo_req =
      Inr \<lparr>pspec_Terminal = False, pspec_Args = [''echo''], pspec_Env = [], pspec_Cwd = []\<rparr>"
    by (simp add: exec_validate_def echo_req_def)
  have f: "find_task (er_ID echo_req) (sy_svc one_task) =
      Some (0, (new_task req0 fake0)\<lparr>l_status := Status_RUNNING\<rparr>)"
    using one_task_facts(1) by (simp add: echo_req_def)
  obtain q out errout w' where x: "inst_Exec fake0 [''echo''] (sy_world one_task) = (q, out, errout, w')"
    "q \<noteq> Panic" by (simp add: fake0_def fake_Exec_def)
  from exec_lifecycle [OF one_task_ok v f, of "sy_world one_task" q out errout w' env0] x one_task_facts(2)
  show ?thesis by (fastforce simp: new_task_def echo_req_def)
qed

definition tmpl_env :: shim_env where
  "tmpl_env = env0\<lparr>sh_ReadFile := (\<lambda>_. Some []), sh_annotations := (\<lambda>_. Some [TemplateAnnotation \<mapsto> ''py''])\<rparr>"

theorem create_template_witness:
  "\<exists>as. shim_Create tmpl_env \<lparr>ct_ID = ''q'', ct_Bundle = ''/b''\<rparr> (sy_svc sys0) (sy_world sys0) =
     (Err (StatusErr NotFound ''annotation %s=%q: template not registered with this shim'' as),
      sy_svc sys0, sy_world sys0)"
proof -
  let ?r = "\<lparr>ct_ID = ''q'', ct_Bundle = ''/b''\<rparr>" and ?s = "sy_svc sys0"
  have "bundleAnnotation tmpl_env (ct_Bundle ?r) TemplateAnnotation = ''py''"
    by (simp add: bundleAnnotation_def tmpl_env_def)
  moreover obtain q m w' where "mgr_RestoreFrom (svc_mgr ?s) [] []
      \<lparr>opts_Netns = bundleNetns tmpl_env (ct_Bundle ?r)\<rparr> (sy_world sys0) = (q, m, w')"
    by (metis prod_cases3)
  moreover have "svc_templates ?s ''py'' = None" "svc_tasks ?s (ct_ID ?r) = None"
    by (simp_all add: sys0_def NewService_def)
  ultimately show ?thesis
    using create_template [of ?r ?s tmpl_env "''py''" "[]" "[]" "sy_world sys0" q m w'] by simp
qed

text \<open>
  The service stops sandboxes behind the Manager's back: after a create and a delete the sandbox is
  stopped and the task is gone, but the Manager still tracks and lists it.
\<close>

theorem delete_leaves_manager_entry:
  "\<exists>s1 w1 s2 w2 x. shim_Create env0 req0 (sy_svc sys0) (sy_world sys0) = (Ok 7, s1, w1) \<and>
     shim_Delete env0 ''p'' [] s1 w1 = (Ok x, s2, w2) \<and> svc_tasks s2 = Map.empty \<and> fake_live w2 = {} \<and>
     mgr_Get (svc_mgr s2) ''010203040506'' = Some (fake_instance 0 ''010203040506'')"
  by (simp add: shim_Create_def shim_Delete_def delete_task_def markExited_def shim_defs fake_run_defs
      mgr_Get_def fake_live_def)

end
