(* ===== verification/ShimMain.thy ===== *)
theory ShimMain
  imports ShimBoot DaemonProps ShimProps
begin

text \<open>
  The shim as a process: the transport (\<open>pkg/shim/serve.go\<close>), the connection to containerd's event service
  (\<open>pkg/shim/events.go\<close>), the daemon of \<open>pkg/shim/bootstrap.go\<close> and the executable
  \<open>cmd/containerd-shim-vessel-v1\<close>. The ttrpc server, protobuf and the sockets are parameters: what matters
  of the server is what the calls it dispatches do to the service, and how it ends.
\<close>

section \<open>The event publisher\<close>

record RemotePublisher =
  rp_namespace :: string
  rp_address :: string

definition NewRemotePublisher :: "(string \<Rightarrow> err option) \<Rightarrow> string \<Rightarrow> string \<Rightarrow> err + RemotePublisher" where
  "NewRemotePublisher dial ttrpcAddress nspace =
     (case dial ttrpcAddress of
        Some e \<Rightarrow> Inl (Wrapf ''dial containerd ttrpc %s: %w'' [ttrpcAddress] e)
      | None \<Rightarrow> Inr \<lparr>rp_namespace = nspace, rp_address = ttrpcAddress\<rparr>)"

text \<open>The outcome for the \<open>n\<close>-th event: packing it may fail, then forwarding it under the namespace.\<close>

definition remote_Publish ::
  "(nat \<Rightarrow> err option) \<Rightarrow> (string \<Rightarrow> nat \<Rightarrow> err option) \<Rightarrow> RemotePublisher \<Rightarrow> nat \<Rightarrow> err option" where
  "remote_Publish pack forward p n =
     (case pack n of Some e \<Rightarrow> Some e | None \<Rightarrow> forward (rp_namespace p) n)"

section \<open>The Manager of the shim\<close>

definition cfg_ChConfig :: "Config \<Rightarrow> ChConfig" where
  "cfg_ChConfig cfg =
     \<lparr>BinaryPath = cfg_CHBinary cfg, KernelPath = cfg_Kernel cfg, RootfsPath = cfg_Rootfs cfg,
      StateDir = [], Cmdline = [], BootWait = 0, PoolSize = cfg_Pool cfg, RestoreMode = []\<rparr>"

definition newManagerFromConfig :: "'g site \<Rightarrow> Config \<Rightarrow> 'g vessel Manager \<times> 'g vessel" where
  "newManagerFromConfig si cfg =
     (case ch_New (si_tmp si) (cfg_ChConfig cfg) (si_machine si) (snd (si_rand si)) (si_g si) of
        (chDrv, cw) \<Rightarrow>
          (RegisterDriver (RegisterDriver NewManager (drv_fst (process_Driver (si_os si)))) (drv_snd chDrv),
           (NewProcWorld (fst (si_rand si)), cw)))"

text \<open>A nil registry and one without entries are the same to a service.\<close>

definition NewServiceFromConfig ::
  "'g site \<Rightarrow> Config \<Rightarrow> MapTemplates option \<Rightarrow> 32 word \<Rightarrow> 'g vessel Service \<times> 'g vessel" where
  "NewServiceFromConfig si cfg templates pid =
     (let templates' = (case templates of None \<Rightarrow> Some (cfg_Templates cfg) | Some t \<Rightarrow> Some t)
      in case newManagerFromConfig si cfg of
           (m, w) \<Rightarrow> (NewService m (DefaultDriver cfg) templates' pid, w))"

section \<open>Serve\<close>

text \<open>
  \<open>Serve\<close> ends when its context does (with the error of the context) or when the server does.
  \<open>calls\<close> is what the calls dispatched until then have done.
\<close>

datatype serve_end = CtxDone err | ServerDone "err option"

definition shim_Serve ::
  "err option \<Rightarrow> ('w Service \<times> 'w \<Rightarrow> 'w Service \<times> 'w) \<Rightarrow> serve_end \<Rightarrow> 'w Service \<times> 'w \<Rightarrow>
   err option \<times> 'w Service \<times> 'w" where
  "shim_Serve new_server calls fin x =
     (case new_server of
        Some e \<Rightarrow> (Some e, x)
      | None \<Rightarrow> ((case fin of CtxDone e \<Rightarrow> Some e | ServerDone r \<Rightarrow> r), calls x))"

section \<open>The daemon\<close>

text \<open>
  What a shim process is given: the site of its drivers, the listener at descriptor 3, its files, the
  endpoint of containerd, its pid.
\<close>

record 'g shim_site =
  ss_site :: "'g site"
  ss_fd :: bool
  ss_FileListener :: "err option"
  ss_configs :: "string \<Rightarrow> Config json_file"
  ss_order :: "string list"
  ss_dial :: "string \<Rightarrow> err option"
  ss_pack :: "nat \<Rightarrow> err option"
  ss_forward :: "string \<Rightarrow> nat \<Rightarrow> err option"
  ss_pid :: "32 word"

text \<open>The publisher of the daemon, and the message when there is none though an address is given.\<close>

definition attach_publisher :: "'g shim_site \<Rightarrow> string \<Rightarrow> 'w Service \<Rightarrow> 'w Service \<times> (string \<times> err) list" where
  "attach_publisher S nspace svc =
     (let addr = si_env (ss_site S) ''TTRPC_ADDRESS''
      in if addr = [] then (svc, [])
         else case NewRemotePublisher (ss_dial S) addr nspace of
                Inl e \<Rightarrow> (svc, [(''vessel-shim: events disabled: %v'', e)])
              | Inr pub \<Rightarrow> (SetPublisher (remote_Publish (ss_pack S) (ss_forward S) pub) svc, []))"

definition RunDaemon ::
  "'g shim_site \<Rightarrow> string \<Rightarrow> err option \<Rightarrow> ('g vessel Service \<times> 'g vessel \<Rightarrow> 'g vessel Service \<times> 'g vessel) \<Rightarrow>
   serve_end \<Rightarrow> bool \<Rightarrow> err option \<times> ('g vessel Service \<times> 'g vessel) option \<times> (string \<times> err) list" where
  "RunDaemon S nspace new_server calls fin cancelled =
     (if \<not> ss_fd S then (Some (New ''no listener at fd %d (daemon must be spawned by `start`)'' [''3'']), None, [])
      else case ss_FileListener S of
        Some e \<Rightarrow> (Some (Wrapf ''fd %d is not a listener: %w'' [''3''] e), None, [])
      | None \<Rightarrow>
          (case LoadConfig (si_env (ss_site S)) (ss_configs S) (ss_order S) [] of
             Err e \<Rightarrow> (Some e, None, [])
           | Panic \<Rightarrow> (None, None, [])
           | Ok cfg \<Rightarrow>
               (case newManagerFromConfig (ss_site S) cfg of
                  (m, w) \<Rightarrow>
                    (case attach_publisher S nspace (NewService m (DefaultDriver cfg) (Some (cfg_Templates cfg)) (ss_pid S)) of
                       (svc, msgs) \<Rightarrow>
                         (case shim_Serve new_server calls fin (SetShutdown svc, w) of
                            (r, x) \<Rightarrow> (if cancelled then None else r, Some x, msgs))))))"

section \<open>The executable\<close>

text \<open>\<open>runStandalone\<close>, with the registry file as it was decoded; \<open>listen\<close> follows the removal of the socket.\<close>

definition runStandalone ::
  "'g shim_site \<Rightarrow> string \<Rightarrow> (string \<Rightarrow> MapTemplates json_file) \<Rightarrow> string list \<Rightarrow> err option \<Rightarrow> err option \<Rightarrow>
   ('g vessel Service \<times> 'g vessel \<Rightarrow> 'g vessel Service \<times> 'g vessel) \<Rightarrow> serve_end \<Rightarrow> bool \<Rightarrow>
   int \<times> ('g vessel Service \<times> 'g vessel) option" where
  "runStandalone S templatesPath registry ks listen new_server calls fin cancelled =
     (case (if templatesPath = [] then Ok None
            else case LoadTemplates templatesPath (registry templatesPath) ks of
                   Ok m \<Rightarrow> Ok (Some m) | Err e \<Rightarrow> Err e | Panic \<Rightarrow> Panic) of
        Ok tmpls \<Rightarrow>
          (case LoadConfig (si_env (ss_site S)) (ss_configs S) (ss_order S) [] of
             Ok cfg \<Rightarrow>
               (case NewServiceFromConfig (ss_site S) cfg tmpls (ss_pid S) of
                  x \<Rightarrow>
                    (case listen of
                       Some e \<Rightarrow> (1, Some x)
                     | None \<Rightarrow>
                         (case shim_Serve new_server calls fin x of
                            (r, x') \<Rightarrow> (if r \<noteq> None \<and> \<not> cancelled then 1 else 0, Some x'))))
           | _ \<Rightarrow> (1, None))
      | _ \<Rightarrow> (1, None))"

text \<open>
  \<open>main\<close>, flags parsed: what is printed to standard output, and the exit code. \<open>marshal\<close> is
  \<open>MarshalDeleteResponse\<close>, the protobuf encoding.
\<close>

definition shim_main ::
  "'g node_host \<Rightarrow> (DeleteResponse \<Rightarrow> err + string) \<Rightarrow> ('g \<Rightarrow> int \<times> 'g) \<Rightarrow> ('g \<Rightarrow> err option \<times> 'g) \<Rightarrow>
   string \<Rightarrow> string \<Rightarrow> string \<Rightarrow> bool \<Rightarrow> string \<Rightarrow> 'g \<Rightarrow> string \<times> int \<times> 'g" where
  "shim_main H marshal standalone daemon nspace tid address stand sub g =
     (if sub = ''start'' then
        (case RunStart H nspace tid address g of
           (Inl e, g1) \<Rightarrow> ([], 1, g1)
         | (Inr addr, g1) \<Rightarrow> (addr, 0, g1))
      else if sub = ''delete'' then
        (case RunDelete H nspace tid address g of
           (Inl e, g1) \<Rightarrow> ([], 1, g1)
         | (Inr resp, g1) \<Rightarrow>
             (case marshal resp of Inl e \<Rightarrow> ([], 1, g1) | Inr data \<Rightarrow> (data, 0, g1)))
      else if sub = [] then
        (if stand then (case standalone g of (c, g1) \<Rightarrow> ([], c, g1))
         else (case daemon g of (Some e, g1) \<Rightarrow> ([], 1, g1) | (None, g1) \<Rightarrow> ([], 0, g1)))
      else ([], 1, g))"

end
