(* ===== verification/ShimBootProps.thy ===== *)
theory ShimBootProps
  imports ShimBoot
begin

text \<open>
  Properties of the shim's \<open>start\<close> and \<open>delete\<close> on a node with files, sockets, open handles and processes in
  groups, on which every action may fail.
\<close>

section \<open>The address\<close>

lemma SocketAddress_path:
  assumes "clean_abs (socketRoot env)"
  shows "socketPath (SocketAddress env ca nspace tid) =
    socketRoot env @ ''/'' @ hexEncode (take 8 (Sum256 (Join [ca, nspace, tid])))"
proof -
  let ?h = "hexEncode (take 8 (Sum256 (Join [ca, nspace, tid])))"
  have "?h \<noteq> []" by (simp flip: length_greater_0_conv)
  moreover have "set ?h \<subseteq> set hextable" by (rule hexEncode_set)
  ultimately have "name_comp ?h"
    by (auto simp: name_comp_def hextable_def)
  then have "Join [socketRoot env, ?h] = socketRoot env @ ''/'' @ ?h"
    using Join_below(1) [OF assms, of "[?h]"] by simp
  then show ?thesis by (simp add: SocketAddress_def socketPath_def TrimPrefix_def Let_def)
qed

lemma Join_names:
  assumes "clean_abs ca" "name_comp x" "name_comp y"
  shows "Join [ca, x, y] = ca @ ''/'' @ x @ ''/'' @ y"
  using Join_below(1) [OF assms(1), of "[x, y]"] assms by simp

text \<open>
  The socket of a task has a short path - 17 bytes below its root, 34 in the default root, where a
  socket path may have 107 - that depends on nothing but the three names, and two tasks of a containerd
  never hash the same text: for plain namespaces and ids the hashed path determines both.
\<close>

theorem SocketAddress_short:
  assumes "clean_abs ca" "clean_abs (socketRoot env)"
    and "name_comp nspace" "name_comp tid" "name_comp nspace'" "name_comp tid'"
  shows "HasPrefix (SocketAddress env ca nspace tid) ''unix://'' \<and>
     length (socketPath (SocketAddress env ca nspace tid)) = length (socketRoot env) + 17 \<and>
     (socketRoot env = ''/run/containerd/s'' \<longrightarrow> length (socketPath (SocketAddress env ca nspace tid)) = 34) \<and>
     Dir (socketPath (SocketAddress env ca nspace tid)) = socketRoot env \<and>
     (Join [ca, nspace, tid] = Join [ca, nspace', tid'] \<longleftrightarrow> nspace = nspace' \<and> tid = tid')"
proof -
  let ?h = "hexEncode (take 8 (Sum256 (Join [ca, nspace, tid])))"
  have slash: "CHR ''/'' \<notin> set nspace" "CHR ''/'' \<notin> set nspace'" "CHR ''/'' \<notin> set tid" "CHR ''/'' \<notin> set tid'"
    using assms(3-6) by (auto dest: name_compD)
  have "(nspace @ CHR ''/'' # tid = nspace' @ CHR ''/'' # tid') = (nspace = nspace' \<and> tid = tid')"
  proof
    assume "nspace @ CHR ''/'' # tid = nspace' @ CHR ''/'' # tid'"
    then have "splitSlash (nspace @ CHR ''/'' # tid) = splitSlash (nspace' @ CHR ''/'' # tid')" by simp
    then show "nspace = nspace' \<and> tid = tid'"
      unfolding splitSlash_append by (simp add: splitSlash_plain slash)
  qed simp
  then have "(Join [ca, nspace, tid] = Join [ca, nspace', tid']) = (nspace = nspace' \<and> tid = tid')"
    using assms by (simp add: Join_names)
  moreover have "Dir (socketRoot env @ ''/'' @ ?h) = socketRoot env"
  proof -
    have "set ?h \<subseteq> set hextable" by (rule hexEncode_set)
    then have "CHR ''/'' \<notin> set ?h" by (auto simp: hextable_def)
    then have sp: "splitSlash (socketRoot env @ CHR ''/'' # ?h) = splitSlash (socketRoot env) @ [?h]"
      by (simp add: splitSlash_append splitSlash_plain)
    obtain ns where ns: "ns \<noteq> []" "\<forall>x \<in> set ns. name_comp x" "socketRoot env = ''/'' @ joinSlash ns"
      using assms(2) by (rule clean_abs_names)
    then have sr: "splitSlash (socketRoot env) = [] # ns"
      using splitSlash_append [of "[]" "joinSlash ns"] by (simp add: splitSlash_join name_compD)
    have "joinSlash (splitSlash (socketRoot env)) @ ''/'' = socketRoot env @ ''/''"
      using ns sr by (cases ns) auto
    moreover have "Clean (socketRoot env @ ''/'') = socketRoot env"
    proof -
      have "splitSlash (socketRoot env @ ''/'') = [] # ns @ [[]]"
        using splitSlash_append [of "socketRoot env" "[]"] sr by simp
      then show ?thesis using ns Clean_abs_names [of ns "socketRoot env @ ''/''" "[[]]"]
        by (simp add: isAbs_def)
    qed
    ultimately show ?thesis using sp by (simp add: Dir_def)
  qed
  moreover have "length (socketRoot env @ ''/'' @ ?h) = length (socketRoot env) + 17" by simp
  ultimately show ?thesis
    unfolding SocketAddress_path [OF assms(2)] by (auto simp: SocketAddress_def Let_def)
qed

theorem SocketAddress_short_witness:
  "length (socketPath (SocketAddress (\<lambda>_. []) ''/run/c.sock'' ''k8s.io'' ''pod1'')) = 34"
proof -
  have "clean_abs ''/run/c.sock''" "clean_abs (socketRoot (\<lambda>_. []))" "name_comp ''k8s.io''" "name_comp ''pod1''"
    by code_simp+
  from SocketAddress_short [OF this this(3,4)] show ?thesis by (simp add: socketRoot_def)
qed

section \<open>A node\<close>

record node =
  nd_files :: "string \<rightharpoonup> string"
  nd_sockets :: "string set"
  nd_open :: "handle set"
  nd_unlink :: "string option"
  nd_procs :: "int \<rightharpoonup> int"
  nd_cmds :: "int \<rightharpoonup> shim_cmd"
  nd_log :: "sop list"

text \<open>
  \<open>kill\<close>: a process, the group of a negative number, everything but init for -1, the caller's group \<open>own\<close>
  for 0. Processes are mapped to their groups.
\<close>

definition node_kill :: "int \<Rightarrow> int \<Rightarrow> (int \<rightharpoonup> int) \<Rightarrow> int \<rightharpoonup> int" where
  "node_kill own i ps =
     (if i > 0 then ps(i := None)
      else if i = 0 then (\<lambda>p. if ps p = Some own then None else ps p)
      else if i = -1 then (\<lambda>p. if p = 1 then ps p else None)
      else (\<lambda>p. if ps p = Some (- i) then None else ps p))"

fun node_apply :: "int \<Rightarrow> sop \<Rightarrow> node \<Rightarrow> node" where
  "node_apply own (SMkdirAll d m) n = n"
| "node_apply own (SRemove p) n = n\<lparr>nd_files := (nd_files n)(p := None), nd_sockets := nd_sockets n - {p}\<rparr>"
| "node_apply own (SListen p) n =
     n\<lparr>nd_sockets := insert p (nd_sockets n), nd_open := insert HListener (nd_open n), nd_unlink := Some p\<rparr>"
| "node_apply own SKeepSocket n = n\<lparr>nd_unlink := None\<rparr>"
| "node_apply own SFile n = n\<lparr>nd_open := insert HDup (nd_open n)\<rparr>"
| "node_apply own (SOpenLog p) n =
     n\<lparr>nd_files := (nd_files n)(p \<mapsto> (case nd_files n p of None \<Rightarrow> [] | Some c \<Rightarrow> c)), nd_open := insert HLog (nd_open n)\<rparr>"
| "node_apply own (SClose h) n =
     n\<lparr>nd_open := nd_open n - {h},
       nd_sockets := (if h = HListener then nd_sockets n - set_option (nd_unlink n) else nd_sockets n)\<rparr>"
| "node_apply own (SWriteFile p c m) n = n\<lparr>nd_files := (nd_files n)(p \<mapsto> c)\<rparr>"
| "node_apply own (SRename a b) n = n\<lparr>nd_files := ((nd_files n)(a := None))(b := nd_files n a)\<rparr>"
| "node_apply own (SKill i) n = n\<lparr>nd_procs := node_kill own i (nd_procs n)\<rparr>"

text \<open>
  An action fails when \<open>out\<close> says so, which may look at the past; a failed write leaves \<open>junk\<close>. A close
  and \<open>SetUnlinkOnClose\<close> have their effect in any case, and a signal fails only when nobody is there.
\<close>

fun certain :: "sop \<Rightarrow> bool" where
  "certain (SClose h) = True"
| "certain SKeepSocket = True"
| "certain (SKill i) = True"
| "certain a = False"

fun node_broken :: "(sop list \<Rightarrow> string option) \<Rightarrow> sop \<Rightarrow> node \<Rightarrow> node" where
  "node_broken junk (SWriteFile p c m) n = n\<lparr>nd_files := (nd_files n)(p := junk (nd_log n))\<rparr>"
| "node_broken junk a n = n"

definition node_do ::
  "int \<Rightarrow> (sop list \<Rightarrow> sop \<Rightarrow> err option) \<Rightarrow> (sop list \<Rightarrow> string option) \<Rightarrow> sop \<Rightarrow> node \<Rightarrow> err option \<times> node" where
  "node_do own out junk a n =
     (out (nd_log n) a,
      (if certain a \<or> out (nd_log n) a = None then node_apply own a n else node_broken junk a n)\<lparr>nd_log := nd_log n @ [a]\<rparr>)"

definition node_start :: "int \<Rightarrow> (node \<Rightarrow> shim_cmd \<Rightarrow> err + int) \<Rightarrow> shim_cmd \<Rightarrow> node \<Rightarrow> (err + int) \<times> node" where
  "node_start own spawn c n =
     (case spawn n c of
        Inl e \<Rightarrow> (Inl e, n)
      | Inr pid \<Rightarrow> (Inr pid, n\<lparr>nd_procs := (nd_procs n)(pid \<mapsto> (if sc_Setpgid c then pid else own)),
                            nd_cmds := (nd_cmds n)(pid \<mapsto> c)\<rparr>))"

definition node_host ::
  "int \<Rightarrow> (sop list \<Rightarrow> sop \<Rightarrow> err option) \<Rightarrow> (sop list \<Rightarrow> string option) \<Rightarrow> (node \<Rightarrow> shim_cmd \<Rightarrow> err + int) \<Rightarrow>
   node node_host \<Rightarrow> node node_host" where
  "node_host own out junk spawn base =
     base\<lparr>nh_ReadFile := (\<lambda>p n. case nd_files n p of None \<Rightarrow> Inl (Ext ''no such file'') | Some c \<Rightarrow> Inr c),
          nh_Start := node_start own spawn, nh_do := node_do own out junk\<rparr>"

lemma node_host_sel [simp]:
  "nh_do (node_host own out junk spawn base) = node_do own out junk"
  "nh_Start (node_host own out junk spawn base) = node_start own spawn"
  "nh_ReadFile (node_host own out junk spawn base) p n =
     (case nd_files n p of None \<Rightarrow> Inl (Ext ''no such file'') | Some c \<Rightarrow> Inr c)"
  "nh_env (node_host own out junk spawn base) = nh_env base" "nh_Getwd (node_host own out junk spawn base) = nh_Getwd base"
  "nh_Executable (node_host own out junk spawn base) = nh_Executable base"
  "nh_Getpid (node_host own out junk spawn base) = nh_Getpid base" "nh_Now (node_host own out junk spawn base) = nh_Now base"
  by (simp_all add: node_host_def)

section \<open>What start does to a node\<close>

text \<open>The parts of a node that the steps of \<open>RunStart\<close> leave alone.\<close>

definition same_but_files :: "node \<Rightarrow> node \<Rightarrow> bool" where
  "same_but_files n n' \<longleftrightarrow> nd_sockets n' = nd_sockets n \<and> nd_open n' = nd_open n \<and> nd_unlink n' = nd_unlink n \<and>
     nd_procs n' = nd_procs n \<and> nd_cmds n' = nd_cmds n"

lemma writeFileAtomic_node:
  assumes "writeFileAtomic (node_host own out junk spawn base) p c n = (e, n')"
  shows "same_but_files n n'"
    and "e = None \<Longrightarrow> nd_files n' = (nd_files n)(p @ ''.tmp'' := None, p \<mapsto> c)"
    and "e \<noteq> None \<Longrightarrow> nd_files n' p = nd_files n p"
    and "q \<noteq> p \<Longrightarrow> q \<noteq> p @ ''.tmp'' \<Longrightarrow> nd_files n' q = nd_files n q"
  using assms
  by (auto simp: writeFileAtomic_def andThen_def node_do_def same_but_files_def Let_def split: if_splits option.splits)

lemma record_daemon_node:
  assumes r: "record_daemon (node_host own out junk spawn base) bundle address pid n = (r, n')"
    and "clean_abs bundle" "0 < pid"
  shows "nd_open n' = nd_open n" "nd_unlink n' = nd_unlink n" "nd_sockets n' = nd_sockets n" "nd_cmds n' = nd_cmds n"
    and "r = Inl e \<Longrightarrow> nd_procs n' = (nd_procs n)(pid := None)"
    and "r = Inr a \<Longrightarrow> a = address \<and> nd_procs n' = nd_procs n \<and>
           nd_files n' (bundle @ ''/address'') = Some address \<and> nd_files n' (bundle @ ''/shim.pid'') = Some (Itoa pid)"
proof -
  let ?H = "node_host own out junk spawn base"
  have p: "Join [bundle, ''address''] = bundle @ ''/address''" "Join [bundle, ''shim.pid''] = bundle @ ''/shim.pid''"
    using Join_below(1) [OF assms(2), of "[''address'']"] Join_below(1) [OF assms(2), of "[''shim.pid'']"]
    by (simp_all add: name_comp_def)
  obtain e1 n1 where w1: "writeFileAtomic ?H (bundle @ ''/address'') address n = (e1, n1)" by fastforce
  obtain e2 n2 where w2: "writeFileAtomic ?H (bundle @ ''/shim.pid'') (Itoa pid) n1 = (e2, n2)" by fastforce
  note f1 = writeFileAtomic_node [OF w1] and f2 = writeFileAtomic_node [OF w2]
  have res: "(r, n') = (case e1 of Some e \<Rightarrow> (Inl e, always ?H (SKill pid) n1)
      | None \<Rightarrow> (case e2 of Some e \<Rightarrow> (Inl e, always ?H (SKill pid) n2) | None \<Rightarrow> (Inr address, n2)))"
    using r w1 w2 by (auto simp: record_daemon_def p split: option.splits)
  have kill: "nd_procs (always ?H (SKill pid) m) = (nd_procs m)(pid := None)"
    "same_but_files m (always ?H (SKill pid) m\<lparr>nd_procs := nd_procs m\<rparr>)" for m
    using assms(3) by (simp_all add: always_def node_do_def node_kill_def same_but_files_def)
  consider e where "e1 = Some e" | e where "e1 = None" "e2 = Some e" | "e1 = None" "e2 = None" by (cases e1; cases e2) auto
  then have "nd_open n' = nd_open n \<and> nd_unlink n' = nd_unlink n \<and> nd_sockets n' = nd_sockets n \<and> nd_cmds n' = nd_cmds n \<and>
     (\<forall>e. r = Inl e \<longrightarrow> nd_procs n' = (nd_procs n)(pid := None)) \<and>
     (\<forall>a. r = Inr a \<longrightarrow> a = address \<and> nd_procs n' = nd_procs n \<and>
        nd_files n' (bundle @ ''/address'') = Some address \<and> nd_files n' (bundle @ ''/shim.pid'') = Some (Itoa pid))"
  proof cases
    case 1
    then show ?thesis using res f1(1) kill [of n1] by (simp add: same_but_files_def)
  next
    case 2
    then show ?thesis using res f1(1) f2(1) kill [of n2] by (simp add: same_but_files_def)
  next
    case 3
    have "nd_files n2 (bundle @ ''/address'') = nd_files n1 (bundle @ ''/address'')" by (rule f2(4)) simp_all
    then show ?thesis using 3 res f1(1,2) f2(1,2) by (simp add: same_but_files_def)
  qed
  then show "nd_open n' = nd_open n" "nd_unlink n' = nd_unlink n" "nd_sockets n' = nd_sockets n" "nd_cmds n' = nd_cmds n"
    "r = Inl e \<Longrightarrow> nd_procs n' = (nd_procs n)(pid := None)"
    "r = Inr a \<Longrightarrow> a = address \<and> nd_procs n' = nd_procs n \<and>
       nd_files n' (bundle @ ''/address'') = Some address \<and> nd_files n' (bundle @ ''/shim.pid'') = Some (Itoa pid)"
    by blast+
qed

text \<open>The spawned daemon: its pid is new, it is in a group of its own and holds the listener.\<close>

definition spawned :: "(node \<Rightarrow> shim_cmd \<Rightarrow> err + int) \<Rightarrow> bool" where
  "spawned spawn \<longleftrightarrow> (\<forall>n c pid. spawn n c = Inr pid \<longrightarrow> 1 < pid \<and> pid < 2 ^ 31 \<and> nd_procs n pid = None)"

lemma spawn_daemon_node:
  assumes "spawn_daemon (node_host own out junk spawn base) self bundle nspace tid ca address n = (r, n')"
    and "clean_abs bundle" "spawned spawn" "HLog \<notin> nd_open n"
  shows "nd_open n' = nd_open n \<and> nd_unlink n' = nd_unlink n \<and> nd_sockets n' = nd_sockets n \<and>
    (\<forall>e. r = Inl e \<longrightarrow> nd_procs n' = nd_procs n) \<and>
    (\<forall>a. r = Inr a \<longrightarrow> a = address \<and> (\<exists>pid. 1 < pid \<and> pid < 2 ^ 31 \<and> nd_procs n pid = None \<and>
       nd_procs n' = (nd_procs n)(pid \<mapsto> pid) \<and> nd_cmds n' pid = Some (daemon_cmd self bundle nspace tid ca) \<and>
       nd_files n' (bundle @ ''/address'') = Some address \<and> nd_files n' (bundle @ ''/shim.pid'') = Some (Itoa pid)))"
proof -
  let ?H = "node_host own out junk spawn base" and ?c = "daemon_cmd self bundle nspace tid ca"
  obtain e1 n1 where o: "node_do own out junk (SOpenLog (Join [bundle, ''shim.log''])) n = (e1, n1)" by fastforce
  show ?thesis
  proof (cases e1)
    case (Some e)
    then show ?thesis using assms(1) o by (auto simp: spawn_daemon_def node_do_def split: if_splits)
  next
    case None
    then have n1: "nd_open n1 = insert HLog (nd_open n)" "nd_unlink n1 = nd_unlink n" "nd_sockets n1 = nd_sockets n"
      "nd_procs n1 = nd_procs n"
      using o by (auto simp: node_do_def)
    have cl: "always ?H (SClose HLog) m = m\<lparr>nd_open := nd_open m - {HLog}, nd_log := nd_log m @ [SClose HLog]\<rparr>" for m
      by (simp add: always_def node_do_def)
    show ?thesis
    proof (cases "spawn n1 ?c")
      case (Inl e)
      then show ?thesis using assms(1,4) o None n1 by (auto simp: spawn_daemon_def deferred_def cl node_start_def)
    next
      case (Inr pid)
      define m where "m = n1\<lparr>nd_procs := (nd_procs n1)(pid \<mapsto> pid), nd_cmds := (nd_cmds n1)(pid \<mapsto> ?c)\<rparr>"
      have pid: "1 < pid" "pid < 2 ^ 31" "nd_procs n pid = None"
        using assms(3) Inr n1(4) unfolding spawned_def by metis+
      obtain q m' where q: "record_daemon ?H bundle address pid m = (q, m')" by fastforce
      have "r = q" "n' = always ?H (SClose HLog) m'"
        using assms(1) o None Inr q by (simp_all add: spawn_daemon_def deferred_def node_start_def daemon_cmd_def m_def)
      moreover note rec = record_daemon_node [OF q assms(2)]
      have "(nd_procs n1)(pid := None) = nd_procs n" using pid(3) n1(4) by (auto simp: fun_eq_iff)
      ultimately show ?thesis using rec pid n1 assms(4) by (auto simp: cl m_def)
    qed
  qed
qed

lemma listen_socket_node:
  assumes "listen_socket (node_host own out junk spawn base) address n = (e, n')" "nd_open n = {}"
  shows "nd_procs n' = nd_procs n \<and> (e \<noteq> None \<longrightarrow> nd_open n' = {}) \<and>
    (e = None \<longrightarrow> nd_open n' = {HListener, HDup} \<and> nd_unlink n' = None \<and> socketPath address \<in> nd_sockets n')"
proof -
  let ?H = "node_host own out junk spawn base" and ?p = "socketPath address"
  obtain e1 n1 where m: "node_do own out junk (SMkdirAll (Dir ?p) 457) n = (e1, n1)" by fastforce
  obtain e2 n2 where l: "node_do own out junk (SListen ?p) (always ?H (SRemove ?p) n1) = (e2, n2)" by fastforce
  obtain e3 n3 where f: "node_do own out junk SFile (always ?H SKeepSocket n2) = (e3, n3)" by fastforce
  have 1: "nd_open n1 = {}" "nd_procs n1 = nd_procs n" using m assms(2) by (auto simp: node_do_def split: if_splits)
  have 2: "nd_procs n2 = nd_procs n" "e2 \<noteq> None \<Longrightarrow> nd_open n2 = {}"
    "e2 = None \<Longrightarrow> nd_open n2 = {HListener} \<and> ?p \<in> nd_sockets n2"
    using l 1 by (auto simp: node_do_def always_def split: if_splits)
  have 3: "nd_procs n3 = nd_procs n" "e3 = None \<Longrightarrow> nd_open n3 = insert HDup (nd_open n2)" "nd_unlink n3 = None"
    "nd_sockets n3 = nd_sockets n2" "e3 \<noteq> None \<Longrightarrow> nd_open n3 = nd_open n2"
    using f 2(1) by (auto simp: node_do_def always_def split: if_splits)
  have res: "(e, n') = (case e1 of Some x \<Rightarrow> (e1, n1)
      | None \<Rightarrow> (case e2 of Some x \<Rightarrow> (Some (Wrapf ''listen %s: %w'' [address] x), n2)
          | None \<Rightarrow> (case e3 of Some x \<Rightarrow> (e3, always ?H (SClose HListener) n3) | None \<Rightarrow> (None, n3))))"
    using assms(1) m l f by (auto simp: listen_socket_def andThen_def Let_def split: option.splits)
  have close: "nd_open (always ?H (SClose HListener) n3) = nd_open n3 - {HListener}"
    "nd_procs (always ?H (SClose HListener) n3) = nd_procs n3"
    by (simp_all add: always_def node_do_def)
  show ?thesis using res 1 2 3 close by (cases e1; cases e2; cases e3) auto
qed

lemma RunStart_node:
  assumes "RunStart (node_host own out junk spawn base) nspace tid ca n = (r, n')"
    and "nh_Getwd base = Inr bundle" "clean_abs bundle" "spawned spawn" "nd_open n = {}"
  shows "nd_open n' = {} \<and>
    (\<forall>e. r = Inl e \<longrightarrow> nd_procs n' = nd_procs n) \<and>
    (\<forall>address. r = Inr address \<longrightarrow> address = SocketAddress (nh_env base) ca nspace tid \<and>
       socketPath address \<in> nd_sockets n' \<and>
       (\<exists>pid self. 1 < pid \<and> pid < 2 ^ 31 \<and> nd_procs n pid = None \<and> nd_procs n' = (nd_procs n)(pid \<mapsto> pid) \<and>
          nd_cmds n' pid = Some (daemon_cmd self bundle nspace tid ca) \<and>
          nd_files n' (bundle @ ''/address'') = Some address \<and> nd_files n' (bundle @ ''/shim.pid'') = Some (Itoa pid)))"
proof (cases "nh_Executable base")
  case (Inl e)
  then show ?thesis using assms(1,5) by (auto simp: RunStart_def)
next
  case (Inr self)
  let ?H = "node_host own out junk spawn base" and ?a = "SocketAddress (nh_env base) ca nspace tid"
  obtain e1 n1 where l: "listen_socket ?H ?a n = (e1, n1)" by fastforce
  note ls = listen_socket_node [OF l assms(5)]
  show ?thesis
  proof (cases e1)
    case (Some e)
    then show ?thesis using assms(1,2) Inr l ls by (auto simp: RunStart_def)
  next
    case None
    obtain q m where s: "spawn_daemon ?H self bundle nspace tid ca ?a n1 = (q, m)" by fastforce
    have n': "r = q" "n' = always ?H (SClose HListener) (always ?H (SClose HDup) m)"
      using assms(1,2) Inr l s None by (simp_all add: RunStart_def deferred_def)
    have sp: "HLog \<notin> nd_open n1" using ls None by simp
    note sd = spawn_daemon_node [OF s assms(3,4) sp]
    have u: "nd_unlink m = None" "nd_open m = {HListener, HDup}" "nd_sockets m = nd_sockets n1"
      using sd ls None by simp_all
    have n'_eq: "nd_open n' = {}" "nd_sockets n' = nd_sockets m" "nd_procs n' = nd_procs m" "nd_files n' = nd_files m"
      "nd_cmds n' = nd_cmds m"
      using u by (auto simp: n' always_def node_do_def)
    have p: "nd_procs n1 = nd_procs n" "socketPath ?a \<in> nd_sockets n1" using ls None by simp_all
    show ?thesis
    proof (cases q)
      case (Inl e)
      then show ?thesis unfolding n'_eq n'(1) using sd p(1) by simp
    next
      case (Inr a)
      then obtain pid where pid: "a = ?a" "1 < pid" "pid < 2 ^ 31" "nd_procs n pid = None" "nd_procs m = (nd_procs n)(pid \<mapsto> pid)"
        "nd_cmds m pid = Some (daemon_cmd self bundle nspace tid ca)"
        "nd_files m (bundle @ ''/address'') = Some ?a" "nd_files m (bundle @ ''/shim.pid'') = Some (Itoa pid)"
        using sd p(1) by auto
      show ?thesis unfolding n'_eq n'(1) Inr
        using p(2) pid u(3) by (simp, intro exI [of _ pid] conjI exI [of _ self]) simp_all
    qed
  qed
qed

text \<open>
  C14. \<open>start\<close> leaves a node in order whatever fails. All its handles are closed when it returns. On
  success the socket is still there - closing the parent's listener does not remove it - the daemon runs
  in a process group of its own with the listener as its extra file, and the bundle holds its address and
  pid. On an error no new process is left: a daemon that cannot be recorded is killed.
\<close>

theorem RunStart_sound:
  assumes "RunStart (node_host own out junk spawn base) nspace tid ca n = (r, n')"
    and "nh_Getwd base = Inr bundle" "clean_abs bundle" "spawned spawn" "nd_open n = {}"
  shows "nd_open n' = {} \<and>
    (\<forall>e. r = Inl e \<longrightarrow> nd_procs n' = nd_procs n) \<and>
    (\<forall>address. r = Inr address \<longrightarrow> address = SocketAddress (nh_env base) ca nspace tid \<and>
       socketPath address \<in> nd_sockets n' \<and>
       (\<exists>pid self. 1 < pid \<and> pid < 2 ^ 31 \<and> nd_procs n pid = None \<and> nd_procs n' = (nd_procs n)(pid \<mapsto> pid) \<and>
          nd_cmds n' pid = Some (daemon_cmd self bundle nspace tid ca) \<and>
          nd_files n' (bundle @ ''/address'') = Some address \<and> nd_files n' (bundle @ ''/shim.pid'') = Some (Itoa pid)))"
  by (rule RunStart_node [OF assms])

section \<open>What delete does to a node\<close>

lemma find_digit:
  assumes "is_digit c"
  shows "list_all (\<lambda>p. p \<noteq> [] \<and> \<not> is_digit (hd p)) ps \<Longrightarrow> find (HasPrefix (c # s)) ps = None"
proof (induction ps)
  case (Cons p ps)
  then obtain b bs where "p = b # bs" "\<not> is_digit b" by (cases p) auto
  moreover from this have "c \<noteq> b" using assms by auto
  ultimately show ?case using Cons by simp
qed simp

lemma trim_front_digit:
  assumes "is_digit c"
  shows "trim_front white_space k (c # s) = c # s" "trim_front (map rev white_space) k (c # s) = c # s"
proof -
  have "list_all (\<lambda>p. p \<noteq> [] \<and> \<not> is_digit (hd p)) white_space"
    "list_all (\<lambda>p. p \<noteq> [] \<and> \<not> is_digit (hd p)) (map rev white_space)"
    by code_simp+
  then have "find (HasPrefix (c # s)) white_space = None" "find (HasPrefix (c # s)) (map rev white_space) = None"
    using find_digit [OF assms] by metis+
  then show "trim_front white_space k (c # s) = c # s" "trim_front (map rev white_space) k (c # s) = c # s"
    by (cases k; simp)+
qed

lemma TrimSpace_digits:
  assumes "s \<noteq> []" "list_all is_digit s"
  shows "TrimSpace s = s"
proof -
  obtain c t where s: "s = c # t" using assms(1) by (cases s) auto
  obtain d u where r: "rev s = d # u" using assms(1) by (cases "rev s") auto
  have "d \<in> set s" by (metis r list.set_intros(1) set_rev)
  then have "is_digit d" "is_digit c" using assms(2) s by (auto simp: list_all_iff)
  then have "trim_front white_space (length s) s = s" "trim_front (map rev white_space) (length s) (rev s) = rev s"
    using trim_front_digit s r by metis+
  then show ?thesis by (simp add: TrimSpace_def Let_def)
qed

lemma utoa_digits: "list_all is_digit (utoa n)"
  unfolding list_all_iff is_digit_def using utoa_set [of n] by (rule_tac ballI) (erule subsetD)

lemma Atoi_Itoa:
  assumes "0 \<le> i" "i < 2 ^ 63"
  shows "Atoi (TrimSpace (Itoa i)) = Some i"
proof -
  define ds where "ds = utoa (nat i)"
  have ds: "ds \<noteq> []" "list_all is_digit ds" "atou 0 ds = nat i"
    by (simp_all add: ds_def atou_utoa utoa_digits)
  have "\<not> is_digit (CHR ''-'')" "\<not> is_digit (CHR ''+'')" by code_simp+
  then have np: "\<not> HasPrefix ds ''-''" "\<not> HasPrefix ds ''+''" using ds(1,2) by (cases ds; auto)+
  have "Itoa i = ds" using assms(1) by (simp add: Itoa_def ds_def)
  then show ?thesis
    using assms ds np by (simp add: TrimSpace_digits Atoi_def Let_def)
qed

lemma remove_node:
  "nd_procs (always (node_host own out junk spawn base) (SRemove p) n) = nd_procs n"
  "out (nd_log n) (SRemove p) = None \<Longrightarrow> nd_files (always (node_host own out junk spawn base) (SRemove p) n) =
     (nd_files n)(p := None)"
  "out (nd_log n) (SRemove p) = None \<Longrightarrow> nd_sockets (always (node_host own out junk spawn base) (SRemove p) n) =
     nd_sockets n - {p}"
  by (simp_all add: always_def node_do_def)

lemma kill_node:
  "nd_procs (always (node_host own out junk spawn base) (SKill i) n) = node_kill own i (nd_procs n)"
  "nd_files (always (node_host own out junk spawn base) (SKill i) n) = nd_files n"
  "nd_sockets (always (node_host own out junk spawn base) (SKill i) n) = nd_sockets n"
  by (simp_all add: always_def node_do_def)

text \<open>
  \<open>delete\<close> signals only what the pid file names: whatever that file holds, and whatever fails, either
  no process is killed, or the file holds - up to white space - a number above 1 and exactly that
  process and the members of its group are. Never the caller's own group, never all processes.
\<close>

theorem RunDelete_kills:
  assumes "RunDelete (node_host own out junk spawn base) nspace tid ca n = (r, n')"
    and "nh_Getwd base = Inr bundle"
  shows "r = Inr \<lparr>dr_Pid = nh_Getpid base, dr_ExitStatus = 137, dr_ExitedAt = nh_Now base\<rparr> \<and>
    (nd_procs n' = nd_procs n \<or>
     (\<exists>data pid. nd_files n (Join [bundle, ''shim.pid'']) = Some data \<and> Atoi (TrimSpace data) = Some pid \<and> 1 < pid \<and>
        nd_procs n' = (\<lambda>p. if p = pid \<or> nd_procs n p = Some pid then None else nd_procs n p)))"
proof -
  let ?H = "node_host own out junk spawn base"
  define g1 where "g1 = (case recorded_pid ?H bundle n of None \<Rightarrow> n
      | Some pid \<Rightarrow> always ?H (SKill pid) (always ?H (SKill (- pid)) n))"
  have r: "r = Inr \<lparr>dr_Pid = nh_Getpid base, dr_ExitStatus = 137, dr_ExitedAt = nh_Now base\<rparr>"
    "nd_procs n' = nd_procs g1"
    using assms by (auto simp: RunDelete_def Let_def g1_def remove_node)
  show ?thesis
  proof (cases "recorded_pid ?H bundle n")
    case None
    then show ?thesis using r by (simp add: g1_def)
  next
    case (Some pid)
    then obtain data where d: "nd_files n (Join [bundle, ''shim.pid'']) = Some data" "Atoi (TrimSpace data) = Some pid" "1 < pid"
      by (auto simp: recorded_pid_def split: option.splits if_splits)
    have "nd_procs g1 = (\<lambda>p. if p = pid \<or> nd_procs n p = Some pid then None else nd_procs n p)"
      using Some d(3) by (auto simp: g1_def kill_node node_kill_def fun_eq_iff)
    then show ?thesis using r d by auto
  qed
qed

text \<open>
  C16. \<open>delete\<close> undoes \<open>start\<close>: whatever happened on the node in between, as long as the pid file is the one
  that \<open>start\<close> wrote and the three files can be removed, \<open>delete\<close> kills the daemon and every process of its
  group - its cloud-hypervisor children - and no other, removes its socket and both records, and answers
  an exit status of 137.
\<close>

theorem start_then_delete:
  assumes "RunStart (node_host own out junk spawn base) nspace tid ca n = (Inr address, n1)"
    and "nh_Getwd base = Inr bundle" "clean_abs bundle" "spawned spawn" "nd_open n = {}"
    and "nd_files n2 (bundle @ ''/shim.pid'') = nd_files n1 (bundle @ ''/shim.pid'')"
    and "\<And>l p. out2 l (SRemove p) = None"
    and "RunDelete (node_host own2 out2 junk2 spawn2 base) nspace tid ca n2 = (r, n3)"
  shows "\<exists>pid. nd_procs n1 pid = Some pid \<and> nd_procs n pid = None \<and>
    nd_procs n3 = (\<lambda>p. if p = pid \<or> nd_procs n2 p = Some pid then None else nd_procs n2 p) \<and>
    socketPath address \<notin> nd_sockets n3 \<and> nd_files n3 (bundle @ ''/address'') = None \<and>
    nd_files n3 (bundle @ ''/shim.pid'') = None \<and> (\<exists>d. r = Inr d \<and> dr_ExitStatus d = 137)"
proof -
  let ?H = "node_host own2 out2 junk2 spawn2 base" and ?a = "SocketAddress (nh_env base) ca nspace tid"
  have b: "Join [bundle, ''address''] = bundle @ ''/address''" "Join [bundle, ''shim.pid''] = bundle @ ''/shim.pid''"
    using Join_below(1) [OF assms(3), of "[''address'']"] Join_below(1) [OF assms(3), of "[''shim.pid'']"]
    by (simp_all add: name_comp_def)
  have "address = ?a \<and> (\<exists>pid self. 1 < pid \<and> pid < 2 ^ 31 \<and> nd_procs n pid = None \<and> nd_procs n1 = (nd_procs n)(pid \<mapsto> pid) \<and>
      nd_cmds n1 pid = Some (daemon_cmd self bundle nspace tid ca) \<and>
      nd_files n1 (bundle @ ''/address'') = Some address \<and> nd_files n1 (bundle @ ''/shim.pid'') = Some (Itoa pid))"
    using RunStart_node [OF assms(1-5)] by blast
  then obtain pid where pid: "1 < pid" "pid < 2 ^ 31" "nd_procs n pid = None"
    "nd_procs n1 = (nd_procs n)(pid \<mapsto> pid)" "nd_files n1 (bundle @ ''/shim.pid'') = Some (Itoa pid)" "address = ?a"
    by (elim conjE exE)
  have "Atoi (TrimSpace (Itoa pid)) = Some pid" using pid(1,2) by (intro Atoi_Itoa) auto
  then have rec: "recorded_pid ?H bundle n2 = Some pid"
    using pid(1,5) assms(6) by (simp add: recorded_pid_def b)
  have killed: "node_kill own2 pid (node_kill own2 (- pid) ps) =
      (\<lambda>p. if p = pid \<or> ps p = Some pid then None else ps p)" for ps
    using pid(1) by (auto simp: node_kill_def fun_eq_iff)
  have "n3 = always ?H (SRemove (bundle @ ''/shim.pid'')) (always ?H (SRemove (bundle @ ''/address''))
      (always ?H (SRemove (socketPath ?a)) (always ?H (SKill pid) (always ?H (SKill (- pid)) n2))))"
    "r = Inr \<lparr>dr_Pid = nh_Getpid base, dr_ExitStatus = 137, dr_ExitedAt = nh_Now base\<rparr>"
    using assms(2,8) rec by (auto simp: RunDelete_def b Let_def)
  then show ?thesis
    using pid(3,4,6) by (intro exI [of _ pid]) (simp add: remove_node kill_node assms(7) killed)
qed

text \<open>A node on which everything works; a VMM in the group of the daemon dies with it.\<close>

definition plain_node :: "node node_host" where
  "plain_node = \<lparr>nh_env = (\<lambda>_. []), nh_Executable = Inr ''/shim'', nh_Getwd = Inr ''/b'', nh_Getpid = 9, nh_Now = 0,
     nh_ReadFile = (\<lambda>p n. Inl (Ext [])), nh_Start = (\<lambda>c n. (Inl (Ext []), n)), nh_do = (\<lambda>a n. (None, n))\<rparr>"

definition good_node :: "node node_host" where
  "good_node = node_host 7 (\<lambda>l a. None) (\<lambda>l. None)
     (\<lambda>n c. if nd_procs n 42 = None then Inr 42 else Inl (Ext ''EAGAIN'')) plain_node"

definition idle_node :: node where
  "idle_node = \<lparr>nd_files = Map.empty, nd_sockets = {}, nd_open = {}, nd_unlink = None, nd_procs = [1 \<mapsto> 1],
     nd_cmds = Map.empty, nd_log = []\<rparr>"

lemma good_spawned: "spawned (\<lambda>n c. if nd_procs n 42 = None then Inr 42 else Inl (Ext ''EAGAIN''))"
  by (auto simp: spawned_def split: if_splits)

lemma plain_node_bundle: "nh_Getwd plain_node = Inr ''/b''" "clean_abs ''/b''" "nd_open idle_node = {}"
  by (simp add: plain_node_def, code_simp, simp add: idle_node_def)

lemma good_start:
  "\<exists>n1. RunStart good_node ns tid ca idle_node = (Inr (SocketAddress (\<lambda>_. []) ca ns tid), n1) \<and>
     nd_procs n1 = [1 \<mapsto> 1, 42 \<mapsto> 42]"
  by (simp add: RunStart_def listen_socket_def spawn_daemon_def record_daemon_def writeFileAtomic_def andThen_def deferred_def
      node_do_def node_start_def always_def good_node_def plain_node_def idle_node_def daemon_cmd_def Let_def)

theorem RunStart_sound_witness:
  "\<exists>n1. RunStart good_node ''k8s.io'' ''pod1'' ''/run/c.sock'' idle_node =
     (Inr (SocketAddress (\<lambda>_. []) ''/run/c.sock'' ''k8s.io'' ''pod1''), n1) \<and> nd_open n1 = {}"
proof -
  obtain n1 where s: "RunStart good_node ''k8s.io'' ''pod1'' ''/run/c.sock'' idle_node =
     (Inr (SocketAddress (\<lambda>_. []) ''/run/c.sock'' ''k8s.io'' ''pod1''), n1)" using good_start by blast
  from RunStart_sound [OF s [unfolded good_node_def] plain_node_bundle(1,2) good_spawned plain_node_bundle(3)] s
  show ?thesis by blast
qed

text \<open>A pid file that says -1 does not make \<open>delete\<close> kill everything.\<close>

theorem RunDelete_kills_witness:
  "nd_procs (snd (RunDelete good_node ''k8s.io'' ''pod1'' ''/run/c.sock''
     (idle_node\<lparr>nd_files := [''/b/shim.pid'' \<mapsto> ''-1'']\<rparr>))) = [1 \<mapsto> 1]"
proof -
  let ?n = "idle_node\<lparr>nd_files := [''/b/shim.pid'' \<mapsto> ''-1'']\<rparr>"
  obtain r n1 where d: "RunDelete good_node ''k8s.io'' ''pod1'' ''/run/c.sock'' ?n = (r, n1)" by fastforce
  have "Join [''/b'', ''shim.pid''] = ''/b/shim.pid''" "Atoi (TrimSpace ''-1'') = Some (-1)" by code_simp+
  with RunDelete_kills [OF d [unfolded good_node_def] plain_node_bundle(1)] have "nd_procs n1 = nd_procs ?n" by fastforce
  with d show ?thesis by (simp add: idle_node_def)
qed

theorem start_then_delete_witness:
  "\<exists>n1 n3 r. RunStart good_node ''k8s.io'' ''pod1'' ''/run/c.sock'' idle_node =
       (Inr (SocketAddress (\<lambda>_. []) ''/run/c.sock'' ''k8s.io'' ''pod1''), n1) \<and> nd_procs n1 42 = Some 42 \<and>
     RunDelete good_node ''k8s.io'' ''pod1'' ''/run/c.sock'' (n1\<lparr>nd_procs := (nd_procs n1)(50 \<mapsto> 42)\<rparr>) = (r, n3) \<and>
     nd_procs n3 = [1 \<mapsto> 1]"
proof -
  let ?a = "SocketAddress (\<lambda>_. []) ''/run/c.sock'' ''k8s.io'' ''pod1''"
  obtain n1 where s: "RunStart good_node ''k8s.io'' ''pod1'' ''/run/c.sock'' idle_node = (Inr ?a, n1)"
    and ps: "nd_procs n1 = [1 \<mapsto> 1, 42 \<mapsto> 42]" using good_start by blast
  let ?n2 = "n1\<lparr>nd_procs := (nd_procs n1)(50 \<mapsto> 42)\<rparr>"
  obtain r n3 where d: "RunDelete good_node ''k8s.io'' ''pod1'' ''/run/c.sock'' ?n2 = (r, n3)" by fastforce
  have f: "nd_files ?n2 (''/b'' @ ''/shim.pid'') = nd_files n1 (''/b'' @ ''/shim.pid'')" by simp
  obtain q where q: "nd_procs n1 q = Some q" "nd_procs idle_node q = None"
    "nd_procs n3 = (\<lambda>p. if p = q \<or> nd_procs ?n2 p = Some q then None else nd_procs ?n2 p)"
    using start_then_delete [OF s [unfolded good_node_def] plain_node_bundle(1,2) good_spawned plain_node_bundle(3) f
        refl d [unfolded good_node_def]] by blast
  have "nd_procs idle_node = [1 \<mapsto> 1]" by (simp add: idle_node_def)
  then have "q \<noteq> 1" using q(2) by (cases "q = 1") simp_all
  then have "q = 42" using q(1) unfolding ps by (simp split: if_splits)
  then have "nd_procs n3 p = [1 \<mapsto> 1] p" for p by (simp add: q(3) ps)
  then have "nd_procs n3 = [1 \<mapsto> 1]" by (rule ext)
  moreover have "nd_procs n1 42 = Some 42" by (simp add: ps)
  ultimately show ?thesis using s d by blast
qed

end
