(* ===== verification/ShimMainProps.thy ===== *)
theory ShimMainProps
  imports ShimMain ShimBootProps
begin

text \<open>
  The service on its drivers: as long as its calls run one after another every live sandbox belongs to a
  task it still knows, so what containerd deletes is gone; and what a daemon that exits leaves behind.
\<close>

section \<open>Calls\<close>

datatype shim_rpc =
    RpcCreate CreateTaskRequest
  | RpcStart string string
  | RpcKill string string "32 word"
  | RpcDelete string string
  | RpcExec ExecProcessRequest
  | RpcWait string string
  | RpcShutdown

text \<open>A call to completion; the goroutine that \<open>Start\<close> of an exec leaves behind runs to its end as well.\<close>

fun rpc_apply :: "shim_env \<Rightarrow> shim_rpc \<Rightarrow> 'w Service \<Rightarrow> 'w \<Rightarrow> 'w Service \<times> 'w" where
  "rpc_apply env (RpcCreate r) s w = snd (shim_Create env r s w)"
| "rpc_apply env (RpcStart tid eid) s w =
     (case shim_Start tid eid s of
        (q, None, s') \<Rightarrow> (s', w)
      | (q, Some j, s') \<Rightarrow> snd (exec_goroutine env j s' w))"
| "rpc_apply env (RpcKill tid eid sig) s w = snd (shim_Kill env tid eid sig s w)"
| "rpc_apply env (RpcDelete tid eid) s w = snd (shim_Delete env tid eid s w)"
| "rpc_apply env (RpcExec r) s w = (snd (shim_Exec r s), w)"
| "rpc_apply env (RpcWait tid eid) s w = (snd (shim_Wait tid eid s), w)"
| "rpc_apply env RpcShutdown s w = (shim_Shutdown s, w)"

fun rpc_run :: "(shim_env \<times> shim_rpc) list \<Rightarrow> 'w Service \<times> 'w \<Rightarrow> 'w Service \<times> 'w" where
  "rpc_run [] x = x"
| "rpc_run ((env, c) # cs) x = rpc_run cs (rpc_apply env c (fst x) (snd x))"

section \<open>The invariant\<close>

text \<open>The sandboxes of the tasks that the service knows.\<close>

definition task_insts :: "'w Service \<Rightarrow> 'w Instance set" where
  "task_insts s = {ts_inst ts |tid a ts. svc_tasks s tid = Some a \<and> svc_theap s a = Some ts}"

definition shim_inv ::
  "('w Driver \<Rightarrow> bool) \<Rightarrow> ('w \<Rightarrow> bool) \<Rightarrow> ('w \<Rightarrow> nat set) \<Rightarrow> ('w \<Rightarrow> 'w Instance \<Rightarrow> bool) \<Rightarrow>
   'w Service \<Rightarrow> 'w \<Rightarrow> bool" where
  "shim_inv D wfw live hnd s w \<longleftrightarrow>
     wfw w \<and> (\<forall>n d. drivers (svc_mgr s) n = Some d \<longrightarrow> D d) \<and>
     (\<forall>tid a. svc_tasks s tid = Some a \<longrightarrow> a < svc_tnext s \<and> svc_theap s a \<noteq> None) \<and>
     (\<forall>i \<in> task_insts s. hnd w i) \<and>
     live w \<subseteq> inst_ref ` task_insts s"

text \<open>
  What a call changes of the service besides: at most the latches, execs and logs. \<open>same_tasks s s'\<close>:
  the same tasks with the same sandboxes, on the same Manager.
\<close>

definition same_tasks :: "'w Service \<Rightarrow> 'w Service \<Rightarrow> bool" where
  "same_tasks s s' \<longleftrightarrow> svc_mgr s' = svc_mgr s \<and> svc_tasks s' = svc_tasks s \<and> svc_tnext s' = svc_tnext s \<and>
     (\<forall>a. map_option ts_inst (svc_theap s' a) = map_option ts_inst (svc_theap s a))"

lemma task_instsI [intro]: "svc_tasks s tid = Some a \<Longrightarrow> svc_theap s a = Some ts \<Longrightarrow> ts_inst ts \<in> task_insts s"
  by (auto simp: task_insts_def)

lemma same_tasks_refl [simp]: "same_tasks s s"
  by (simp add: same_tasks_def)

lemma same_tasks_trans: "same_tasks s s' \<Longrightarrow> same_tasks s' s'' \<Longrightarrow> same_tasks s s''"
  by (simp add: same_tasks_def)

lemma same_tasks_heap:
  assumes "same_tasks s s'"
  shows "svc_theap s a = Some ts \<Longrightarrow> \<exists>ts'. svc_theap s' a = Some ts' \<and> ts_inst ts' = ts_inst ts"
    and "svc_theap s' a = Some ts' \<Longrightarrow> \<exists>ts. svc_theap s a = Some ts \<and> ts_inst ts' = ts_inst ts"
proof -
  have "map_option ts_inst (svc_theap s' a) = map_option ts_inst (svc_theap s a)" using assms by (simp add: same_tasks_def)
  then show "svc_theap s a = Some ts \<Longrightarrow> \<exists>ts'. svc_theap s' a = Some ts' \<and> ts_inst ts' = ts_inst ts"
    and "svc_theap s' a = Some ts' \<Longrightarrow> \<exists>ts. svc_theap s a = Some ts \<and> ts_inst ts' = ts_inst ts"
    by (cases "svc_theap s a"; cases "svc_theap s' a"; simp)+
qed

lemma same_tasks_insts: "same_tasks s s' \<Longrightarrow> task_insts s' = task_insts s"
proof -
  assume st: "same_tasks s s'"
  then have "svc_tasks s' = svc_tasks s" by (simp add: same_tasks_def)
  then show ?thesis unfolding task_insts_def
    using same_tasks_heap [OF st] by (auto simp: set_eq_iff) metis+
qed

lemma same_tasks_core: "same_core s s' \<Longrightarrow> same_tasks s s'"
  by (simp add: same_tasks_def same_coreD)

lemma mark_task_same: "mark_task a c t s = (q, s') \<Longrightarrow> same_tasks s s'"
  by (auto simp: mark_task_def same_tasks_def latch_exit_def split: option.splits if_splits)

lemma mark_exec_same: "mark_exec a c t s = (q, s') \<Longrightarrow> same_tasks s s'"
  by (auto simp: mark_exec_def same_tasks_def split: option.splits if_splits)

lemma markExited_same: "markExited tid a c t s = (q, s') \<Longrightarrow> same_tasks s s'"
  unfolding markExited_def
  by (auto split: prod.splits res.splits bool.splits
      dest: mark_task_same intro: same_tasks_trans [OF _ same_tasks_core [OF same_core_exit_event]])

lemma markExecExited_same: "markExecExited tid e a c t s = (q, s') \<Longrightarrow> same_tasks s s'"
  unfolding markExecExited_def
  by (auto split: prod.splits res.splits bool.splits
      dest: mark_exec_same intro: same_tasks_trans [OF _ same_tasks_core [OF same_core_exec_exit_event]])

lemma find_task_D: "find_task tid s = Some (a, ts) \<Longrightarrow> svc_tasks s tid = Some a \<and> svc_theap s a = Some ts"
  by (auto simp: find_task_def split: option.splits)

lemma find_exec_D: "find_exec tid eid s = Inr ((a, ts), e, es) \<Longrightarrow> svc_tasks s tid = Some a \<and> svc_theap s a = Some ts"
  by (auto simp: find_exec_def dest: find_task_D split: option.splits prod.splits)

lemma same_tasks_update:
  "svc_theap s a = Some ts \<Longrightarrow> ts_inst ts' = ts_inst ts \<Longrightarrow> same_tasks s (s\<lparr>svc_theap := (svc_theap s)(a \<mapsto> ts')\<rparr>)"
  by (simp add: same_tasks_def)

lemma start_task_same: "start_task tid s = (q, s') \<Longrightarrow> same_tasks s s'"
  unfolding start_task_def Let_def
  by (auto split: option.splits if_splits dest!: find_task_D
      intro!: same_tasks_trans [OF same_tasks_update same_tasks_core [OF same_core_publishWarn]])

lemma exec_begin_same: "exec_begin tid eid s = (q, s') \<Longrightarrow> same_tasks s s'"
  by (auto simp: exec_begin_def same_tasks_def split: sum.splits if_splits)

lemma exec_begin_inst:
  assumes "exec_begin tid eid s = (Ok (p, j), s')"
  shows "job_inst j \<in> task_insts s"
proof -
  obtain a ts e es where f: "find_exec tid eid s = Inr ((a, ts), e, es)" and "job_inst j = ts_inst ts"
    using assms by (auto simp: exec_begin_def split: sum.splits if_splits)
  with find_exec_D [OF f] show ?thesis by (metis task_instsI)
qed

lemma shim_Start_same:
  "shim_Start tid eid s = (q, j, s') \<Longrightarrow> same_tasks s s' \<and> (\<forall>x. j = Some x \<longrightarrow> job_inst x \<in> task_insts s)"
  unfolding shim_Start_def
  by (auto split: if_splits prod.splits res.splits dest: exec_begin_same exec_begin_inst start_task_same)

lemma shim_Exec_same: "shim_Exec r s = (q, s') \<Longrightarrow> same_tasks s s'"
  by (auto simp: shim_Exec_def same_tasks_def dest!: find_task_D split: sum.splits option.splits if_splits)

lemma shim_Wait_same: "shim_Wait tid eid s = (q, s') \<Longrightarrow> same_tasks s s'"
  by (auto simp: shim_Wait_def wait_task_def wait_exec_def add_waiter_def same_tasks_def dest!: find_task_D
      split: sum.splits option.splits if_splits)

lemma deleteExec_same: "deleteExec tid eid s = (q, s') \<Longrightarrow> same_tasks s s'"
  by (auto simp: deleteExec_def same_tasks_def dest!: find_exec_D split: sum.splits if_splits)

lemma openOutput_same: "openOutput env p s = (f, s') \<Longrightarrow> same_tasks s s'"
  by (auto simp: openOutput_def logf_def same_tasks_def split: option.splits if_splits)

lemma write_out_same [simp]: "same_tasks s (write_out f cs s') = same_tasks s s'"
  "same_tasks (write_out f cs s') s = same_tasks s' s"
  by (simp_all add: write_out_def same_tasks_def split: option.split)

lemma exec_run_same: "exec_run env j s w = (q, s', w') \<Longrightarrow> same_tasks s s'"
  by (auto simp: exec_run_def Let_def split: prod.splits res.splits dest!: openOutput_same intro: same_tasks_trans)

lemma shim_Shutdown_same: "same_tasks s (shim_Shutdown s)"
  by (simp add: shim_Shutdown_def same_tasks_def Let_def)

section \<open>Every call keeps the invariant\<close>

lemma shim_invD:
  assumes "shim_inv D wfw live hnd s w"
  shows "wfw w" "drivers (svc_mgr s) n = Some d \<Longrightarrow> D d" "svc_tasks s tid = Some a \<Longrightarrow> a < svc_tnext s"
    "svc_tasks s tid = Some a \<Longrightarrow> \<exists>ts. svc_theap s a = Some ts" "i \<in> task_insts s \<Longrightarrow> hnd w i"
    "live w \<subseteq> inst_ref ` task_insts s"
  using assms by (auto simp: shim_inv_def)

lemma create_sandbox_tasks:
  assumes "create_sandbox env r s w = (q, s1, w1)"
  shows "drivers (svc_mgr s1) = drivers (svc_mgr s)" "svc_tasks s1 = svc_tasks s" "svc_theap s1 = svc_theap s"
    "svc_tnext s1 = svc_tnext s"
  using assms
  by (auto simp: create_sandbox_def mgr_Create_def mgr_RestoreFrom_def track_def Let_def
      split: if_splits prod.splits option.splits res.splits)

lemma create_sandbox_cases:
  assumes "create_sandbox env r s w = (q, s1, w1)"
  obtains (booted) n x spec where "drivers (svc_mgr s) n = Some x" "drv_Create x spec w = (q, w1)"
  | (restored) n x f path opts where "drivers (svc_mgr s) n = Some x" "drv_Restore x = Some f" "f path opts w = (q, w1)"
  | (refused) "\<not> is_ok q" "w1 = w"
  using assms that
  by (auto simp: create_sandbox_def mgr_Create_def mgr_RestoreFrom_def Let_def split: if_splits option.splits prod.splits res.splits)

lemma task_insts_new:
  assumes "\<And>tid a. svc_tasks s tid = Some a \<Longrightarrow> a < svc_tnext s" "svc_tasks s tid0 = None"
  shows "task_insts (s\<lparr>svc_theap := (svc_theap s)(svc_tnext s \<mapsto> ts0), svc_tasks := (svc_tasks s)(tid0 \<mapsto> svc_tnext s),
      svc_tnext := n\<rparr>) = insert (ts_inst ts0) (task_insts s)"
    (is "task_insts ?s = _")
proof
  show "task_insts ?s \<subseteq> insert (ts_inst ts0) (task_insts s)"
    by (auto simp: task_insts_def split: if_splits)
  have "ts_inst ts0 \<in> task_insts ?s" by (rule task_instsI [where tid = tid0 and a = "svc_tnext s"]) simp_all
  moreover have "ts_inst ts \<in> task_insts ?s" if "svc_tasks s tid = Some a" "svc_theap s a = Some ts" for tid a ts
    using that assms(1) [OF that(1)] assms(2) by (intro task_instsI [where tid = tid and a = a]) auto
  ultimately show "insert (ts_inst ts0) (task_insts s) \<subseteq> task_insts ?s" by (auto simp: task_insts_def [of s])
qed

context sandbox_drivers
begin

lemma inv_quiet:
  assumes "shim_inv D wfw live handle s w" "same_tasks s s'"
    and "wfw w'" "handle w \<le> handle w'" "live w' \<subseteq> live w"
  shows "shim_inv D wfw live handle s' w'"
proof -
  have t: "task_insts s' = task_insts s" by (rule same_tasks_insts [OF assms(2)])
  have "svc_theap s' a \<noteq> None" if "svc_tasks s' tid = Some a" for tid a
    using shim_invD(4) [OF assms(1), of tid a] same_tasks_heap(1) [OF assms(2), of a] that assms(2)
    by (auto simp: same_tasks_def)
  then show ?thesis
    using assms shim_invD [OF assms(1)] t by (auto simp: shim_inv_def same_tasks_def le_fun_def)
qed

lemma inv_same: "shim_inv D wfw live handle s w \<Longrightarrow> same_tasks s s' \<Longrightarrow> shim_inv D wfw live handle s' w"
  by (rule inv_quiet) (auto dest: shim_invD(1))

lemma create_sandbox_world:
  assumes "wfw w" "\<And>n d. drivers (svc_mgr s) n = Some d \<Longrightarrow> D d" and c: "create_sandbox env r s w = (q, s1, w1)"
  shows "wfw w1 \<and> handle w \<le> handle w1 \<and>
    (case q of Ok i \<Rightarrow> handle w1 i \<and> live w1 = insert (inst_ref i) (live w) | _ \<Rightarrow> live w1 = live w)"
  using c
proof (cases rule: create_sandbox_cases)
  case (booted n x spec)
  note d = assms(2) [OF booted(1)]
  show ?thesis
    using create_ok [OF d assms(1)] create_fail [OF d assms(1) booted(2)] booted(2) by (cases q) auto
next
  case (restored n x f path opts)
  note d = assms(2) [OF restored(1)]
  show ?thesis
    using restore_ok [OF d assms(1) restored(2)] restore_fail [OF d assms(1) restored(2,3)] restored(3) by (cases q) auto
next
  case refused
  then show ?thesis using assms(1) by (cases q) auto
qed

lemma inv_create:
  assumes inv: "shim_inv D wfw live handle s w" and c: "shim_Create env r s w = (q, s', w')"
  shows "shim_inv D wfw live handle s' w'"
proof (cases "create_check r s")
  case (Some e)
  then show ?thesis using c inv by (simp add: shim_Create_def)
next
  case None
  then have free: "svc_tasks s (ct_ID r) = None" by (auto simp: create_check_def split: if_splits)
  obtain p s1 w1 where cs: "create_sandbox env r s w = (p, s1, w1)" by (metis prod_cases3)
  note t = create_sandbox_tasks [OF cs] and v = create_sandbox_world [OF shim_invD(1,2) [OF inv] cs]
  have insts: "task_insts s1 = task_insts s" using t by (simp add: task_insts_def)
  have inv1: "shim_inv D wfw live handle s1 w1" if "live w1 = live w"
    using that v t insts shim_invD [OF inv] unfolding shim_inv_def by (auto simp: le_fun_def)
  show ?thesis
  proof (cases p)
    case (Ok i)
    let ?s2 = "s1\<lparr>svc_theap := (svc_theap s1)(svc_tnext s1 \<mapsto> new_task r i),
        svc_tasks := (svc_tasks s1)(ct_ID r \<mapsto> svc_tnext s1), svc_tnext := Suc (svc_tnext s1)\<rparr>"
    have s': "s' = create_event r ?s2" "w' = w1"
      using c None cs Ok free t by (simp_all add: shim_Create_def create_insert_def)
    have new: "task_insts ?s2 = insert i (task_insts s)"
      using task_insts_new [where s = s1 and ?tid0.0 = "ct_ID r" and ?ts0.0 = "new_task r i" and n = "Suc (svc_tnext s1)"] free t shim_invD(3) [OF inv] insts
      by (simp add: new_task_def)
    have bound: "a < Suc (svc_tnext s)" if "svc_tasks s tid = Some a" for tid a
      using shim_invD(3) [OF inv that] by simp
    have "shim_inv D wfw live handle ?s2 w1"
      unfolding shim_inv_def new using v Ok t shim_invD [OF inv] bound by (auto simp: le_fun_def)
    then show ?thesis unfolding s' by (rule inv_same [OF _ same_tasks_core [OF same_core_create_event]])
  next
    case (Err e)
    then show ?thesis using c None cs v inv1 by (simp add: shim_Create_def)
  next
    case Panic
    then show ?thesis using c None cs v inv1 by (simp add: shim_Create_def)
  qed
qed

lemma inv_kill:
  assumes inv: "shim_inv D wfw live handle s w" and k: "shim_Kill env tid eid sig s w = (q, s', w')"
  shows "shim_inv D wfw live handle s' w'"
proof (cases "eid = [] \<and> (\<exists>a ts. find_task tid s = Some (a, ts))")
  case True
  then obtain a ts where f: "find_task tid s = Some (a, ts)" by blast
  note t = find_task_D [OF f]
  obtain p w1 where st: "inst_Stop (ts_inst ts) w = (p, w1)" by fastforce
  have h: "handle w (ts_inst ts)" using shim_invD(5) [OF inv] t by blast
  note post = stop [OF h shim_invD(1) [OF inv] st]
  have "w' = w1 \<and> same_tasks s s'"
    using k True f st post
    by (auto simp: shim_Kill_def kill_task_def split: prod.splits res.splits dest: markExited_same)
  then show ?thesis using inv_quiet [OF inv, of s' w'] post by auto
next
  case False
  then have "s' = s" "w' = w"
    using k by (auto simp: shim_Kill_def kill_task_def split: if_splits option.splits)
  with inv show ?thesis by simp
qed

lemma inv_delete:
  assumes inv: "shim_inv D wfw live handle s w" and k: "shim_Delete env tid eid s w = (q, s', w')"
  shows "shim_inv D wfw live handle s' w'"
proof -
  consider "eid \<noteq> []" | "eid = []" "find_task tid s = None" | a ts where "eid = []" "find_task tid s = Some (a, ts)"
    by (cases "find_task tid s") auto
  then show ?thesis
  proof cases
    case 1
    then have "w' = w \<and> same_tasks s s'" using k by (auto simp: shim_Delete_def split: prod.splits dest: deleteExec_same)
    then show ?thesis using inv_same [OF inv] by simp
  next
    case 2
    then show ?thesis using k inv by (simp add: shim_Delete_def delete_task_def)
  next
    case 3
    note t = find_task_D [OF 3(2)]
    obtain p w1 where st: "inst_Stop (ts_inst ts) w = (p, w1)" by fastforce
    have h: "handle w (ts_inst ts)" using shim_invD(5) [OF inv] t by blast
    note post = stop [OF h shim_invD(1) [OF inv] st]
    obtain m s1 where me: "markExited tid a 0 (sh_now env) s = (m, s1)" by fastforce
    have inv1: "shim_inv D wfw live handle s1 w1"
      using inv_quiet [OF inv markExited_same [OF me], of w1] post by auto
    let ?s2 = "s1\<lparr>svc_tasks := (svc_tasks s1)(tid := None)\<rparr>"
    have t1: "svc_tasks s1 = svc_tasks s" using markExited_same [OF me] by (simp add: same_tasks_def)
    have "task_insts s1 \<subseteq> insert (ts_inst ts) (task_insts ?s2)"
    proof
      fix x
      assume "x \<in> task_insts s1"
      then obtain tid' a' ts' where x: "x = ts_inst ts'" "svc_tasks s1 tid' = Some a'" "svc_theap s1 a' = Some ts'"
        by (auto simp: task_insts_def)
      show "x \<in> insert (ts_inst ts) (task_insts ?s2)"
      proof (cases "tid' = tid")
        case True
        then have "a' = a" using x(2) t t1 by simp
        then show ?thesis using same_tasks_heap(2) [OF markExited_same [OF me] x(3)] t x(1) by auto
      next
        case False
        then have "ts_inst ts' \<in> task_insts ?s2" using x by (intro task_instsI [where tid = tid' and a = a']) simp_all
        then show ?thesis using x(1) by simp
      qed
    qed
    then have "live w1 \<subseteq> inst_ref ` task_insts ?s2"
      using shim_invD(6) [OF inv1] post by blast
    moreover have "task_insts ?s2 \<subseteq> task_insts s1" by (auto simp: task_insts_def split: if_splits)
    ultimately have inv2: "shim_inv D wfw live handle ?s2 w1"
      using shim_invD [OF inv1] by (auto simp: shim_inv_def split: if_splits)
    have "w' = w1 \<and> (s' = s1 \<or> same_tasks ?s2 s')"
      using k 3 st post me
      by (auto simp: shim_Delete_def delete_task_def delete_remove_def Let_def
          intro: same_tasks_core [OF same_core_delete_event] split: prod.splits res.splits option.splits)
    then show ?thesis using inv1 inv_same [OF inv2] by auto
  qed
qed

lemma inv_rpc:
  assumes inv: "shim_inv D wfw live handle s w" and r: "rpc_apply env c s w = (s', w')"
  shows "shim_inv D wfw live handle s' w'"
proof (cases c)
  case (RpcCreate req)
  then show ?thesis using r inv_create [OF inv, of env req] by (cases "shim_Create env req s w") auto
next
  case (RpcStart tid eid)
  obtain q j s1 where st: "shim_Start tid eid s = (q, j, s1)" by (metis prod_cases3)
  note same = shim_Start_same [OF st]
  show ?thesis
  proof (cases j)
    case None
    then show ?thesis using r RpcStart st inv_same [OF inv] same by simp
  next
    case (Some x)
    obtain p s2 w2 where g: "exec_goroutine env x s1 w = (p, s2, w2)" by (metis prod_cases3)
    obtain k out errout w3 where x: "inst_Exec (job_inst x) (job_args x) w = (k, out, errout, w3)" by (metis prod_cases4)
    have h: "handle w (job_inst x)" using shim_invD(5) [OF inv] same Some by blast
    note post = exec [OF h shim_invD(1) [OF inv] x]
    have "w2 = w3 \<and> same_tasks s1 s2"
      using g x
      by (auto simp: exec_goroutine_def exec_run_def Let_def split: prod.splits res.splits
          dest!: openOutput_same markExecExited_same) (metis same_tasks_trans)+
    then show ?thesis
      using r RpcStart st Some g inv_quiet [OF inv same_tasks_trans [OF conjunct1 [OF same]], of s2 w3] post by auto
  qed
next
  case (RpcKill tid eid sig)
  then show ?thesis using r inv_kill [OF inv, of env tid eid sig] by (cases "shim_Kill env tid eid sig s w") auto
next
  case (RpcDelete tid eid)
  then show ?thesis using r inv_delete [OF inv, of env tid eid] by (cases "shim_Delete env tid eid s w") auto
next
  case (RpcExec req)
  then show ?thesis using r inv_same [OF inv, of s'] shim_Exec_same [of req s] by (cases "shim_Exec req s") auto
next
  case (RpcWait tid eid)
  then show ?thesis using r inv_same [OF inv, of s'] shim_Wait_same [of tid eid s] by (cases "shim_Wait tid eid s") auto
next
  case RpcShutdown
  then show ?thesis using r inv_same [OF inv shim_Shutdown_same] by auto
qed

lemma inv_rpcs: "shim_inv D wfw live handle (fst x) (snd x) \<Longrightarrow> rpc_run cs x = y \<Longrightarrow> shim_inv D wfw live handle (fst y) (snd y)"
proof (induction cs arbitrary: x)
  case (Cons c cs)
  obtain env r where c: "c = (env, r)" by fastforce
  obtain s w where sw: "rpc_apply env r (fst x) (snd x) = (s, w)" by fastforce
  show ?case using Cons.IH [of "(s, w)"] Cons.prems inv_rpc [OF Cons.prems(1) sw] c sw by simp
qed simp

end

section \<open>The shim on the drivers of vessel\<close>

definition shim_cfg :: "'g shim_site \<Rightarrow> Config \<Rightarrow> ChConfig" where
  "shim_cfg S cfg = withDefaults (si_tmp (ss_site S)) (cfg_ChConfig cfg)"

definition vessel_inv :: "'g shim_site \<Rightarrow> Config \<Rightarrow> 'g vessel Service \<Rightarrow> 'g vessel \<Rightarrow> bool" where
  "vessel_inv S cfg =
     shim_inv (both_D (\<lambda>d. \<exists>os. d = process_Driver os) (is_ch (si_machine (ss_site S)) (shim_cfg S cfg)))
       (both_wf proc_ok (ch_inv {})) (both_live proc_live ch_live)
       (both_handle proc_handle (ch_handle (si_machine (ss_site S))))"

lemma newManagerFromConfig_ok:
  assumes "newManagerFromConfig (ss_site S) cfg = (m, w)" "sane (si_machine (ss_site S)) (shim_cfg S cfg)"
  shows "drivers m = [''process'' \<mapsto> drv_fst (process_Driver (si_os (ss_site S))),
      ''cloudhypervisor'' \<mapsto> drv_snd (ch_Driver (si_machine (ss_site S)) (shim_cfg S cfg))]"
    "instances m = Map.empty" "both_live proc_live ch_live w = {}"
    "mgr_ok (both_D (\<lambda>d. \<exists>os. d = process_Driver os) (is_ch (si_machine (ss_site S)) (shim_cfg S cfg)))
       (both_wf proc_ok (ch_inv {})) (both_live proc_live ch_live)
       (both_handle proc_handle (ch_handle (si_machine (ss_site S)))) m w"
proof -
  let ?M = "si_machine (ss_site S)" and ?si = "ss_site S"
  obtain d cw where new: "ch_New (si_tmp ?si) (cfg_ChConfig cfg) ?M (snd (si_rand ?si)) (si_g ?si) = (d, cw)"
    by fastforce
  then have d: "d = ch_Driver ?M (shim_cfg S cfg)" by (auto simp: ch_New_def shim_cfg_def Let_def)
  show m: "drivers m = [''process'' \<mapsto> drv_fst (process_Driver (si_os ?si)), ''cloudhypervisor'' \<mapsto> drv_snd (ch_Driver ?M (shim_cfg S cfg))]"
    and inst: "instances m = Map.empty"
    using assms(1) new by (auto simp: newManagerFromConfig_def RegisterDriver_def NewManager_def drv_fst_def drv_snd_def
        ch_Driver_def d)
  have w: "w = (NewProcWorld (fst (si_rand ?si)), cw)"
    using assms(1) new by (auto simp: newManagerFromConfig_def)
  have "ch_inv {} cw" "ch_live cw = {}"
    using ch_New_inv [of "si_tmp ?si" "cfg_ChConfig cfg" ?M "snd (si_rand ?si)" "si_g ?si"] new by simp_all
  moreover have "proc_ok (fst w)" "proc_live (fst w) = {}"
    by (simp_all add: w NewProcWorld_def proc_ok_def proc_live_def)
  moreover have "both_D (\<lambda>d. \<exists>os. d = process_Driver os) (is_ch ?M (shim_cfg S cfg)) x" if "drivers m n = Some x" for n x
    using that assms(2) by (auto simp: m both_D_def is_ch_def split: if_splits)
  ultimately show "both_live proc_live ch_live w = {}"
    "mgr_ok (both_D (\<lambda>d. \<exists>os. d = process_Driver os) (is_ch ?M (shim_cfg S cfg)))
       (both_wf proc_ok (ch_inv {})) (both_live proc_live ch_live) (both_handle proc_handle (ch_handle ?M)) m w"
    using inst by (auto simp: mgr_ok_def both_wf_def both_live_def w)
qed

lemma newManagerFromConfig_inv:
  assumes "newManagerFromConfig (ss_site S) cfg = (m, w)" "sane (si_machine (ss_site S)) (shim_cfg S cfg)"
    and "svc_mgr s = m" "svc_tasks s = Map.empty"
  shows "vessel_inv S cfg s w"
  using newManagerFromConfig_ok [OF assms(1,2)] assms(3,4)
  by (auto simp: vessel_inv_def shim_inv_def mgr_ok_def task_insts_def)

lemma RunDaemon_served:
  assumes "RunDaemon S nspace new_server calls fin cancelled = (r, Some x, msgs)"
  obtains cfg m w svc where "LoadConfig (si_env (ss_site S)) (ss_configs S) (ss_order S) [] = Ok cfg"
    "newManagerFromConfig (ss_site S) cfg = (m, w)"
    "attach_publisher S nspace (NewService m (DefaultDriver cfg) (Some (cfg_Templates cfg)) (ss_pid S)) = (svc, msgs)"
    "x = (if new_server = None then calls (SetShutdown svc, w) else (SetShutdown svc, w))"
    "r = (if cancelled then None else case new_server of Some e \<Rightarrow> Some e
        | None \<Rightarrow> (case fin of CtxDone e \<Rightarrow> Some e | ServerDone q \<Rightarrow> q))"
  using assms
  by (auto simp: RunDaemon_def shim_Serve_def split: if_splits option.splits res.splits prod.splits)

lemma attach_publisher_core:
  assumes "attach_publisher S nspace svc = (svc', msgs)"
  shows "svc_mgr svc' = svc_mgr svc" "svc_tasks svc' = svc_tasks svc" "svc_defaultDriver svc' = svc_defaultDriver svc"
    "svc_templates svc' = svc_templates svc"
  using assms by (auto simp: attach_publisher_def SetPublisher_def Let_def split: if_splits sum.splits)

text \<open>
  C2. The shim loses no sandbox: whatever tasks containerd creates - booted or from templates - starts, execs
  into, waits for, kills and deletes, one call after another, on either driver and whatever the machine
  answers, every live sandbox belongs to a task that the service still knows. So once all tasks are
  deleted no sandbox process is left, and the only VMMs are the idle ones of the pool.
\<close>

theorem shim_no_leak:
  assumes "RunDaemon S nspace new_server (rpc_run cs) fin cancelled = (r, Some (s, w), msgs)"
    and "\<And>cfg. LoadConfig (si_env (ss_site S)) (ss_configs S) (ss_order S) [] = Ok cfg \<Longrightarrow>
       sane (si_machine (ss_site S)) (shim_cfg S cfg)"
  shows "both_live proc_live ch_live w \<subseteq> inst_ref ` task_insts s \<and>
     (svc_tasks s = Map.empty \<longrightarrow> proc_live (fst w) = {} \<and> ch_live (snd w) = {} \<and> cw_procs (snd w) \<subseteq> idle_pids (snd w))"
proof -
  obtain cfg m w0 svc where run: "LoadConfig (si_env (ss_site S)) (ss_configs S) (ss_order S) [] = Ok cfg"
    "newManagerFromConfig (ss_site S) cfg = (m, w0)"
    "attach_publisher S nspace (NewService m (DefaultDriver cfg) (Some (cfg_Templates cfg)) (ss_pid S)) = (svc, msgs)"
    "(s, w) = (if new_server = None then rpc_run cs (SetShutdown svc, w0) else (SetShutdown svc, w0))"
    using assms(1) by (rule RunDaemon_served)
  have start: "vessel_inv S cfg (SetShutdown svc) w0"
    using attach_publisher_core [OF run(3)]
    by (intro newManagerFromConfig_inv [OF run(2) assms(2) [OF run(1)]]) (simp_all add: SetShutdown_def NewService_def)
  have inv: "vessel_inv S cfg s w"
  proof (cases "new_server = None")
    case True
    then have "rpc_run cs (SetShutdown svc, w0) = (s, w)" using run(4) by simp
    from vessel.both.inv_rpcs [OF _ this] start show ?thesis by (simp add: vessel_inv_def)
  next
    case False
    then show ?thesis using run(4) start by auto
  qed
  have live: "both_live proc_live ch_live w \<subseteq> inst_ref ` task_insts s" and wf: "both_wf proc_ok (ch_inv {}) w"
    using shim_invD(6,1) [OF inv [unfolded vessel_inv_def]] by simp_all
  have "proc_live (fst w) = {} \<and> ch_live (snd w) = {} \<and> cw_procs (snd w) \<subseteq> idle_pids (snd w)" if "svc_tasks s = Map.empty"
  proof -
    have "both_live proc_live ch_live w = {}" using live that by (simp add: task_insts_def)
    then have "proc_live (fst w) = {}" "ch_live (snd w) = {}" by (auto simp: both_live_def)
    with idle_procs [of "snd w"] wf show ?thesis by (simp add: both_wf_def)
  qed
  with live show ?thesis by blast
qed


text \<open>A shim without a configuration file, on which everything works.\<close>

definition happy_shim :: "nat shim_site" where
  "happy_shim = \<lparr>ss_site = happy_site, ss_fd = True, ss_FileListener = None, ss_configs = (\<lambda>p. NotExist), ss_order = [],
     ss_dial = (\<lambda>a. None), ss_pack = (\<lambda>n. None), ss_forward = (\<lambda>n k. None), ss_pid = 9\<rparr>"

lemma happy_shim_config:
  "LoadConfig (si_env (ss_site happy_shim)) (ss_configs happy_shim) (ss_order happy_shim) [] = Ok empty_Config"
  by (simp add: LoadConfig_def happy_shim_def Let_def)

lemma happy_shim_sane: "sane (si_machine (ss_site happy_shim)) (shim_cfg happy_shim cfg)"
  by (simp add: happy_shim_def happy_site_def shim_cfg_def cfg_ChConfig_def withDefaults_def happy_sane)

definition bare_env :: shim_env where
  "bare_env = \<lparr>sh_ReadFile = (\<lambda>p. None), sh_annotations = (\<lambda>d. None), sh_namespaces = (\<lambda>d. None),
     sh_open = (\<lambda>p. None), sh_now = 5\<rparr>"

definition life :: "(shim_env \<times> shim_rpc) list" where
  "life = [(bare_env, RpcCreate \<lparr>ct_ID = ''p'', ct_Bundle = ''/b''\<rparr>), (bare_env, RpcStart ''p'' []),
     (bare_env, RpcDelete ''p'' [])]"

theorem shim_no_leak_witness:
  "\<exists>r s w msgs. RunDaemon happy_shim ''k8s.io'' None (rpc_run life) (CtxDone (Ext ''canceled'')) True = (r, Some (s, w), msgs) \<and>
     both_live proc_live ch_live w \<subseteq> inst_ref ` task_insts s"
proof -
  obtain r out msgs where d: "RunDaemon happy_shim ''k8s.io'' None (rpc_run life) (CtxDone (Ext ''canceled'')) True = (r, out, msgs)"
    by (metis prod_cases3)
  have "ss_fd happy_shim" "ss_FileListener happy_shim = None" by (simp_all add: happy_shim_def)
  with d happy_shim_config obtain x where x: "out = Some x"
    by (auto simp: RunDaemon_def split: prod.splits)
  obtain s w where "x = (s, w)" by (cases x)
  with d x have d': "RunDaemon happy_shim ''k8s.io'' None (rpc_run life) (CtxDone (Ext ''canceled'')) True = (r, Some (s, w), msgs)"
    by simp
  from shim_no_leak [OF d' happy_shim_sane] d' show ?thesis by blast
qed


end
