(* ===== verification/ShimLive.thy ===== *)
theory ShimLive
  imports ShimMainProps
begin

text \<open>
  The task service under concurrency on the drivers of vessel: who owns a sandbox while RPCs interleave.
  \<open>ShimThreads\<close> follows the exit records, this theory the sandboxes behind them.
\<close>

section \<open>Owners\<close>

text \<open>The sandbox of a task cell, and the one that a \<open>Create\<close> has made and not yet entered or stopped.\<close>

definition cell :: "'w Service \<Rightarrow> nat \<Rightarrow> 'w Instance option" where
  "cell s a = map_option ts_inst (svc_theap s a)"

fun in_create :: "'w shim_thread \<Rightarrow> 'w Instance set" where
  "in_create (T_CreateInsert r i) = {i}"
| "in_create (T_CreateLost r i) = {i}"
| "in_create _ = {}"

definition creating :: "'w ShimSys \<Rightarrow> 'w Instance set" where
  "creating y = (\<Union>t \<in> set (sy_threads y). in_create t)"

text \<open>
  A \<open>Delete\<close> is overtaken when the task that it stopped is no longer the one under its identifier:
  another \<open>Delete\<close> removed it, and a \<open>Create\<close> made it anew.
\<close>

fun overtaken :: "'w Service \<Rightarrow> 'w shim_thread \<Rightarrow> bool" where
  "overtaken s (T_DeleteRemove tid a) = (case svc_tasks s tid of None \<Rightarrow> False | Some b \<Rightarrow> b \<noteq> a)"
| "overtaken s _ = False"

fun no_overtaking :: "shim_event list \<Rightarrow> 'w ShimSys \<Rightarrow> bool" where
  "no_overtaking [] y = True"
| "no_overtaking (e # es) y =
     ((case e of Run i env \<Rightarrow> i < length (sy_threads y) \<longrightarrow> \<not> overtaken (sy_svc y) (sy_threads y ! i) | _ \<Rightarrow> True) \<and>
      no_overtaking es (shim_step e y))"

section \<open>The invariant\<close>

text \<open>
  The service and its world; what a thread relies on (the instances it will call, and of a \<open>Delete\<close>
  that has stopped its sandbox, that it stays stopped); and an owner for each live sandbox.
\<close>

definition cells_wf ::
  "('w Driver \<Rightarrow> bool) \<Rightarrow> ('w \<Rightarrow> bool) \<Rightarrow> ('w \<Rightarrow> 'w Instance \<Rightarrow> bool) \<Rightarrow> 'w Service \<Rightarrow> 'w \<Rightarrow> bool" where
  "cells_wf D wfw hnd s w \<longleftrightarrow>
     wfw w \<and> (\<forall>n d. drivers (svc_mgr s) n = Some d \<longrightarrow> D d) \<and>
     (\<forall>tid a. svc_tasks s tid = Some a \<longrightarrow> cell s a \<noteq> None) \<and>
     (\<forall>a i. cell s a = Some i \<longrightarrow> a < svc_tnext s \<and> hnd w i)"

definition stopped_cell :: "('w \<Rightarrow> nat set) \<Rightarrow> ('w \<Rightarrow> 'w Instance \<Rightarrow> bool) \<Rightarrow> 'w Service \<Rightarrow> 'w \<Rightarrow> nat \<Rightarrow> bool" where
  "stopped_cell live hnd s w a \<longleftrightarrow> (\<exists>i. cell s a = Some i \<and> hnd w i \<and> inst_ref i \<notin> live w)"

fun thread_live :: "('w \<Rightarrow> nat set) \<Rightarrow> ('w \<Rightarrow> 'w Instance \<Rightarrow> bool) \<Rightarrow> 'w Service \<Rightarrow> 'w \<Rightarrow> 'w shim_thread \<Rightarrow> bool" where
  "thread_live live hnd s w (T_CreateInsert r i) = hnd w i"
| "thread_live live hnd s w (T_CreateLost r i) = hnd w i"
| "thread_live live hnd s w (T_KillStop tid a i sig) = hnd w i"
| "thread_live live hnd s w (T_DeleteStop tid a i) = (hnd w i \<and> cell s a = Some i)"
| "thread_live live hnd s w (T_DeleteMark tid a) = stopped_cell live hnd s w a"
| "thread_live live hnd s w (T_DeleteExitEvent tid a t) = stopped_cell live hnd s w a"
| "thread_live live hnd s w (T_DeleteRemove tid a) = stopped_cell live hnd s w a"
| "thread_live live hnd s w (T_ExecRun j) = hnd w (job_inst j)"
| "thread_live live hnd s w _ = True"

definition live_inv ::
  "('w Driver \<Rightarrow> bool) \<Rightarrow> ('w \<Rightarrow> bool) \<Rightarrow> ('w \<Rightarrow> nat set) \<Rightarrow> ('w \<Rightarrow> 'w Instance \<Rightarrow> bool) \<Rightarrow> 'w ShimSys \<Rightarrow> bool" where
  "live_inv D wfw live hnd y \<longleftrightarrow>
     cells_wf D wfw hnd (sy_svc y) (sy_world y) \<and>
     (\<forall>t \<in> set (sy_threads y). thread_live live hnd (sy_svc y) (sy_world y) t) \<and>
     live (sy_world y) \<subseteq> inst_ref ` (task_insts (sy_svc y) \<union> creating y)"

text \<open>What a region leaves to the other threads: their instances and cells, and what is stopped stays stopped.\<close>

definition keeps_rest :: "('w \<Rightarrow> nat set) \<Rightarrow> ('w \<Rightarrow> 'w Instance \<Rightarrow> bool) \<Rightarrow> 'w Service \<Rightarrow> 'w \<Rightarrow> 'w Service \<Rightarrow> 'w \<Rightarrow> bool" where
  "keeps_rest live hnd s w s' w' \<longleftrightarrow>
     hnd w \<le> hnd w' \<and> (\<forall>a i. cell s a = Some i \<longrightarrow> cell s' a = Some i) \<and>
     (\<forall>i. hnd w i \<longrightarrow> inst_ref i \<in> live w' \<longrightarrow> inst_ref i \<in> live w)"

text \<open>One region in order: what lives afterwards is owned by a task or this thread, or was owned by others.\<close>

definition owned_region ::
  "('w Driver \<Rightarrow> bool) \<Rightarrow> ('w \<Rightarrow> bool) \<Rightarrow> ('w \<Rightarrow> nat set) \<Rightarrow> ('w \<Rightarrow> 'w Instance \<Rightarrow> bool) \<Rightarrow>
   'w Service \<Rightarrow> 'w \<Rightarrow> 'w shim_thread \<Rightarrow> 'w shim_thread \<times> 'w exec_job option \<times> 'w Service \<times> 'w \<Rightarrow> bool" where
  "owned_region D wfw live hnd s w t q \<longleftrightarrow> (case q of (t', j, s', w') \<Rightarrow>
     cells_wf D wfw hnd s' w' \<and> keeps_rest live hnd s w s' w' \<and> thread_live live hnd s' w' t' \<and>
     (\<forall>x. j = Some x \<longrightarrow> hnd w' (job_inst x)) \<and>
     live w' \<subseteq> inst_ref ` (task_insts s' \<union> in_create t') \<union> (live w - inst_ref ` (task_insts s \<union> in_create t)))"

lemma cells_wfD:
  assumes "cells_wf D wfw hnd s w"
  shows "wfw w" "drivers (svc_mgr s) n = Some d \<Longrightarrow> D d" "svc_tasks s tid = Some a \<Longrightarrow> \<exists>i. cell s a = Some i"
    "cell s a = Some i \<Longrightarrow> a < svc_tnext s" "cell s a = Some i \<Longrightarrow> hnd w i"
  using assms by (auto simp: cells_wf_def)

lemma cell_insts: "task_insts s = {i. \<exists>tid a. svc_tasks s tid = Some a \<and> cell s a = Some i}"
  by (auto simp: task_insts_def cell_def)

lemma same_tasks_cell: "same_tasks s s' \<Longrightarrow> cell s' = cell s"
  by (auto simp: same_tasks_def cell_def)

lemma find_task_cell: "find_task tid s = Some (a, ts) \<Longrightarrow> cell s a = Some (ts_inst ts)"
  by (auto simp: cell_def dest: find_task_D)

lemma thread_live_rest:
  assumes "keeps_rest live hnd s w s' w'" "thread_live live hnd s w t"
  shows "thread_live live hnd s' w' t"
proof -
  have "stopped_cell live hnd s' w' a" if "stopped_cell live hnd s w a" for a
    using that assms(1) by (auto simp: stopped_cell_def keeps_rest_def le_fun_def)
  with assms show ?thesis by (cases t) (auto simp: keeps_rest_def le_fun_def)
qed

lemma owned_quiet:
  assumes wf: "cells_wf D wfw hnd s w" and same: "same_tasks s s'"
    and w: "wfw w'" "hnd w \<le> hnd w'" "live w' \<subseteq> live w - inst_ref ` in_create t"
    and t: "thread_live live hnd s' w' t'" "\<And>x. j = Some x \<Longrightarrow> hnd w' (job_inst x)"
  shows "owned_region D wfw live hnd s w t (t', j, s', w')"
proof -
  have c: "cell s' = cell s" "task_insts s' = task_insts s"
    by (rule same_tasks_cell [OF same], rule same_tasks_insts [OF same])
  have "cells_wf D wfw hnd s' w'"
    using wf w(1,2) c same by (auto simp: cells_wf_def same_tasks_def le_fun_def)
  then show ?thesis using w t c by (auto simp: owned_region_def keeps_rest_def)
qed

lemma owned_same:
  "cells_wf D wfw hnd s w \<Longrightarrow> same_tasks s s' \<Longrightarrow> in_create t = {} \<Longrightarrow> thread_live live hnd s' w t' \<Longrightarrow>
   owned_region D wfw live hnd s w t (t', None, s', w)"
  by (rule owned_quiet) (auto dest: cells_wfD(1))

lemma stopped_same: "same_tasks s s' \<Longrightarrow> stopped_cell live hnd s' w a = stopped_cell live hnd s w a"
  by (simp add: stopped_cell_def same_tasks_cell)

lemma creating_update:
  "i < length (sy_threads y) \<Longrightarrow> in_create t = in_create (sy_threads y ! i) \<Longrightarrow>
   creating (y\<lparr>sy_threads := (sy_threads y)[i := t]\<rparr>) = creating y"
proof -
  assume a: "i < length (sy_threads y)" "in_create t = in_create (sy_threads y ! i)"
  have "map in_create ((sy_threads y)[i := t]) = map in_create (sy_threads y)"
    using a by (metis list_update_id map_update)
  then have "in_create ` set ((sy_threads y)[i := t]) = in_create ` set (sy_threads y)" by (metis list.set_map)
  then show ?thesis by (simp add: creating_def)
qed

lemma creating_parts:
  assumes "i < length (sy_threads y)"
  shows "creating y \<subseteq> in_create (sy_threads y ! i) \<union> (\<Union>x \<in> set ((sy_threads y)[i := t]). in_create x)"
    "in_create t \<subseteq> (\<Union>x \<in> set ((sy_threads y)[i := t]). in_create x)"
proof -
  have "x = sy_threads y ! i \<or> x \<in> set ((sy_threads y)[i := t])" if "x \<in> set (sy_threads y)" for x
    using that by (metis in_set_conv_nth length_list_update nth_list_update_neq)
  then show "creating y \<subseteq> in_create (sy_threads y ! i) \<union> (\<Union>x \<in> set ((sy_threads y)[i := t]). in_create x)"
    unfolding creating_def by fastforce
  show "in_create t \<subseteq> (\<Union>x \<in> set ((sy_threads y)[i := t]). in_create x)"
    using set_update_memI [OF assms, of t] by blast
qed

lemma owners_step:
  assumes "L \<subseteq> f ` (A \<union> C)" "L' \<subseteq> f ` (A' \<union> M') \<union> (L - f ` (A \<union> M))" "C \<subseteq> M \<union> C'" "M' \<subseteq> C'"
  shows "L' \<subseteq> f ` (A' \<union> C')"
proof
  fix x
  assume "x \<in> L'"
  then consider "x \<in> f ` (A' \<union> M')" | "x \<in> L" "x \<notin> f ` (A \<union> M)" using assms(2) by auto
  then show "x \<in> f ` (A' \<union> C')"
  proof cases
    case 1
    then show ?thesis using assms(4) by auto
  next
    case 2
    then obtain c where "c \<in> C" "x = f c" "c \<notin> A \<union> M" using assms(1) by fast
    then show ?thesis using assms(3) by auto
  qed
qed

section \<open>Regions\<close>

context owned_drivers
begin

lemma sandbox_new:
  assumes wf: "cells_wf D wfw handle s w" and c: "create_sandbox env r s w = (Ok i, s1, w1)" and h: "handle w j"
  shows "inst_ref j \<noteq> inst_ref i"
  using c
proof (cases rule: create_sandbox_cases)
  case (booted n x spec)
  then show ?thesis using create_new [OF cells_wfD(2) [OF wf] cells_wfD(1) [OF wf] _ h] by blast
next
  case (restored n x f path opts)
  then show ?thesis using restore_new [OF cells_wfD(2) [OF wf] cells_wfD(1) [OF wf] _ _ h] by blast
qed simp

lemma owned_halt:
  assumes wf: "cells_wf D wfw handle s w" and h: "handle w i" and st: "inst_Stop i w = (q, w1)"
    and t: "in_create t \<subseteq> {i}" "thread_live live handle s w1 t'"
  shows "owned_region D wfw live handle s w t (t', None, s, w1)"
  using stop [OF h cells_wfD(1) [OF wf] st] t by (intro owned_quiet [OF wf same_tasks_refl]) auto

lemma owned_create:
  assumes wf: "cells_wf D wfw handle s w"
  shows "owned_region D wfw live handle s w (T_CreateSandbox r) (shim_region env (T_CreateSandbox r) s w)"
    "handle w i \<Longrightarrow>
     owned_region D wfw live handle s w (T_CreateInsert r i) (shim_region env (T_CreateInsert r i) s w)"
    "handle w i \<Longrightarrow>
     owned_region D wfw live handle s w (T_CreateLost r i) (shim_region env (T_CreateLost r i) s w)"
proof -
  obtain q s1 w1 where c: "create_sandbox env r s w = (q, s1, w1)" by (metis prod_cases3)
  note t = create_sandbox_tasks [OF c] and v = create_sandbox_world [OF cells_wfD(1,2) [OF wf] c]
  have cells: "cell s1 = cell s" "task_insts s1 = task_insts s" using t by (auto simp: cell_def task_insts_def)
  have "cells_wf D wfw handle s1 w1" using wf v t(1,2,4) cells by (auto simp: cells_wf_def le_fun_def)
  then show "owned_region D wfw live handle s w (T_CreateSandbox r) (shim_region env (T_CreateSandbox r) s w)"
    using c v cells sandbox_new [OF wf] by (cases q) (auto simp: owned_region_def keeps_rest_def)
next
  assume h: "handle w i"
  obtain q w1 where st: "inst_Stop i w = (q, w1)" by (cases "inst_Stop i w")
  show "owned_region D wfw live handle s w (T_CreateLost r i) (shim_region env (T_CreateLost r i) s w)"
    using st by (cases q) (simp_all add: owned_halt [OF wf h st])
  show "owned_region D wfw live handle s w (T_CreateInsert r i) (shim_region env (T_CreateInsert r i) s w)"
  proof (cases "svc_tasks s (ct_ID r)")
    case (Some b)
    then show ?thesis
      using h wf by (auto simp: create_insert_def owned_region_def keeps_rest_def)
  next
    case None
    let ?s = "s\<lparr>svc_theap := (svc_theap s)(svc_tnext s \<mapsto> new_task r i),
        svc_tasks := (svc_tasks s)(ct_ID r \<mapsto> svc_tnext s), svc_tnext := Suc (svc_tnext s)\<rparr>"
    have bound: "svc_tasks s tid = Some a \<Longrightarrow> a < svc_tnext s" for tid a
      using cells_wfD(3,4) [OF wf] by blast
    have c: "cell ?s a = (if a = svc_tnext s then Some i else cell s a)" for a by (simp add: cell_def new_task_def)
    have new: "task_insts ?s = insert i (task_insts s)"
      using task_insts_new [where s = s and ?tid0.0 = "ct_ID r" and ?ts0.0 = "new_task r i" and n = "Suc (svc_tnext s)", OF bound None] by (simp add: new_task_def)
    have fresh: "cell s a = Some j \<Longrightarrow> a \<noteq> svc_tnext s" for a j using cells_wfD(4) [OF wf] by blast
    have "cells_wf D wfw handle ?s w"
      using wf h by (auto simp: cells_wf_def c less_Suc_eq)
    moreover have "keeps_rest live handle s w ?s w" using fresh by (auto simp: keeps_rest_def c)
    moreover have "shim_region env (T_CreateInsert r i) s w = (T_CreateEvent r, None, ?s, w)"
      using None by (simp add: create_insert_def)
    ultimately show ?thesis using new by (auto simp: owned_region_def)
  qed
qed

lemma owned_stop_regions:
  assumes wf: "cells_wf D wfw handle s w" and h: "handle w i"
  shows "owned_region D wfw live handle s w (T_KillStop tid a i sig) (shim_region env (T_KillStop tid a i sig) s w)"
    "cell s a = Some i \<Longrightarrow>
     owned_region D wfw live handle s w (T_DeleteStop tid a i) (shim_region env (T_DeleteStop tid a i) s w)"
proof -
  obtain q w1 where st: "inst_Stop i w = (q, w1)" by (cases "inst_Stop i w")
  note post = stop [OF h cells_wfD(1) [OF wf] st]
  show "owned_region D wfw live handle s w (T_KillStop tid a i sig) (shim_region env (T_KillStop tid a i sig) s w)"
    using st by (cases q) (simp_all add: owned_halt [OF wf h st])
  have "stopped_cell live handle s w1 a" if "cell s a = Some i"
    using that post h by (auto simp: stopped_cell_def le_fun_def)
  then show "owned_region D wfw live handle s w (T_DeleteStop tid a i) (shim_region env (T_DeleteStop tid a i) s w)"
    if "cell s a = Some i"
    using st that by (cases q) (simp_all add: owned_halt [OF wf h st])
qed

lemma owned_delete_regions:
  assumes wf: "cells_wf D wfw handle s w" and st: "stopped_cell live handle s w a"
  shows "owned_region D wfw live handle s w (T_DeleteMark tid a) (shim_region env (T_DeleteMark tid a) s w)"
    "owned_region D wfw live handle s w (T_DeleteExitEvent tid a t) (shim_region env (T_DeleteExitEvent tid a t) s w)"
    "\<not> overtaken s (T_DeleteRemove tid a) \<Longrightarrow>
     owned_region D wfw live handle s w (T_DeleteRemove tid a) (shim_region env (T_DeleteRemove tid a) s w)"
proof -
  obtain q s1 where m: "mark_task a 0 (sh_now env) s = (q, s1)" by (cases "mark_task a 0 (sh_now env) s")
  note same = mark_task_same [OF m]
  show "owned_region D wfw live handle s w (T_DeleteMark tid a) (shim_region env (T_DeleteMark tid a) s w)"
    using m st stopped_same [OF same] by (auto intro!: owned_same [OF wf same] split: res.split bool.split)
  have e: "same_tasks s (exit_event tid 0 t s)" by (rule same_tasks_core [OF same_core_exit_event])
  show "owned_region D wfw live handle s w (T_DeleteExitEvent tid a t) (shim_region env (T_DeleteExitEvent tid a t) s w)"
    using st stopped_same [OF e] by (auto intro: owned_same [OF wf e])
next
  assume own: "\<not> overtaken s (T_DeleteRemove tid a)"
  let ?s = "s\<lparr>svc_tasks := (svc_tasks s)(tid := None)\<rparr>"
  obtain i where i: "cell s a = Some i" "inst_ref i \<notin> live w" using st by (auto simp: stopped_cell_def)
  obtain ts where ts: "svc_theap s a = Some ts" using i(1) by (auto simp: cell_def)
  have c: "cell ?s = cell s" by (simp add: cell_def fun_eq_iff)
  have "task_insts s \<subseteq> insert i (task_insts ?s)"
  proof
    fix x
    assume "x \<in> task_insts s"
    then obtain tid' b where x: "svc_tasks s tid' = Some b" "cell s b = Some x" by (auto simp: cell_insts)
    show "x \<in> insert i (task_insts ?s)"
    proof (cases "tid' = tid")
      case True
      then show ?thesis using own x i(1) by simp
    next
      case False
      then have "svc_tasks ?s tid' = Some b" using x(1) by simp
      then have "x \<in> {i. \<exists>tid a. svc_tasks ?s tid = Some a \<and> cell ?s a = Some i}" using x(2) unfolding c by blast
      then show ?thesis unfolding cell_insts by blast
    qed
  qed
  then have "live w \<subseteq> inst_ref ` task_insts ?s \<union> (live w - inst_ref ` task_insts s)" using i(2) by blast
  moreover have "cells_wf D wfw handle ?s w" using wf by (auto simp: cells_wf_def c)
  moreover have "shim_region env (T_DeleteRemove tid a) s w = (T_DeleteEvent tid (l_exitStatus ts) (l_exitedAt ts), None, ?s, w)"
    using ts by (simp add: delete_remove_def)
  ultimately show "owned_region D wfw live handle s w (T_DeleteRemove tid a) (shim_region env (T_DeleteRemove tid a) s w)"
    by (auto simp: owned_region_def keeps_rest_def c)
qed

lemma owned_exec:
  assumes wf: "cells_wf D wfw handle s w" and h: "handle w (job_inst j)"
  shows "owned_region D wfw live handle s w (T_ExecRun j) (shim_region env (T_ExecRun j) s w)"
proof -
  obtain q s1 w1 where g: "exec_run env j s w = (q, s1, w1)" by (metis prod_cases3)
  obtain k out errout w2 where x: "inst_Exec (job_inst j) (job_args j) w = (k, out, errout, w2)" by (metis prod_cases4)
  have "w1 = w2" using g x by (auto simp: exec_run_def Let_def split: prod.splits res.splits)
  with exec [OF h cells_wfD(1) [OF wf] x] exec_run_same [OF g] g show ?thesis
    by (cases q) (auto intro!: owned_quiet [OF wf])
qed

lemma owned_start:
  assumes wf: "cells_wf D wfw handle s w"
  shows "owned_region D wfw live handle s w (T_Start tid eid) (shim_region env (T_Start tid eid) s w)"
proof -
  obtain q j s1 where st: "shim_Start tid eid s = (q, j, s1)" by (metis prod_cases3)
  note same = shim_Start_same [OF st]
  then have "handle w (job_inst x)" if "j = Some x" for x
    using that cells_wfD(5) [OF wf] by (auto simp: cell_insts)
  with same st cells_wfD(1) [OF wf] show ?thesis
    by (cases q) (auto intro!: owned_quiet [OF wf])
qed

lemma owned_lookups:
  assumes wf: "cells_wf D wfw handle s w"
  shows "owned_region D wfw live handle s w (T_KillLookup tid eid sig) (shim_region env (T_KillLookup tid eid sig) s w)"
    "owned_region D wfw live handle s w (T_DeleteLookup tid eid) (shim_region env (T_DeleteLookup tid eid) s w)"
proof -
  have f: "find_task tid s = Some (a, ts) \<Longrightarrow> handle w (ts_inst ts) \<and> cell s a = Some (ts_inst ts)" for a ts
    using find_task_cell cells_wfD(5) [OF wf] by metis
  show "owned_region D wfw live handle s w (T_KillLookup tid eid sig) (shim_region env (T_KillLookup tid eid sig) s w)"
    using f by (auto intro!: owned_same [OF wf] split: res.split option.split)
  obtain q s1 where d: "deleteExec tid eid s = (q, s1)" by (cases "deleteExec tid eid s")
  show "owned_region D wfw live handle s w (T_DeleteLookup tid eid) (shim_region env (T_DeleteLookup tid eid) s w)"
    using f d deleteExec_same [OF d] by (auto intro!: owned_same [OF wf] split: res.split option.split)
qed

lemma owned_rest:
  assumes wf: "cells_wf D wfw handle s w"
  shows "owned_region D wfw live handle s w (T_KillMark tid a c) (shim_region env (T_KillMark tid a c) s w)"
    "owned_region D wfw live handle s w (T_ExecMark j c) (shim_region env (T_ExecMark j c) s w)"
    "owned_region D wfw live handle s w (T_Wait tid eid) (shim_region env (T_Wait tid eid) s w)"
    "owned_region D wfw live handle s w (T_WaitOn k ch) (shim_region env (T_WaitOn k ch) s w)"
    "owned_region D wfw live handle s w (T_WaitRead k) (shim_region env (T_WaitRead k) s w)"
    "owned_region D wfw live handle s w (T_Exec x) (shim_region env (T_Exec x) s w)"
    "owned_region D wfw live handle s w (T_CreateCheck r) (shim_region env (T_CreateCheck r) s w)"
    "owned_region D wfw live handle s w T_Shutdown (shim_region env T_Shutdown s w)"
proof -
  obtain q s1 where m: "mark_task a c (sh_now env) s = (q, s1)" by (cases "mark_task a c (sh_now env) s")
  show "owned_region D wfw live handle s w (T_KillMark tid a c) (shim_region env (T_KillMark tid a c) s w)"
    using m mark_task_same [OF m] by (auto intro!: owned_same [OF wf] split: res.split bool.split)
  obtain q s1 where m: "mark_exec (job_ptr j) c (sh_now env) s = (q, s1)" by (cases "mark_exec (job_ptr j) c (sh_now env) s")
  show "owned_region D wfw live handle s w (T_ExecMark j c) (shim_region env (T_ExecMark j c) s w)"
    using m mark_exec_same [OF m] by (auto intro!: owned_same [OF wf] split: res.split bool.split)
  obtain q s1 where m: "shim_Wait tid eid s = (q, s1)" by (cases "shim_Wait tid eid s")
  show "owned_region D wfw live handle s w (T_Wait tid eid) (shim_region env (T_Wait tid eid) s w)"
    using m shim_Wait_same [OF m] by (cases q) (auto intro!: owned_same [OF wf])
  obtain q s1 where m: "shim_Exec x s = (q, s1)" by (cases "shim_Exec x s")
  show "owned_region D wfw live handle s w (T_Exec x) (shim_region env (T_Exec x) s w)"
    using m shim_Exec_same [OF m] by (cases q) (auto intro!: owned_same [OF wf])
  show "owned_region D wfw live handle s w T_Shutdown (shim_region env T_Shutdown s w)"
    using owned_same [OF wf shim_Shutdown_same] by simp
  show "owned_region D wfw live handle s w (T_WaitOn k ch) (shim_region env (T_WaitOn k ch) s w)"
    "owned_region D wfw live handle s w (T_WaitRead k) (shim_region env (T_WaitRead k) s w)"
    "owned_region D wfw live handle s w (T_CreateCheck r) (shim_region env (T_CreateCheck r) s w)"
    by (auto intro!: owned_same [OF wf same_tasks_refl] split: res.split option.split)
qed

lemma owned_all:
  assumes wf: "cells_wf D wfw handle s w" and t: "thread_live live handle s w t" "\<not> overtaken s t"
  shows "owned_region D wfw live handle s w t (shim_region env t s w)"
  using t
proof (cases t)
  case (T_CreateEvent r)
  then show ?thesis using owned_same [OF wf same_tasks_core [OF same_core_create_event]] by simp
next
  case (T_KillEvent tid c t)
  then show ?thesis using owned_same [OF wf same_tasks_core [OF same_core_exit_event]] by simp
next
  case (T_DeleteEvent tid c t)
  then show ?thesis using owned_same [OF wf same_tasks_core [OF same_core_delete_event]] by simp
next
  case (T_ExecEvent j c t)
  then show ?thesis using owned_same [OF wf same_tasks_core [OF same_core_exec_exit_event]] by simp
qed (use owned_create [OF wf] owned_stop_regions [OF wf] owned_delete_regions [OF wf] owned_exec [OF wf]
    owned_start [OF wf] owned_lookups [OF wf] owned_rest [OF wf] owned_same [OF wf same_tasks_refl] in \<open>simp_all del: shim_region.simps(1-24)\<close>)

lemma live_step:
  assumes inv: "live_inv D wfw live handle y"
    and own: "\<And>i env. e = Run i env \<Longrightarrow> i < length (sy_threads y) \<Longrightarrow> \<not> overtaken (sy_svc y) (sy_threads y ! i)"
  shows "live_inv D wfw live handle (shim_step e y)"
proof (cases e)
  case (Call c)
  have "thread_live live handle s w (rpc_thread c) \<and> in_create (rpc_thread c :: 'a shim_thread) = {}" for s w by (cases c) simp_all
  with Call inv show ?thesis by (auto simp: live_inv_def creating_def)
next
  case (Cancel i)
  show ?thesis
  proof (cases "i < length (sy_threads y)")
    case True
    let ?t = "sy_threads y ! i"
    have c: "thread_live live handle s w ?t \<Longrightarrow> thread_live live handle s w (cancel ?t)" "in_create (cancel ?t) = in_create ?t" for s w
      by (cases ?t; simp)+
    have "creating (shim_step e y) = creating y"
      using Cancel True c(2) by (simp add: creating_update)
    moreover have "thread_live live handle (sy_svc y) (sy_world y) x" if "x \<in> set ((sy_threads y)[i := cancel ?t])" for x
      using that True c(1) inv set_update_subset_insert [of "sy_threads y" i "cancel ?t"] by (auto simp: live_inv_def)
    ultimately show ?thesis using Cancel True inv by (simp add: live_inv_def)
  qed (use Cancel inv in simp)
next
  case (Run i env)
  show ?thesis
  proof (cases "i < length (sy_threads y)")
    case True
    let ?t = "sy_threads y ! i"
    obtain t j s w where r: "shim_region env ?t (sy_svc y) (sy_world y) = (t, j, s, w)" by (metis prod_cases4)
    have wf: "cells_wf D wfw handle (sy_svc y) (sy_world y)" "thread_live live handle (sy_svc y) (sy_world y) ?t"
      "live (sy_world y) \<subseteq> inst_ref ` (task_insts (sy_svc y) \<union> creating y)"
      using inv True by (auto simp: live_inv_def)
    have o: "cells_wf D wfw handle s w" "keeps_rest live handle (sy_svc y) (sy_world y) s w" "thread_live live handle s w t"
      "\<And>x. j = Some x \<Longrightarrow> handle w (job_inst x)"
      "live w \<subseteq> inst_ref ` (task_insts s \<union> in_create t) \<union> (live (sy_world y) - inst_ref ` (task_insts (sy_svc y) \<union> in_create ?t))"
      using owned_all [OF wf(1,2) own [OF Run True], of env] unfolding r owned_region_def by auto
    let ?ts = "(sy_threads y)[i := t] @ (case j of None \<Rightarrow> [] | Some x \<Rightarrow> [T_ExecRun x])"
    have st: "shim_step e y = \<lparr>sy_svc = s, sy_world = w, sy_threads = ?ts\<rparr>" using Run True r by simp
    have "thread_live live handle s w x" if "x \<in> set (sy_threads y)" for x
      using thread_live_rest [OF o(2)] that inv by (simp add: live_inv_def)
    then have threads: "thread_live live handle s w x" if "x \<in> set ?ts" for x
      using that o(3,4) set_update_subset_insert [of "sy_threads y" i t] by (auto split: option.splits)
    have "creating y \<subseteq> in_create ?t \<union> creating (shim_step e y)" "in_create t \<subseteq> creating (shim_step e y)"
      using creating_parts [OF True, of t] unfolding st creating_def by auto
    then have "live w \<subseteq> inst_ref ` (task_insts s \<union> creating (shim_step e y))" by (rule owners_step [OF wf(3) o(5)])
    with o(1) threads st show ?thesis by (simp add: live_inv_def)
  qed (use Run inv in simp)
qed

lemma live_run: "live_inv D wfw live handle y \<Longrightarrow> no_overtaking es y \<Longrightarrow> live_inv D wfw live handle (shim_run es y)"
proof (induction es arbitrary: y)
  case (Cons e es)
  then show ?case using live_step [OF Cons.prems(1), of e] by (auto split: shim_event.splits)
qed simp

end

section \<open>The shim on the drivers of vessel\<close>

text \<open>The system that \<open>RunDaemon\<close> hands to the calls it serves.\<close>

definition shim_served :: "'g shim_site \<Rightarrow> string \<Rightarrow> Config \<Rightarrow> 'g vessel ShimSys" where
  "shim_served S nspace cfg =
     (case newManagerFromConfig (ss_site S) cfg of
        (m, w) \<Rightarrow>
          \<lparr>sy_svc = SetShutdown (fst (attach_publisher S nspace
              (NewService m (DefaultDriver cfg) (Some (cfg_Templates cfg)) (ss_pid S)))),
           sy_world = w, sy_threads = []\<rparr>)"

lemma RunDaemon_serves:
  assumes "RunDaemon S nspace None calls fin cancelled = (r, Some x, msgs)"
  shows "\<exists>cfg. LoadConfig (si_env (ss_site S)) (ss_configs S) (ss_order S) [] = Ok cfg \<and>
     x = calls (sy_svc (shim_served S nspace cfg), sy_world (shim_served S nspace cfg))"
  using assms by (rule RunDaemon_served) (auto simp: shim_served_def)

lemma shim_served_inv:
  assumes "sane (si_machine (ss_site S)) (shim_cfg S cfg)"
  shows "live_inv (both_D (\<lambda>d. \<exists>os. d = process_Driver os) (is_ch (si_machine (ss_site S)) (shim_cfg S cfg)))
    (both_wf proc_ok (ch_inv {})) (both_live proc_live ch_live)
    (both_handle proc_handle (ch_handle (si_machine (ss_site S)))) (shim_served S nspace cfg)"
proof -
  obtain m w where m: "newManagerFromConfig (ss_site S) cfg = (m, w)" by (cases "newManagerFromConfig (ss_site S) cfg")
  let ?s0 = "NewService m (DefaultDriver cfg) (Some (cfg_Templates cfg)) (ss_pid S)"
  have "svc_theap (fst (attach_publisher S nspace ?s0)) = Map.empty" "svc_mgr (fst (attach_publisher S nspace ?s0)) = m"
    "svc_tasks (fst (attach_publisher S nspace ?s0)) = Map.empty"
    by (auto simp: attach_publisher_def SetPublisher_def NewService_def Let_def split: sum.split)
  then show ?thesis
    using newManagerFromConfig_ok(3,4) [OF m assms] m
    by (auto simp: live_inv_def cells_wf_def cell_def shim_served_def SetShutdown_def mgr_ok_def)
qed

text \<open>
  C3. Every sandbox of the shim has an owner, at every moment: however the RPCs of containerd and the
  goroutines of execs interleave, on either driver and whatever the machine answers, a sandbox that lives
  belongs to a task the service knows or to a \<open>Create\<close> that is about to enter or stop it - as long as no
  \<open>Delete\<close> is overtaken by another one and a new \<open>Create\<close> under the same identifier. With no task and no
  such \<open>Create\<close> no sandbox is left, and the only VMMs are the idle ones of the pool.
\<close>

theorem shim_threads_own:
  assumes "sane (si_machine (ss_site S)) (shim_cfg S cfg)"
    and "no_overtaking es (shim_served S nspace cfg)" "y = shim_run es (shim_served S nspace cfg)"
  shows "both_live proc_live ch_live (sy_world y) \<subseteq> inst_ref ` (task_insts (sy_svc y) \<union> creating y) \<and>
     (svc_tasks (sy_svc y) = Map.empty \<and> creating y = {} \<longrightarrow>
        proc_live (fst (sy_world y)) = {} \<and> ch_live (snd (sy_world y)) = {} \<and>
        cw_procs (snd (sy_world y)) \<subseteq> idle_pids (snd (sy_world y)))"
proof -
  note inv = vessel_owned.both_owned.live_run [OF shim_served_inv [OF assms(1)] assms(2), folded assms(3)]
  then have live: "both_live proc_live ch_live (sy_world y) \<subseteq> inst_ref ` (task_insts (sy_svc y) \<union> creating y)"
    and wf: "both_wf proc_ok (ch_inv {}) (sy_world y)"
    by (auto simp: live_inv_def cells_wf_def)
  have "proc_live (fst (sy_world y)) = {} \<and> ch_live (snd (sy_world y)) = {} \<and>
      cw_procs (snd (sy_world y)) \<subseteq> idle_pids (snd (sy_world y))"
    if "svc_tasks (sy_svc y) = Map.empty" "creating y = {}"
  proof -
    have "both_live proc_live ch_live (sy_world y) = {}" using live that by (simp add: cell_insts)
    then have "proc_live (fst (sy_world y)) = {}" "ch_live (snd (sy_world y)) = {}" by (auto simp: both_live_def)
    with idle_procs [of "snd (sy_world y)"] wf show ?thesis by (simp add: both_wf_def)
  qed
  with live show ?thesis by blast
qed

text \<open>
  A run with an overlap: a process sandbox is created, and deleted by two \<open>Delete\<close>s of which the second looks
  its task up before the first removes it.
\<close>

definition overlap :: "shim_event list" where
  "overlap = Call (CallCreate req0) # runs 0 4 @ [Call (CallDelete ''p'' []), Call (CallDelete ''p'' []),
     Run 1 env0, Run 2 env0, Run 1 env0, Run 2 env0] @ runs 1 4 @ runs 2 3"

lemma shim_served_happy:
  assumes "newManagerFromConfig (ss_site happy_shim) empty_Config = (m, w)"
  shows "shim_served happy_shim ''k8s.io'' empty_Config =
    \<lparr>sy_svc = SetShutdown (NewService m ''process'' (Some Map.empty) 9), sy_world = w, sy_threads = []\<rparr>"
  using assms by (simp add: shim_served_def attach_publisher_def happy_shim_def happy_site_def DefaultDriver_def empty_Config_def)

lemma overlap_run:
  assumes "drivers m ''process'' = Some d" "drv_Create d (Some (create_spec env0 req0)) w = (Ok i, w1)"
    "inst_Stop i w1 = (Ok (), w2)" "inst_Stop i w2 = (Ok (), w3)"
  shows "no_overtaking overlap \<lparr>sy_svc = SetShutdown (NewService m ''process'' (Some Map.empty) 9), sy_world = w, sy_threads = []\<rparr>"
  unfolding overlap_def
  by (simp add: runs_numeral shim_defs assms [unfolded env0_def req0_def] mgr_Create_def track_def SetShutdown_def)

lemma overlap_ok: "no_overtaking overlap (shim_served happy_shim ''k8s.io'' empty_Config)"
proof -
  obtain m w where m: "newManagerFromConfig (ss_site happy_shim) empty_Config = (m, w)"
    by (cases "newManagerFromConfig (ss_site happy_shim) empty_Config")
  let ?d = "drv_fst (process_Driver (si_os (ss_site happy_shim)))"
  have drv: "drivers m ''process'' = Some ?d" using newManagerFromConfig_ok(1) [OF m happy_shim_sane] by simp
  obtain b rest where b: "rand_Read (pentropy (fst w)) = (b, rest)" by (cases "rand_Read (pentropy (fst w))")
  have stop: "\<exists>v'. inst_Stop (inst_at fst put_fst tag_fst (proc_instance os a n)) v = (Ok (), v') \<and> pheap (fst v') a \<noteq> None"
    if "pheap (fst v) a \<noteq> None" for os a n and v :: "nat vessel"
    using that by (auto simp: proc_Stop_def put_fst_def)
  obtain i w1 where c: "drv_Create ?d (Some (create_spec env0 req0)) w = (Ok i, w1)"
    "i = inst_at fst put_fst tag_fst (proc_instance (si_os (ss_site happy_shim)) (pnext (fst w)) (NewID b))"
    "pheap (fst w1) (pnext (fst w)) \<noteq> None"
    by (simp add: drv_fst_def made_at_def proc_Create_def b)
  from stop [OF c(3)] obtain w2 where w2: "inst_Stop i w1 = (Ok (), w2)" "pheap (fst w2) (pnext (fst w)) \<noteq> None"
    unfolding c(2) by blast
  from stop [OF w2(2)] obtain w3 where "inst_Stop i w2 = (Ok (), w3)" unfolding c(2) by blast
  from overlap_run [OF drv c(1) w2(1) this] show ?thesis by (simp only: shim_served_happy [OF m])
qed

theorem shim_threads_own_witness:
  "both_live proc_live ch_live (sy_world (shim_run overlap (shim_served happy_shim ''k8s.io'' empty_Config))) \<subseteq>
     inst_ref ` (task_insts (sy_svc (shim_run overlap (shim_served happy_shim ''k8s.io'' empty_Config))) \<union>
       creating (shim_run overlap (shim_served happy_shim ''k8s.io'' empty_Config)))"
  using shim_threads_own [OF happy_shim_sane overlap_ok refl] by blast

end
