(* ===== verification/Spec2Isabelle.thy ===== *)
theory Spec2Isabelle
  imports Vsock MgrProps ShimLive
begin

text \<open>
  \<^bold>\<open>vessel: microVM sandboxes.\<close>

  vessel runs workloads in sandboxes, each a Cloud Hypervisor microVM (or, for development, a process in fresh
  namespaces). Two programs are built on one core: the daemon \<open>vessel\<close>, which offers the sandboxes over REST,
  and the shim \<open>containerd-shim-vessel-v1\<close>, which offers them to containerd as tasks. The question that runs
  through this development is who owns a virtual machine: every path, the failing ones included, has to leave
  each of them with somebody who will stop it.

  \<^bold>\<open>How the parts interact.\<close> A \<open>Manager\<close> tracks instances of several drivers behind the interfaces
  \<open>Instance\<close>, \<open>Driver\<close> and \<open>Restorer\<close>. The Cloud Hypervisor driver takes a VMM process from a pool of
  prewarmed ones (or spawns one in a pod's network namespace, with the bridge of \<open>vmnet\<close>), packs the root file
  system into an image, configures the VMM over its API socket and waits for the agent in the guest, which it
  reaches through a vsock. The REST servers and the task service call the Manager; \<open>vessel up\<close> installs the
  assets that the driver needs; the shim's \<open>start\<close> and \<open>delete\<close> make and remove the process the service
  runs in.

  \<^bold>\<open>Conventions.\<close> A Go interface value is a record of its methods (\<open>Instance\<close>, \<open>Driver\<close> in
  \<open>Sandbox\<close>), a struct behind a pointer an entry of a heap where pointers are shared (instances, tasks, exec
  processes), a plain record otherwise. A function that can fail answers \<open>Ok\<close>, \<open>Err\<close> or \<open>Panic\<close>
  (\<open>Prelude\<close>). The order of a map iteration is an argument. Code outside the repository (kernel, VMM,
  \<open>iproute2\<close>, \<open>mkfs\<close>, ttrpc, the decoding of JSON, tar and ELF) is a parameter with a state of its own that is
  threaded through in the order of the calls, so every result it can give is covered; what is computed of the
  standard library is what the code's behaviour rests on: paths, JSON output, the hash of a socket's name, white
  space, routing and the state of a response writer.

  \<^bold>\<open>Theories, the sources they model and what their lemmas show.\<close>

  \<^item> Shared: \<open>Prelude\<close> (errors, results, strings), \<open>Filepath\<close> (\<open>path/filepath\<close>: a cleaned name that
    does not begin with \<open>..\<close> stays below the directory it is joined to), \<open>Json\<close> (\<open>encoding/json\<close>, output),
    \<open>Sha256\<close> (\<open>crypto/sha256\<close>).

  \<^item> \<open>Sandbox\<close> (\<open>pkg/sandbox/sandbox.go\<close>): \<open>Manager\<close> with \<open>mgr_Create\<close>, \<open>mgr_RestoreFrom\<close>,
    \<open>mgr_Snapshot\<close>, \<open>mgr_Fork\<close>, \<open>mgr_Delete\<close>, \<open>mgr_Shutdown\<close>. The locale \<open>sandbox_drivers\<close> is the
    contract of a driver (an invariant of its world, the live sandboxes, what each method may add or remove);
    in it, runs of Manager operations keep every live sandbox tracked and \<open>Shutdown\<close> stops them all.
    Interpreted in \<open>FakeDriver\<close> (\<open>pkg/sandbox/testutil.go\<close>), \<open>ProcessDriver\<close>
    (\<open>pkg/driver/process\<close>, with the stub for other systems), \<open>ChContract\<close> (Cloud Hypervisor) and \<open>DaemonProps\<close> (both
    drivers of the daemon).

  \<^item> \<open>MgrThreads\<close> with \<open>MgrProps\<close>: the same methods under concurrency, cut at the Manager's lock. A call is a
    thread; the locale \<open>owned_drivers\<close> (pointers are not reused, a snapshot does not end a sandbox) extends the
    contract, and with it every live sandbox has exactly one owner, the table or a call that will track or stop
    it, and none is stopped twice. A call that runs alone is the sequential method. A shutdown misses what is
    being created.

  \<^item> \<open>VmmPool\<close> (\<open>pkg/driver/cloudhypervisor/pool.go\<close>): the pool under concurrency. A section between two
    lock operations is one definition, a goroutine or caller is a thread with a program counter, an event runs
    one section of one thread. No VMM is handed out twice, the list stays within its target, a closed pool keeps
    nothing alive, and under any interleaving a refill ends after a bounded number of its own steps, with the
    pool at its target unless it was closed, a VMM was taken meanwhile or a spawn failed; \<open>waitReady\<close> returns.

  \<^item> \<open>ChClient\<close> (\<open>client.go\<close>, \<open>restore_fds.go\<close>, \<open>hvsock.go\<close>), \<open>Image\<close> (\<open>pkg/image/image.go\<close>),
    \<open>ChDriver\<close> (\<open>driver.go\<close>, \<open>netguest.go\<close>): the API client with the JSON it sends and the hand-framed
    request that carries descriptors, packing a root file system, and the driver: \<open>Create\<close>, \<open>Restore\<close>,
    \<open>Snapshot\<close>, \<open>Exec\<close>, \<open>Stop\<close>, \<open>Close\<close>, clones of a template. \<open>ChContract\<close> gives an owner to every
    VMM process at every point of the driver; \<open>ChProps\<close> draws the consequences, and runs the making of a
    clone on a file system of names and inodes, where a link shares the template's data and any call may fail.

  \<^item> \<open>Vmnet\<close> (\<open>pkg/vmnet\<close>), \<open>Agent\<close> (\<open>pkg/agent\<close>), \<open>Vsock\<close> (\<open>pkg/vsock/vsock_linux.go\<close> and
    \<open>Serve\<close> of \<open>pkg/agent/server.go\<close>): the TAP set-up and its roll-back, the protocol between host and
    guest, its transport; which descriptors each path opens and closes.

  \<^item> \<open>ShimConfig\<close> (\<open>pkg/shim/config.go\<close>, \<open>templates.go\<close>), \<open>ShimService\<close> (\<open>service.go\<close>, \<open>exec.go\<close>,
    \<open>events.go\<close>): every RPC handler as the composition of its locked regions. \<open>ExitLatch\<close> specifies the exit
    record that waiters read (a transition system with its invariant, and a locale for its implementations);
    \<open>ShimLatch\<close> interprets it on tasks and on exec processes. \<open>ShimThreads\<close> interleaves the same regions:
    an exit is recorded once, published once, and seen by every waiter. \<open>ShimProps\<close> states what handlers
    do without interference, and that they are their threads run alone.

  \<^item> \<open>ShimBoot\<close> (\<open>pkg/shim/bootstrap.go\<close>, start and delete) with \<open>ShimBootProps\<close>, \<open>ShimMain\<close>
    (\<open>serve.go\<close>, the publisher of \<open>events.go\<close>, the daemon, \<open>cmd/containerd-shim-vessel-v1\<close>) with
    \<open>ShimMainProps\<close>: the shim as a process. On a node of files, sockets, handles and process groups, every
    action of which may fail, \<open>start\<close> records the daemon it made or leaves no process, and \<open>delete\<close> kills
    exactly that one; with the service run call after call, each live sandbox belongs to a task it knows.
    \<open>ShimLive\<close> shows it for interleaved calls: an owner for each live sandbox at every moment, by an
    invariant over the regions of \<open>ShimThreads\<close> and the contract \<open>owned_drivers\<close>.

  \<^item> \<open>Rest\<close> (\<open>pkg/api/server.go\<close>, \<open>pkg/e2b/e2b.go\<close>), \<open>Bootstrap\<close> (\<open>pkg/bootstrap\<close>) with \<open>BootProps\<close>,
    \<open>DriverSum\<close> (two drivers under one Manager, the locale \<open>two_drivers\<close>), \<open>Daemon\<close> (\<open>cmd/vessel\<close>,
    \<open>cmd/vessel-agent\<close>, with the dispatch of \<open>main\<close>) with \<open>DaemonProps\<close>: each request is at most one
    Manager operation (a refinement), the shutdown of \<open>vessel serve\<close> leaves no sandbox and no VMM process,
    what requests make after it is at least tracked, and
    \<open>vessel run\<close> stops what it created on every path; \<open>vessel up\<close> installs whole files or none, an image
    only of a tree that was completely downloaded and unpacked, and unpacks archives below their destination.

  \<^bold>\<open>Loops and fuel.\<close> \<open>waitReady_loop\<close> is a partial function, shown to return on a clock that
    advances. \<open>agent_Serve\<close> accepts as many connections as its fuel says, because a listener may give them
    for ever; the claim about it takes fuel for every connection that comes. \<open>refill_rounds\<close> counts
    the rounds of a refill that the scheduler lets happen during an operation of the driver, for any number;
    the refill itself, with its end, is in \<open>VmmPool\<close>. \<open>trim_front\<close> has the length of the string
    as fuel, and each round removes a byte; \<open>alone\<close> counts the regions that a thread runs.

  \<^bold>\<open>Granularity.\<close> The pool, the Manager and the task service are interleaved at their lock operations, each
  over the layer below taken one operation at a time: a call of a driver or an instance is one region of a
  Manager's or an RPC's thread. The Cloud Hypervisor driver runs one operation after another, with the pool's
  refill rounds in between; the REST servers run one request after another.

  \<^bold>\<open>Not modelled.\<close> \<open>driver.go.906522761568562034\<close>, a stale copy that is not compiled; tests, scripts, the
  Python SDK and the images. Of the commands, the parsing of flags (\<open>vessel_main\<close> starts from what it
  yields), usage texts and what is printed. The deferred \<open>pub.Close\<close> of the shim's daemon, which closes the connection to
  containerd at its end. Symbolic links that a path runs through: the disks of \<open>ChProps\<close> and \<open>BootProps\<close>
  are flat maps, and confinement is a claim about names. Numbers in a VM configuration are integers, where
  Go's generic map has \<open>float64\<close>. Of the vsock
  transport, the methods of \<open>Conn\<close> that forward to \<open>os.File\<close>. Of Go, the scheduler and the garbage
  collector; that \<open>Pdeathsig\<close> follows the thread that forked a VMM is outside this model, which ends a VMM
  only by a call of the code. The weak memory of unsynchronised reads (fields of an instance read while another
  goroutine stops it) is not modelled either.
\<close>

end
